(* ===== verification/Prelude.thy ===== *)
theory Prelude
  imports Main "HOL-Library.Word" "HOL-Library.Multiset" "HOL-Library.Finite_Map" "HOL-Library.Sublist"
begin

text \<open>
  What every component of the development shares.

  The Go side: error values, the dynamic values passed as \<open>interface{}\<close>, panics, and
  procedures, which are state transformers over a world \<open>'w\<close> that end with a value or
  with a panic, or have not returned (\<open>Blocked\<close>: waiting for a message or a cancellation that
  the events considered do not bring). A Go function that returns only an error has the result type
  \<open>error option\<close> (\<open>None\<close> is \<open>nil\<close>); one that returns a value and an error has the sum
  type \<open>error + 'a\<close>; a pointer that may be \<open>nil\<close> is an \<open>option\<close>.

  The library side: the composition of procedures and its rules, loops over slices, Go maps
  as finite maps with their unordered \<open>range\<close> loop, and facts on lists and finite maps.
\<close>

section \<open>Values of the language\<close>

text \<open>Go strings and byte slices are byte sequences; a conversion between them keeps the bytes.\<close>

type_synonym bytes = string
type_synonym int64 = "64 word"
type_synonym int32 = "32 word"
type_synonym float64 = "64 word"
type_synonym duration = int64
type_synonym ctx = nat

datatype error =
    ErrNotFound
  | ErrDuplicateTicketID
  | ErrMissingID
  | ErrEOF
  | ErrRedisNil
  | ErrStatus string string
  | ErrWrap string error
  | ErrExt string

text \<open>\<open>errors.Is\<close> follows the chain of wrapped errors.\<close>

fun errors_Is :: "error \<Rightarrow> error \<Rightarrow> bool" where
  "errors_Is (ErrWrap msg e) t = (ErrWrap msg e = t \<or> errors_Is e t)"
| "errors_Is e t = (e = t)"

text \<open>\<open>err.Error()\<close>\<close>

fun error_Error :: "error \<Rightarrow> string" where
  "error_Error ErrNotFound = ''not found''"
| "error_Error ErrDuplicateTicketID = ''duplicate ticket id''"
| "error_Error ErrMissingID = ''Missing ID''"
| "error_Error ErrEOF = ''EOF''"
| "error_Error ErrRedisNil = ''redis: nil''"
| "error_Error (ErrStatus code msg) = ''rpc error: code = '' @ code @ '' desc = '' @ msg"
| "error_Error (ErrWrap msg e) = msg @ '': '' @ error_Error e"
| "error_Error (ErrExt msg) = msg"

text \<open>The dynamic values the code passes as \<open>interface{}\<close>, and the bytes they are sent as.\<close>

datatype iface = INil | IString string | IBytes bytes

fun wire :: "iface \<Rightarrow> bytes" where
  "wire INil = []"
| "wire (IString s) = s"
| "wire (IBytes b) = b"

text \<open>\<open>v.(string)\<close>, the checked type assertion.\<close>

fun as_string :: "iface \<Rightarrow> string option" where
  "as_string (IString s) = Some s"
| "as_string _ = None"

type_synonym 'v gomap = "(string, 'v) fmap"

section \<open>Procedures\<close>

text \<open>A run-time panic, or \<open>panic(err)\<close>.\<close>

datatype panic = NilDereference | IndexOutOfRange | NonPositiveInterval | PanicError error

datatype 'a go = Ret 'a | Panic panic | Blocked

type_synonym ('w, 'a) proc = "'w \<Rightarrow> 'a go \<times> 'w"

definition go_return :: "'a \<Rightarrow> ('w, 'a) proc" where
  "go_return a = (\<lambda>w. (Ret a, w))"

definition go_panic :: "panic \<Rightarrow> ('w, 'a) proc" where
  "go_panic p = (\<lambda>w. (Panic p, w))"

definition go_block :: "('w, 'a) proc" where
  "go_block = (\<lambda>w. (Blocked, w))"

definition go_bind :: "('w, 'a) proc \<Rightarrow> ('a \<Rightarrow> ('w, 'b) proc) \<Rightarrow> ('w, 'b) proc" where
  "go_bind m f = (\<lambda>w. case m w of
      (Ret a, w') \<Rightarrow> f a w'
    | (Panic p, w') \<Rightarrow> (Panic p, w')
    | (Blocked, w') \<Rightarrow> (Blocked, w'))"

text \<open>A call of code that does not panic.\<close>

definition call :: "('w \<Rightarrow> 'a \<times> 'w) \<Rightarrow> ('w, 'a) proc" where
  "call f = (\<lambda>w. case f w of (a, w') \<Rightarrow> (Ret a, w'))"

text \<open>\<open>for _, x := range xs\<close>: a panic of the body ends the loop.\<close>

fun for_each :: "('x \<Rightarrow> ('w, unit) proc) \<Rightarrow> 'x list \<Rightarrow> ('w, unit) proc" where
  "for_each f [] = go_return ()"
| "for_each f (x # xs) = go_bind (f x) (\<lambda>_. for_each f xs)"

text \<open>Dereference of a pointer.\<close>

definition deref :: "'a option \<Rightarrow> ('w, 'a) proc" where
  "deref x = (case x of None \<Rightarrow> go_panic NilDereference | Some a \<Rightarrow> go_return a)"

named_theorems go_simps \<open>evaluation of procedures\<close>

lemma go_return_apply [simp, go_simps]: "go_return a w = (Ret a, w)"
  by (simp add: go_return_def)

lemma go_panic_apply [simp, go_simps]: "go_panic p w = (Panic p, w)"
  by (simp add: go_panic_def)

lemma go_block_apply [simp, go_simps]: "go_block w = (Blocked, w)"
  by (simp add: go_block_def)

lemma deref_simps [simp, go_simps]:
  "deref None w = (Panic NilDereference, w)" "deref (Some a) w = (Ret a, w)"
  by (simp_all add: deref_def)

lemma go_bind_Ret: "m w = (Ret a, w') \<Longrightarrow> go_bind m f w = f a w'"
  by (simp add: go_bind_def)

lemma go_bind_Panic: "m w = (Panic p, w') \<Longrightarrow> go_bind m f w = (Panic p, w')"
  by (simp add: go_bind_def)

lemma go_bind_Blocked: "m w = (Blocked, w') \<Longrightarrow> go_bind m f w = (Blocked, w')"
  by (simp add: go_bind_def)

lemma go_bind_return [simp, go_simps]: "go_bind (go_return a) f w = f a w"
  by (simp add: go_bind_def)

lemma go_bind_panic [simp, go_simps]: "go_bind (go_panic p) f w = (Panic p, w)"
  by (simp add: go_bind_def)

lemma go_bind_block [simp, go_simps]: "go_bind go_block f w = (Blocked, w)"
  by (simp add: go_bind_def)

lemma go_bind_deref [simp, go_simps]:
  "go_bind (deref None) f w = (Panic NilDereference, w)"
  "go_bind (deref (Some a)) f w = f a w"
  by (simp_all add: go_bind_def)

lemma call_apply: "call f w = (Ret (fst (f w)), snd (f w))"
  by (simp add: call_def split: prod.splits)

lemma go_bind_call [go_simps]: "go_bind (call f) g w = g (fst (f w)) (snd (f w))"
  by (simp add: go_bind_def call_apply)

lemma call_eq: "f w = (a, w') \<Longrightarrow> call f w = (Ret a, w')"
  by (simp add: call_def)

lemma call_eqD: "call f w = (r, w') \<Longrightarrow> \<exists>a. r = Ret a \<and> f w = (a, w')"
  by (auto simp: call_def split: prod.splits)

lemma go_bind_cases:
  assumes "go_bind m f w = (r, w2)"
  obtains (ret) a w1 where "m w = (Ret a, w1)" "f a w1 = (r, w2)"
  | (panic) p where "m w = (Panic p, w2)" "r = Panic p"
  | (blocked) "m w = (Blocked, w2)" "r = Blocked"
proof (cases "m w")
  case (Pair x w1)
  show ?thesis
  proof (cases x)
    case (Ret a)
    with Pair assms show ?thesis by (intro ret [of a w1]) (simp_all add: go_bind_def)
  next
    case (Panic p)
    with Pair assms show ?thesis by (intro panic [of p]) (simp_all add: go_bind_def)
  next
    case Blocked
    with Pair assms show ?thesis by (intro blocked) (simp_all add: go_bind_def)
  qed
qed

lemma go_bind_assoc: "go_bind (go_bind m f) g = go_bind m (\<lambda>a. go_bind (f a) g)"
  by (rule ext) (simp add: go_bind_def split: prod.splits go.splits)

text \<open>An invariant of the body is an invariant of the loop.\<close>

lemma for_each_invariant:
  assumes step: "\<And>x w r w'. x \<in> set xs \<Longrightarrow> I w \<Longrightarrow> f x w = (r, w') \<Longrightarrow> I w'"
    and "I w" and "for_each f xs w = (r, w')"
  shows "I w'"
  using assms
proof (induction xs arbitrary: w)
  case Nil
  then show ?case by simp
next
  case (Cons x xs)
  from Cons.prems(3) have "go_bind (f x) (\<lambda>_. for_each f xs) w = (r, w')" by simp
  then show ?case
  proof (cases rule: go_bind_cases)
    case (ret a w1)
    from Cons.prems(1,2) ret(1) have "I w1" by (meson list.set_intros(1))
    with Cons.prems(1) ret(2) show ?thesis by (intro Cons.IH [of w1]) auto
  next
    case (panic p)
    with Cons.prems(1,2) show ?thesis by (meson list.set_intros(1))
  next
    case blocked
    with Cons.prems(1,2) show ?thesis by (meson list.set_intros(1))
  qed
qed

text \<open>A loop whose body never panics on the invariant's states does not panic.\<close>

lemma for_each_Ret:
  assumes step: "\<And>x w. x \<in> set xs \<Longrightarrow> I w \<Longrightarrow> \<exists>w'. f x w = (Ret (), w') \<and> I w'"
    and "I w"
  shows "\<exists>w'. for_each f xs w = (Ret (), w') \<and> I w'"
  using assms
proof (induction xs arbitrary: w)
  case Nil
  then show ?case by simp
next
  case (Cons x xs)
  then obtain w1 where w1: "f x w = (Ret (), w1)" "I w1" by (meson list.set_intros(1))
  moreover have "\<exists>w'. for_each f xs w1 = (Ret (), w') \<and> I w'"
    using Cons.prems(1) w1(2) by (intro Cons.IH) auto
  ultimately show ?case by (simp add: go_bind_Ret)
qed

text \<open>A loop whose body appends to a log: some of the entries, or exactly the given ones.\<close>

lemma for_each_log:
  assumes step: "\<And>x v q v'. x \<in> set xs \<Longrightarrow> I v \<Longrightarrow> f x v = (q, v') \<Longrightarrow>
      q = Ret () \<and> I v' \<and> (lg v' = lg v \<or> lg v' = lg v @ [g x])"
    and "I w" and "for_each f xs w = (r, w')"
  shows "r = Ret () \<and> I w' \<and> (\<exists>ys. subseq ys xs \<and> lg w' = lg w @ map g ys)"
  using assms
proof (induction xs arbitrary: w)
  case Nil
  then show ?case by auto
next
  case (Cons x xs)
  obtain q w1 where x: "f x w = (q, w1)" by force
  with Cons.prems(1,2) have w1: "q = Ret ()" "I w1" "lg w1 = lg w \<or> lg w1 = lg w @ [g x]"
    by (meson list.set_intros(1))+
  with Cons.prems(3) x have rest: "for_each f xs w1 = (r, w')" by (simp add: go_bind_Ret)
  have "r = Ret () \<and> I w' \<and> (\<exists>ys. subseq ys xs \<and> lg w' = lg w1 @ map g ys)"
    by (rule Cons.IH [of w1, OF Cons.prems(1) w1(2)]) (use rest in auto)
  then obtain ys where ys: "r = Ret ()" "I w'" "subseq ys xs" "lg w' = lg w1 @ map g ys" by blast
  from w1(3) show ?case
  proof
    assume "lg w1 = lg w"
    with ys show ?thesis by auto
  next
    assume "lg w1 = lg w @ [g x]"
    with ys show ?thesis by (intro conjI exI [of _ "x # ys"]) auto
  qed
qed

lemma for_each_log_all:
  assumes step: "\<And>x v. x \<in> set xs \<Longrightarrow> I v \<Longrightarrow>
      \<exists>v'. f x v = (Ret (), v') \<and> I v' \<and> lg v' = lg v @ g x"
    and "I w"
  shows "\<exists>w'. for_each f xs w = (Ret (), w') \<and> I w' \<and> lg w' = lg w @ concat (map g xs)"
  using assms
proof (induction xs arbitrary: w)
  case Nil
  then show ?case by simp
next
  case (Cons x xs)
  then obtain w1 where w1: "f x w = (Ret (), w1)" "I w1" "lg w1 = lg w @ g x"
    by (meson list.set_intros(1))
  moreover have "\<exists>w'. for_each f xs w1 = (Ret (), w') \<and> I w' \<and> lg w' = lg w1 @ concat (map g xs)"
    using Cons.prems(1) w1(2) by (intro Cons.IH) auto
  ultimately show ?case by (auto simp: go_bind_Ret)
qed

section \<open>Range loops over maps\<close>

text \<open>
  The order in which \<open>range\<close> visits the keys of a map is not specified. It is a parameter
  \<open>ord\<close> of the definitions: given the set of keys, a list that enumerates it.
\<close>

definition enumerates :: "(string set \<Rightarrow> string list) \<Rightarrow> bool" where
  "enumerates ord \<longleftrightarrow> (\<forall>A. finite A \<longrightarrow> set (ord A) = A \<and> distinct (ord A))"

definition range_map :: "(string set \<Rightarrow> string list) \<Rightarrow> 'v gomap \<Rightarrow> (string \<times> 'v) list" where
  "range_map ord m = map (\<lambda>k. (k, the (fmlookup m k))) (ord (fmdom' m))"

lemma enumerates_set [simp]: "enumerates ord \<Longrightarrow> finite A \<Longrightarrow> set (ord A) = A"
  by (simp add: enumerates_def)

lemma enumerates_distinct [simp]: "enumerates ord \<Longrightarrow> finite A \<Longrightarrow> distinct (ord A)"
  by (simp add: enumerates_def)

lemma map_fst_range_map [simp]: "map fst (range_map ord m) = ord (fmdom' m)"
  by (simp add: range_map_def comp_def)

lemma set_range_map:
  assumes "enumerates ord"
  shows "(k, v) \<in> set (range_map ord m) \<longleftrightarrow> fmlookup m k = Some v"
  using assms by (auto simp: range_map_def fmlookup_dom'_iff image_iff)

lemma map_of_range_map:
  assumes "enumerates ord"
  shows "map_of (range_map ord m) = fmlookup m"
proof (rule ext)
  fix k
  have d: "distinct (map fst (range_map ord m))" using assms by simp
  show "map_of (range_map ord m) k = fmlookup m k"
  proof (cases "fmlookup m k")
    case (Some v)
    then have "(k, v) \<in> set (range_map ord m)" using assms by (simp add: set_range_map)
    with d Some show ?thesis by simp
  next
    case None
    then have "k \<notin> fst ` set (range_map ord m)"
      using assms by (auto simp: set_range_map)
    then show ?thesis using None by (simp add: map_of_eq_None_iff)
  qed
qed

text \<open>\<open>m[g(k)] = v\<close> for every pair of a list, starting from the empty map.\<close>

lemma fold_fmupd_lookup:
  assumes "inj g" and "distinct (map fst kvs)"
  shows "fmlookup (fold (\<lambda>(k, v) acc. fmupd (g k) v acc) kvs acc0) (g k) =
    (case map_of kvs k of None \<Rightarrow> fmlookup acc0 (g k) | Some v \<Rightarrow> Some v)"
  using assms(2)
proof (induction kvs arbitrary: acc0)
  case Nil
  then show ?case by simp
next
  case (Cons kv kvs)
  obtain a b where kv: "kv = (a, b)" by force
  with Cons.prems have "map_of kvs a = None" by (auto simp: map_of_eq_None_iff image_iff)
  with Cons kv assms(1) show ?case by (auto simp: inj_eq split: option.splits)
qed

lemma fold_fmupd_lookup_other:
  "x \<notin> range g \<Longrightarrow> fmlookup (fold (\<lambda>(k, v) acc. fmupd (g k) v acc) kvs acc0) x = fmlookup acc0 x"
  by (induction kvs arbitrary: acc0) (auto split: prod.splits)

section \<open>Lists\<close>

text \<open>The first element of every key, in their order: what a loop that skips seen keys keeps.\<close>

fun first_by :: "('a \<Rightarrow> 'b) \<Rightarrow> 'a list \<Rightarrow> 'a list" where
  "first_by f [] = []"
| "first_by f (x # xs) = x # filter (\<lambda>y. f y \<noteq> f x) (first_by f xs)"

lemma first_by_keys [simp]: "f ` set (first_by f xs) = f ` set xs"
proof (induction xs)
  case (Cons x xs)
  have "f ` {y \<in> set (first_by f xs). f y \<noteq> f x} = f ` set (first_by f xs) - {f x}" by auto
  with Cons show ?case by auto
qed simp

lemma first_by_snoc: "first_by f (xs @ [x]) =
    (if f x \<in> f ` set xs then first_by f xs else first_by f xs @ [x])"
  by (induction xs) auto

lemma first_by_distinct: "distinct (map f (first_by f xs))"
  by (induction xs) (auto simp: distinct_map_filter)

lemma first_by_length: "length (first_by f xs) = card (f ` set xs)"
  by (metis first_by_distinct first_by_keys distinct_card length_map list.set_map)

lemma map_Some_the: "None \<notin> set xs \<Longrightarrow> map Some (map the xs) = xs"
  by (induction xs) auto

lemma subseq_mset: "subseq xs ys \<Longrightarrow> mset xs \<subseteq># mset ys"
proof (induction rule: list_emb.induct)
  case (list_emb_Cons xs ys y)
  then show ?case by (metis add_mset_add_single mset.simps(2) subset_mset.add_increasing2 subset_mset.zero_le)
qed auto

lemma fmdom'_nonempty: "m \<noteq> fmempty \<Longrightarrow> fmdom' m \<noteq> {}"
  by (metis empty_iff fmap_ext fmdom'_notD fmempty_lookup)

text \<open>A distinct enumeration of one element.\<close>

lemma distinct_singleton:
  assumes "distinct xs" and "set xs = {x}"
  shows "xs = [x]"
proof (cases xs)
  case (Cons y ys)
  with assms have "y = x" "set ys \<subseteq> {x}" "x \<notin> set ys" by auto
  then have "set ys = {}" by (auto simp: subset_singleton_iff)
  with Cons \<open>y = x\<close> show ?thesis by simp
qed (use assms in simp)

section \<open>Words\<close>

text \<open>Milliseconds in nanoseconds, while they fit.\<close>

lemma milliseconds_sint:
  assumes "0 < sint d" and "sint d \<le> 9223372036854"
  shows "sint (d * 1000000 :: 64 word) = sint d * 1000000"
proof -
  have "sint (d * 1000000) = signed_take_bit 63 (sint d * 1000000)" by (simp add: sint_word_ariths)
  also have "\<dots> = sint d * 1000000"
    by (rule signed_take_bit_int_eq_self) (use assms in simp_all)
  finally show ?thesis .
qed

end
