(* ===== verification/Backoff.thy ===== *)
theory Backoff
  imports Prelude
begin

text \<open>
  \<open>internal/backoff/backoff.go\<close>: the configuration of retries. The retry loop itself and the
  back-off policies belong to \<open>github.com/cenkalti/backoff\<close>, which is not part of the
  repository: a policy is kept as the expression that builds it (\<open>BackOff\<close>), and the loop is
  the parameter \<open>lib_retry\<close> of the definitions. The locale \<open>retry_library\<close> states what its
  documentation promises: the operation is run at least once, until it returns no error or the
  policy stops, and the result tells which of the two happened.
\<close>

section \<open>Policies and their configuration\<close>

datatype BackOff =
    NilBackOff
  | ExponentialBackOff
  | ConstantBackOff duration
  | WithMaxRetries BackOff "64 word"
  | WithContext BackOff ctx

type_synonym Config = "BackOff \<Rightarrow> BackOff"

definition Exponential :: Config where
  "Exponential = (\<lambda>_. ExponentialBackOff)"

definition Constant :: "duration \<Rightarrow> Config" where
  "Constant d = (\<lambda>_. ConstantBackOff d)"

definition MaxRetry :: "64 word \<Rightarrow> Config" where
  "MaxRetry n = (\<lambda>b. WithMaxRetries b n)"

type_synonym 's retry_loop =
  "BackOff \<Rightarrow> ('s, error option) proc \<Rightarrow> ('s, error option) proc"

definition Retry ::
  "'s retry_loop \<Rightarrow> ctx \<Rightarrow> ('s, error option) proc \<Rightarrow> Config list \<Rightarrow> ('s, error option) proc" where
  "Retry lib_retry ctx f config =
    (let b = fold (\<lambda>conf b. conf b) config NilBackOff;
         b' = (if length config = 0 then Exponential b else b);
         b'' = WithContext b' ctx
     in lib_retry b'' f)"

section \<open>What the retry loop promises\<close>

text \<open>
  \<open>retry_run f s r s'\<close>: repeated runs of \<open>f\<close> from \<open>s\<close> end in \<open>s'\<close> with the result \<open>r\<close>.
  A failed run is either the last one, the loop then reports an error of its choice (the
  operation's, the one inside a permanent error, or the context's), or is followed by another.
\<close>

inductive retry_run ::
  "('s, error option) proc \<Rightarrow> 's \<Rightarrow> error option go \<Rightarrow> 's \<Rightarrow> bool" for f where
  succeed: "f s = (Ret None, s') \<Longrightarrow> retry_run f s (Ret None) s'"
| stop: "f s = (Ret (Some e), s') \<Longrightarrow> retry_run f s (Ret (Some e')) s'"
| again: "f s = (Ret (Some e), s1) \<Longrightarrow> retry_run f s1 r s' \<Longrightarrow> retry_run f s r s'"
| abort: "f s = (Panic p, s') \<Longrightarrow> retry_run f s (Panic p) s'"
| wait: "f s = (Blocked, s') \<Longrightarrow> retry_run f s Blocked s'"

text \<open>The last run of a retry, on an invariant that failed runs keep.\<close>

lemma retry_run_last:
  assumes "retry_run f s r s'" and "I s"
    and "\<And>s e s'. I s \<Longrightarrow> f s = (Ret (Some e), s') \<Longrightarrow> I s'"
  shows "\<exists>s1. I s1 \<and>
    (r = Ret None \<and> f s1 = (Ret None, s') \<or>
     (\<exists>e e'. r = Ret (Some e') \<and> f s1 = (Ret (Some e), s')) \<or>
     (\<exists>p. r = Panic p \<and> f s1 = (Panic p, s')) \<or>
     r = Blocked \<and> f s1 = (Blocked, s'))"
  using assms
proof (induction rule: retry_run.induct)
  case (again s e s1 r s')
  then show ?case by blast
qed auto

text \<open>A retry whose first run succeeds is that run.\<close>

lemma retry_run_first:
  assumes "retry_run f s r s'" and "f s = (Ret None, s1)"
  shows "r = Ret None \<and> s' = s1"
  using assms by (cases rule: retry_run.cases) auto

lemma retry_run_first_panic:
  assumes "retry_run f s r s'" and "f s = (Panic p, s1)"
  shows "r = Panic p \<and> s' = s1"
  using assms by (cases rule: retry_run.cases) auto

locale retry_library =
  fixes lib_retry :: "'s retry_loop"
  assumes runs: "lib_retry b f s = (r, s') \<Longrightarrow> retry_run f s r s'"
begin

lemma Retry_runs: "Retry lib_retry ctx f config s = (r, s') \<Longrightarrow> retry_run f s r s'"
  unfolding Retry_def Let_def by (rule runs)

lemma Retry_last:
  assumes "Retry lib_retry ctx f config s = (r, s')" and "I s"
    and "\<And>s e s'. I s \<Longrightarrow> f s = (Ret (Some e), s') \<Longrightarrow> I s'"
  shows "\<exists>s1. I s1 \<and>
    (r = Ret None \<and> f s1 = (Ret None, s') \<or>
     (\<exists>e e'. r = Ret (Some e') \<and> f s1 = (Ret (Some e), s')) \<or>
     (\<exists>p. r = Panic p \<and> f s1 = (Panic p, s')) \<or>
     r = Blocked \<and> f s1 = (Blocked, s'))"
  by (rule retry_run_last [where I = I, OF Retry_runs [OF assms(1)] assms(2)]) (rule assms(3))

lemma Retry_first: "f s = (Ret None, s') \<Longrightarrow> Retry lib_retry ctx f config s = (Ret None, s')"
  using Retry_runs [of ctx f config s] retry_run_first by (metis prod.collapse)

lemma Retry_first_panic:
  "f s = (Panic p, s') \<Longrightarrow> Retry lib_retry ctx f config s = (Panic p, s')"
  using Retry_runs [of ctx f config s] retry_run_first_panic by (metis prod.collapse)

end

end
