(* ===== verification/Messages.thy ===== *)
theory Messages
  imports Prelude
begin

text \<open>
  The message structs of \<open>pkg/pb\<close>: the client API (\<open>api.v1\<close>), the documents kept in the
  key value store (\<open>db.v1\<close>) and the messages of the streams (\<open>stream.v1\<close>). A repeated
  message field is a list of messages: the generated unmarshaller never leaves a \<open>nil\<close> element
  in one. A singular message field is a pointer, an \<open>option\<close>. The unexported bookkeeping
  fields (\<open>state\<close>, \<open>sizeCache\<close>, \<open>unknownFields\<close>) are left out.
\<close>

section \<open>Package api.v1\<close>

record api_RTT =
  rtt_Host :: string
  rtt_Milliseconds :: int64

record api_MatchRequestData =
  md_Doubles :: "float64 gomap"
  md_Strings :: "string gomap"
  md_Tags :: "string list"
  md_ExtraData :: bytes

record api_GameServerPort =
  port_Name :: string
  port_Port :: int32

record api_GameServer =
  gs_GameServerIp :: string
  gs_GameServerPorts :: "api_GameServerPort list"

record api_PartyData =
  party_PartyMembers :: "string list"

record api_MatchRequest =
  req_Id :: string
  req_PlayerId :: string
  req_PartyData :: "api_PartyData option"
  req_MatchRequestData :: "api_MatchRequestData option"
  req_MatchmakingQueue :: string
  req_Rtts :: "api_RTT list"

record api_MatchResponse =
  mresp_GameServer :: "api_GameServer option"

record api_Submission =
  sub_Id :: string
  sub_Members :: "string list"
  sub_MatchRequestData :: "api_MatchRequestData option"
  sub_MatchmakingQueue :: string
  sub_Rtts :: "api_RTT list"
  sub_CreateTime :: int64

record api_MakeMatchesRequest =
  mmreq_Submissions :: "api_Submission list"

record api_Match =
  match_MatchId :: string
  match_MatchmakingQueue :: string
  match_MatchRequestIds :: "string list"
  match_PlayerIds :: "string list"
  match_Rtts :: "api_RTT list"

record api_MakeMatchesResponse =
  mmresp_Match :: "api_Match option"

record api_MakeAssignmentRequest =
  mareq_Match :: "api_Match option"

record api_MakeAssignmentResponse =
  maresp_GameServer :: "api_GameServer option"

text \<open>\<open>&api.MatchRequestData{}\<close>\<close>

definition empty_MatchRequestData :: api_MatchRequestData where
  "empty_MatchRequestData =
    \<lparr>md_Doubles = fmempty, md_Strings = fmempty, md_Tags = [], md_ExtraData = []\<rparr>"

section \<open>Package db.v1\<close>

record db_RTT =
  dbrtt_Host :: string
  dbrtt_Milliseconds :: int64

record db_MatchRequestData =
  dbmd_Doubles :: "float64 gomap"
  dbmd_Strings :: "string gomap"
  dbmd_Tags :: "string list"
  dbmd_ExtraData :: bytes

record db_GameServerPort =
  dbport_Name :: string
  dbport_Port :: int32

record db_GameServer =
  dbgs_GameServerIp :: string
  dbgs_GameServerPorts :: "db_GameServerPort list"

record db_MatchRequest =
  dbreq_Id :: string
  dbreq_Members :: "string list"
  dbreq_MatchRequestData :: "db_MatchRequestData option"
  dbreq_MatchmakingQueue :: string
  dbreq_Rtts :: "db_RTT list"
  dbreq_CreateTime :: int64
  dbreq_GameServer :: "db_GameServer option"

section \<open>Package stream.v1\<close>

record StreamTicket =
  st_MatchmakingQueue :: string
  st_MatchRequestId :: string
  st_NumberOfPlayers :: int32

record AccumulatedStreamTicket =
  ast_StreamTickets :: "StreamTicket list"

end
