(* ===== verification/Runtime.thy ===== *)
theory Runtime
  imports Backoff Messages
begin

text \<open>
  The code that every component calls and that is not in the repository, as one record of
  parameters: the retry loop, the iteration order of maps and sets, the order in which spawned
  goroutines get to run, the clock, cancellable contexts, the generator of unique ids (\<open>rs/xid\<close>) and the protobuf
  codec. The locale \<open>go_runtime\<close> states what the code relies on.
\<close>

section \<open>Captured variables\<close>

text \<open>
  The operation given to \<open>backoff.Retry\<close> is a closure of type \<open>func() error\<close> that leaves its
  result in a variable of the enclosing function. The captured variables of the repository's
  closures form the frame the retry loop runs on, beside the world.
\<close>

record frame =
  fr_allocations :: "bytes gomap"
  fr_match :: "api_Match option"
  fr_assignment :: "api_GameServer option"

definition frame0 :: frame where
  "frame0 = \<lparr>fr_allocations = fmempty, fr_match = None, fr_assignment = None\<rparr>"

section \<open>The parameters\<close>

record 'w runtime =
  rt_Retry :: "('w \<times> frame) retry_loop"
  rt_order :: "'w \<Rightarrow> string set \<Rightarrow> string list"
  rt_schedule :: "'w \<Rightarrow> string list \<Rightarrow> string list"
  rt_now :: "'w \<Rightarrow> int64"
  rt_WithCancel :: "'w \<Rightarrow> ctx \<times> 'w"
  rt_cancel :: "ctx \<Rightarrow> 'w \<Rightarrow> 'w"
  rt_done :: "ctx \<Rightarrow> 'w \<Rightarrow> bool"
  rt_xid :: "'w \<Rightarrow> string \<times> 'w"
  rt_marshal_StreamTicket :: "StreamTicket \<Rightarrow> error + bytes"
  rt_unmarshal_StreamTicket :: "bytes \<Rightarrow> error + StreamTicket"
  rt_marshal_Accumulated :: "AccumulatedStreamTicket \<Rightarrow> error + bytes"
  rt_unmarshal_Accumulated :: "bytes \<Rightarrow> error + AccumulatedStreamTicket"
  rt_marshal_MatchRequest :: "db_MatchRequest \<Rightarrow> error + bytes"
  rt_unmarshal_MatchRequest :: "bytes \<Rightarrow> error + db_MatchRequest"
  rt_marshal_Match :: "api_Match \<Rightarrow> error + bytes"
  rt_unmarshal_Match :: "bytes \<Rightarrow> error + api_Match"

section \<open>Retries of closures\<close>

text \<open>A retry in a function: the frame starts empty and is read after the loop.\<close>

definition RetryCapture ::
  "'w runtime \<Rightarrow> ctx \<Rightarrow> ('w \<times> frame, error option) proc \<Rightarrow> Config list \<Rightarrow>
    ('w, error option \<times> frame) proc" where
  "RetryCapture rt ctx f config w =
    (case Retry (rt_Retry rt) ctx f config (w, frame0) of
       (Ret r, (w', fr)) \<Rightarrow> (Ret (r, fr), w')
     | (Panic p, (w', fr)) \<Rightarrow> (Panic p, w')
     | (Blocked, (w', fr)) \<Rightarrow> (Blocked, w'))"

text \<open>An operation that does not touch the captured variables; the variables themselves.\<close>

definition no_capture :: "('w, 'a) proc \<Rightarrow> ('w \<times> 'x, 'a) proc" where
  "no_capture f = (\<lambda>(w, fr). case f w of (r, w') \<Rightarrow> (r, (w', fr)))"

lemma no_capture_iff:
  "no_capture f (w, fr) = (r, (w', fr')) \<longleftrightarrow> f w = (r, w') \<and> fr' = fr"
  by (auto simp: no_capture_def split: prod.splits)

definition captured :: "('w \<times> 'x, 'x) proc" where
  "captured = (\<lambda>(w, x). (Ret x, (w, x)))"

definition set_captured :: "'x \<Rightarrow> ('w \<times> 'x, unit) proc" where
  "set_captured y = (\<lambda>(w, x). (Ret (), (w, y)))"

lemma captured_apply [simp]: "captured (w, x) = (Ret x, (w, x))"
  by (simp add: captured_def)

lemma set_captured_apply [simp]: "set_captured y (w, x) = (Ret (), (w, y))"
  by (simp add: set_captured_def)

lemma no_capture_eq: "f w = (r, w') \<Longrightarrow> no_capture f (w, x) = (r, (w', x))"
  by (simp add: no_capture_def)

definition RetryOp ::
  "'w runtime \<Rightarrow> ctx \<Rightarrow> ('w, error option) proc \<Rightarrow> Config list \<Rightarrow> ('w, error option) proc" where
  "RetryOp rt ctx f config =
    go_bind (RetryCapture rt ctx (no_capture f) config) (\<lambda>(r, fr). go_return r)"

section \<open>What the code relies on\<close>

text \<open>
  \<open>view\<close> is everything a property observes of the world: reading the clock or drawing an
  id does not change it.
\<close>

locale go_runtime =
  fixes rt :: "'w runtime" and view :: "'w \<Rightarrow> 'v"
  assumes retry_runs: "rt_Retry rt policy f s = (r, s') \<Longrightarrow> retry_run f s r s'"
    and order: "enumerates (rt_order rt w)"
    and schedule: "mset (rt_schedule rt w xs) = mset xs"
    and xid_view: "rt_xid rt w = (i, w') \<Longrightarrow> view w' = view w"
    and xid_nonempty: "rt_xid rt w = (i, w') \<Longrightarrow> i \<noteq> []"
    and WithCancel_view: "rt_WithCancel rt w = (ctx, w') \<Longrightarrow> view w' = view w"
    and WithCancel_live: "rt_WithCancel rt w = (ctx, w') \<Longrightarrow> \<not> rt_done rt ctx w'"
    and cancel_view: "view (rt_cancel rt ctx w) = view w"
    and cancel_done: "rt_done rt ctx (rt_cancel rt ctx w)"
    and codec_StreamTicket:
      "rt_marshal_StreamTicket rt st = Inr b \<Longrightarrow> rt_unmarshal_StreamTicket rt b = Inr st"
    and codec_Accumulated:
      "rt_marshal_Accumulated rt ast = Inr b \<Longrightarrow> rt_unmarshal_Accumulated rt b = Inr ast"
    and codec_MatchRequest:
      "rt_marshal_MatchRequest rt req = Inr b \<Longrightarrow> rt_unmarshal_MatchRequest rt b = Inr req"
    and codec_Match:
      "rt_marshal_Match rt m = Inr b \<Longrightarrow> rt_unmarshal_Match rt b = Inr m"
begin

sublocale retry: retry_library "rt_Retry rt"
  by unfold_locales (rule retry_runs)

lemma RetryCapture_last:
  assumes "RetryCapture rt ctx f config w = (r, w')" and "I w frame0"
    and "\<And>w fr e w' fr'. I w fr \<Longrightarrow> f (w, fr) = (Ret (Some e), (w', fr')) \<Longrightarrow> I w' fr'"
  shows "\<exists>w1 fr1 fr. I w1 fr1 \<and>
    (r = Ret (None, fr) \<and> f (w1, fr1) = (Ret None, (w', fr)) \<or>
     (\<exists>e e'. r = Ret (Some e', fr) \<and> f (w1, fr1) = (Ret (Some e), (w', fr))) \<or>
     (\<exists>p. r = Panic p \<and> f (w1, fr1) = (Panic p, (w', fr))) \<or>
     r = Blocked \<and> f (w1, fr1) = (Blocked, (w', fr)))"
proof -
  obtain x w2 fr2 where R: "Retry (rt_Retry rt) ctx f config (w, frame0) = (x, (w2, fr2))"
    by (metis prod.exhaust)
  from R assms(1) have x: "(r, w') =
    (case x of Ret e \<Rightarrow> (Ret (e, fr2), w2) | Panic p \<Rightarrow> (Panic p, w2) | Blocked \<Rightarrow> (Blocked, w2))"
    by (simp add: RetryCapture_def split: go.splits)
  have "\<exists>s1. case_prod I s1 \<and>
    (x = Ret None \<and> f s1 = (Ret None, (w2, fr2)) \<or>
     (\<exists>e e'. x = Ret (Some e') \<and> f s1 = (Ret (Some e), (w2, fr2))) \<or>
     (\<exists>p. x = Panic p \<and> f s1 = (Panic p, (w2, fr2))) \<or>
     x = Blocked \<and> f s1 = (Blocked, (w2, fr2)))"
    by (rule retry.Retry_last [where I = "case_prod I", OF R]) (use assms(2,3) in auto)
  then show ?thesis using x by (auto split: go.splits)
qed

lemma RetryCapture_first:
  "f (w, frame0) = (Ret None, (w', fr)) \<Longrightarrow> RetryCapture rt ctx f config w = (Ret (None, fr), w')"
  by (simp add: RetryCapture_def retry.Retry_first)

lemma RetryCapture_first_panic:
  "f (w, frame0) = (Panic p, (w', fr)) \<Longrightarrow> RetryCapture rt ctx f config w = (Panic p, w')"
  by (simp add: RetryCapture_def retry.Retry_first_panic)

lemma RetryOp_last:
  assumes "RetryOp rt ctx f config w = (r, w')" and "I w"
    and "\<And>w e w'. I w \<Longrightarrow> f w = (Ret (Some e), w') \<Longrightarrow> I w'"
  shows "\<exists>w1. I w1 \<and>
    (r = Ret None \<and> f w1 = (Ret None, w') \<or>
     (\<exists>e e'. r = Ret (Some e') \<and> f w1 = (Ret (Some e), w')) \<or>
     (\<exists>p. r = Panic p \<and> f w1 = (Panic p, w')) \<or>
     r = Blocked \<and> f w1 = (Blocked, w'))"
proof -
  obtain x w2 where R: "RetryCapture rt ctx (no_capture f) config w = (x, w2)" by force
  from R assms(1) have x: "(r, w') =
    (case x of Ret (e, fr) \<Rightarrow> (Ret e, w2) | Panic p \<Rightarrow> (Panic p, w2) | Blocked \<Rightarrow> (Blocked, w2))"
    by (auto simp: RetryOp_def go_bind_def split: go.splits prod.splits)
  have "\<exists>w1 fr1 fr. I w1 \<and>
    (x = Ret (None, fr) \<and> no_capture f (w1, fr1) = (Ret None, (w2, fr)) \<or>
     (\<exists>e e'. x = Ret (Some e', fr) \<and> no_capture f (w1, fr1) = (Ret (Some e), (w2, fr))) \<or>
     (\<exists>p. x = Panic p \<and> no_capture f (w1, fr1) = (Panic p, (w2, fr))) \<or>
     x = Blocked \<and> no_capture f (w1, fr1) = (Blocked, (w2, fr)))"
    by (rule RetryCapture_last [where I = "\<lambda>w fr. I w", OF R])
      (use assms(2,3) in \<open>auto simp: no_capture_iff\<close>)
  then obtain w1 fr1 fr where "I w1" and
    "x = Ret (None, fr) \<and> f w1 = (Ret None, w2) \<or>
     (\<exists>e e'. x = Ret (Some e', fr) \<and> f w1 = (Ret (Some e), w2)) \<or>
     (\<exists>p. x = Panic p \<and> f w1 = (Panic p, w2)) \<or>
     x = Blocked \<and> f w1 = (Blocked, w2)"
    by (auto simp: no_capture_iff)
  then show ?thesis using x by (intro exI [of _ w1]) auto
qed

lemma RetryOp_first: "f w = (Ret None, w') \<Longrightarrow> RetryOp rt ctx f config w = (Ret None, w')"
  by (simp add: RetryOp_def no_capture_def go_bind_Ret [OF RetryCapture_first])

lemma RetryOp_first_panic: "f w = (Panic p, w') \<Longrightarrow> RetryOp rt ctx f config w = (Panic p, w')"
  by (simp add: RetryOp_def no_capture_def go_bind_Panic [OF RetryCapture_first_panic])

text \<open>A retried operation that keeps a relation to the start and never panics.\<close>

lemma RetryOp_no_panic:
  assumes "\<And>w r w'. I w \<Longrightarrow> f w = (r, w') \<Longrightarrow> I w' \<and> (\<exists>e. r = Ret e)"
    and "I w" and "RetryOp rt ctx f config w = (r, w')"
  shows "I w' \<and> (\<exists>e. r = Ret e)"
proof -
  have "\<exists>w1. I w1 \<and>
    (r = Ret None \<and> f w1 = (Ret None, w') \<or>
     (\<exists>e e'. r = Ret (Some e') \<and> f w1 = (Ret (Some e), w')) \<or>
     (\<exists>p. r = Panic p \<and> f w1 = (Panic p, w')) \<or>
     r = Blocked \<and> f w1 = (Blocked, w'))"
    by (rule RetryOp_last [where I = I, OF assms(3,2)]) (use assms(1) in blast)
  then show ?thesis using assms(1) by blast
qed

lemma order_set [simp]: "finite A \<Longrightarrow> set (rt_order rt w A) = A"
  and order_distinct [simp]: "finite A \<Longrightarrow> distinct (rt_order rt w A)"
  using order [of w] by simp_all

lemma set_schedule [simp]: "set (rt_schedule rt w xs) = set xs"
  by (metis schedule set_mset_mset)

end

end
