(* ===== verification/Streams.thy ===== *)
theory Streams
  imports Runtime
begin

text \<open>
  \<open>internal/db/stream\<close> and \<open>internal/db/pubsub\<close>: the two messaging interfaces and their
  implementations over a NATS connection and over Redis. The connection (\<open>nats.go\<close>) and the
  Redis client are parameters.

  A subscription registers a callback. What the callback then does for each delivered message is
  a definition of the component that subscribes; the messages delivered to it are an explicit
  argument there. A subscription that blocks (\<open>pubsub\<close>) takes the events of its wait: the
  messages, and the moment the waiting goroutine sees its context done.

  The locales \<open>stream_client\<close> and \<open>pubsub_client\<close> are the contracts of the interfaces: \<open>log\<close>
  is the sequence of published messages, extended by a publication exactly when it reports no
  error. \<open>nats_connection\<close> states the same of the connection, and the implementations are shown
  to meet their contracts.
\<close>

section \<open>The interfaces\<close>

record 'w stream_Client =
  SendMessage :: "string \<Rightarrow> bytes \<Rightarrow> ('w, error option) proc"
  stream_Subscribe :: "string \<Rightarrow> ('w, error option) proc"
  stream_Close :: "('w, unit) proc"

text \<open>
  What happens next while a subscriber is blocked: a message, the end of its channel, the moment
  it sees its context done, or a step of another process on the world.
\<close>

datatype 'w sub_event = SubMsg bytes | SubClosed | SubDone | SubStep "'w \<Rightarrow> 'w"

record 'w pubsub_Client =
  pubsub_Publish :: "ctx \<Rightarrow> string \<Rightarrow> bytes \<Rightarrow> ('w, error option) proc"
  pubsub_Subscribe ::
    "ctx \<Rightarrow> string \<Rightarrow> (bytes \<Rightarrow> ('w, unit) proc) \<Rightarrow> 'w sub_event list \<Rightarrow> ('w, error option) proc"
  pubsub_Close :: "('w, unit) proc"

section \<open>Implementations over NATS\<close>

record 'w nats_Conn =
  nc_Publish :: "string \<Rightarrow> bytes \<Rightarrow> 'w \<Rightarrow> error option \<times> 'w"
  nc_QueueSubscribe :: "string \<Rightarrow> string \<Rightarrow> 'w \<Rightarrow> (error + nat) \<times> 'w"
  nc_Subscribe :: "string \<Rightarrow> 'w \<Rightarrow> (error + nat) \<times> 'w"
  nc_Drain :: "'w \<Rightarrow> error option \<times> 'w"
  sub_Unsubscribe :: "nat \<Rightarrow> 'w \<Rightarrow> error option \<times> 'w"
  sub_Drain :: "nat \<Rightarrow> 'w \<Rightarrow> error option \<times> 'w"

text \<open>
  \<open>stream.NATS\<close>: the field \<open>subs\<close> of the struct behind the pointer is read and written in the
  world.
\<close>

record 'w stream_NATS =
  nats_nc :: "'w nats_Conn"
  nats_group :: string
  nats_subs :: "'w \<Rightarrow> nat list"
  nats_set_subs :: "nat list \<Rightarrow> 'w \<Rightarrow> 'w"

definition stream_NATS_SendMessage ::
  "'w stream_NATS \<Rightarrow> string \<Rightarrow> bytes \<Rightarrow> ('w, error option) proc" where
  "stream_NATS_SendMessage n topic value = call (nc_Publish (nats_nc n) topic value)"

definition stream_NATS_Subscribe :: "'w stream_NATS \<Rightarrow> string \<Rightarrow> ('w, error option) proc" where
  "stream_NATS_Subscribe n topic =
    go_bind (call (nc_QueueSubscribe (nats_nc n) topic (nats_group n))) (\<lambda>res.
      case res of
        Inl err \<Rightarrow> go_return (Some err)
      | Inr sub \<Rightarrow> (\<lambda>w. (Ret None, nats_set_subs n (nats_subs n w @ [sub]) w)))"

definition stream_NATS_Close :: "'w stream_NATS \<Rightarrow> ('w, unit) proc" where
  "stream_NATS_Close n w =
    go_bind (for_each (\<lambda>sub. go_bind (call (sub_Unsubscribe (nats_nc n) sub)) (\<lambda>_.
        go_bind (call (sub_Drain (nats_nc n) sub)) (\<lambda>_. go_return ()))) (nats_subs n w))
      (\<lambda>_. go_bind (call (nc_Drain (nats_nc n))) (\<lambda>_. go_return ())) w"

definition stream_NATS_Client :: "'w stream_NATS \<Rightarrow> 'w stream_Client" where
  "stream_NATS_Client n =
    \<lparr>SendMessage = stream_NATS_SendMessage n, stream_Subscribe = stream_NATS_Subscribe n,
     stream_Close = stream_NATS_Close n\<rparr>"

text \<open>\<open>NewNATS\<close>, over the \<open>Connect\<close> of the library.\<close>

definition stream_NewNATS ::
  "(string \<Rightarrow> 'w \<Rightarrow> (error + 'w nats_Conn) \<times> 'w) \<Rightarrow> ('w \<Rightarrow> nat list) \<Rightarrow> (nat list \<Rightarrow> 'w \<Rightarrow> 'w) \<Rightarrow>
    string \<Rightarrow> string \<Rightarrow> ('w, 'w stream_Client) proc" where
  "stream_NewNATS connect subs set_subs url grp =
    go_bind (call (connect url)) (\<lambda>res.
      case res of
        Inl err \<Rightarrow> go_panic (PanicError err)
      | Inr nc \<Rightarrow> go_return (stream_NATS_Client
          \<lparr>nats_nc = nc, nats_group = grp, nats_subs = subs, nats_set_subs = set_subs\<rparr>))"

text \<open>
  \<open>pubsub.NATS\<close>: the callback runs for the messages that arrive until the subscriber, woken by
  the end of its context, unsubscribes. When the events end before that, it is still waiting.
\<close>

fun nats_wait ::
  "'w runtime \<Rightarrow> ctx \<Rightarrow> (bytes \<Rightarrow> ('w, unit) proc) \<Rightarrow> 'w sub_event list \<Rightarrow> ('w, unit) proc" where
  "nats_wait rt ctx f [] = go_block"
| "nats_wait rt ctx f (SubMsg m # evs) = go_bind (f m) (\<lambda>_. nats_wait rt ctx f evs)"
| "nats_wait rt ctx f (SubClosed # evs) = nats_wait rt ctx f evs"
| "nats_wait rt ctx f (SubDone # evs) =
    (\<lambda>w. if rt_done rt ctx w then (Ret (), w) else nats_wait rt ctx f evs w)"
| "nats_wait rt ctx f (SubStep g # evs) = (\<lambda>w. nats_wait rt ctx f evs (g w))"

definition pubsub_NATS_Publish ::
  "'w nats_Conn \<Rightarrow> ctx \<Rightarrow> string \<Rightarrow> bytes \<Rightarrow> ('w, error option) proc" where
  "pubsub_NATS_Publish nc ctx topic value = call (nc_Publish nc topic value)"

definition pubsub_NATS_Subscribe ::
  "'w runtime \<Rightarrow> 'w nats_Conn \<Rightarrow> ctx \<Rightarrow> string \<Rightarrow> (bytes \<Rightarrow> ('w, unit) proc) \<Rightarrow>
    'w sub_event list \<Rightarrow> ('w, error option) proc" where
  "pubsub_NATS_Subscribe rt nc ctx topic f evs =
    go_bind (call (nc_Subscribe nc topic)) (\<lambda>res.
      case res of
        Inl err \<Rightarrow> go_return (Some err)
      | Inr sub \<Rightarrow>
          go_bind (nats_wait rt ctx f evs) (\<lambda>_.
          go_bind (call (sub_Unsubscribe nc sub)) (\<lambda>_. go_return None)))"

definition pubsub_NATS_Close :: "'w nats_Conn \<Rightarrow> ('w, unit) proc" where
  "pubsub_NATS_Close nc = go_bind (call (nc_Drain nc)) (\<lambda>_. go_return ())"

definition pubsub_NATS_Client :: "'w runtime \<Rightarrow> 'w nats_Conn \<Rightarrow> 'w pubsub_Client" where
  "pubsub_NATS_Client rt nc =
    \<lparr>pubsub_Publish = pubsub_NATS_Publish nc, pubsub_Subscribe = pubsub_NATS_Subscribe rt nc,
     pubsub_Close = pubsub_NATS_Close nc\<rparr>"

definition pubsub_NewNATS ::
  "'w runtime \<Rightarrow> (string \<Rightarrow> 'w \<Rightarrow> (error + 'w nats_Conn) \<times> 'w) \<Rightarrow> string \<Rightarrow>
    ('w, 'w pubsub_Client) proc" where
  "pubsub_NewNATS rt connect url =
    go_bind (call (connect url)) (\<lambda>res.
      case res of
        Inl err \<Rightarrow> go_panic (PanicError err)
      | Inr nc \<Rightarrow> go_return (pubsub_NATS_Client rt nc))"

section \<open>Implementation of pub-sub over Redis\<close>

record 'w redis_pubsub_cli =
  rps_Publish :: "string \<Rightarrow> string \<Rightarrow> 'w \<Rightarrow> error option \<times> 'w"
  rps_Subscribe :: "string \<Rightarrow> 'w \<Rightarrow> nat \<times> 'w"
  rps_PubSub_Close :: "nat \<Rightarrow> 'w \<Rightarrow> error option \<times> 'w"
  rps_Close :: "'w \<Rightarrow> error option \<times> 'w"

record 'w RedisPubSub =
  rps_cli :: "'w redis_pubsub_cli"
  rps_prefix :: string

definition RedisPubSub_Publish ::
  "'w RedisPubSub \<Rightarrow> ctx \<Rightarrow> string \<Rightarrow> bytes \<Rightarrow> ('w, error option) proc" where
  "RedisPubSub_Publish r ctx topic value =
    call (rps_Publish (rps_cli r) (rps_prefix r @ '':'' @ topic) value)"

text \<open>
  The loop over \<open>select\<close>: a message of the channel, a read of the closed channel (a \<open>nil\<close>
  message, whose payload is then read), or the end of the context.
\<close>

fun redis_select_loop ::
  "'w runtime \<Rightarrow> 'w redis_pubsub_cli \<Rightarrow> nat \<Rightarrow> ctx \<Rightarrow> (bytes \<Rightarrow> ('w, unit) proc) \<Rightarrow>
    'w sub_event list \<Rightarrow> ('w, error option) proc" where
  "redis_select_loop rt cli ps ctx f [] = go_block"
| "redis_select_loop rt cli ps ctx f (SubMsg m # evs) =
    go_bind (f m) (\<lambda>_. redis_select_loop rt cli ps ctx f evs)"
| "redis_select_loop rt cli ps ctx f (SubClosed # evs) = go_panic NilDereference"
| "redis_select_loop rt cli ps ctx f (SubDone # evs) =
    (\<lambda>w. if rt_done rt ctx w then call (rps_PubSub_Close cli ps) w
         else redis_select_loop rt cli ps ctx f evs w)"
| "redis_select_loop rt cli ps ctx f (SubStep g # evs) =
    (\<lambda>w. redis_select_loop rt cli ps ctx f evs (g w))"

definition RedisPubSub_Subscribe ::
  "'w runtime \<Rightarrow> 'w RedisPubSub \<Rightarrow> ctx \<Rightarrow> string \<Rightarrow> (bytes \<Rightarrow> ('w, unit) proc) \<Rightarrow>
    'w sub_event list \<Rightarrow> ('w, error option) proc" where
  "RedisPubSub_Subscribe rt r ctx topic f evs =
    go_bind (call (rps_Subscribe (rps_cli r) (rps_prefix r @ '':'' @ topic))) (\<lambda>ps.
      redis_select_loop rt (rps_cli r) ps ctx f evs)"

definition RedisPubSub_Close :: "'w RedisPubSub \<Rightarrow> ('w, unit) proc" where
  "RedisPubSub_Close r = go_bind (call (rps_Close (rps_cli r))) (\<lambda>_. go_return ())"

definition pubsub_NewRedis ::
  "'w runtime \<Rightarrow> string \<Rightarrow> 'w redis_pubsub_cli \<Rightarrow> 'w pubsub_Client" where
  "pubsub_NewRedis rt pfx newClient =
    (let r = \<lparr>rps_cli = newClient, rps_prefix = pfx\<rparr> in
     \<lparr>pubsub_Publish = RedisPubSub_Publish r, pubsub_Subscribe = RedisPubSub_Subscribe rt r,
      pubsub_Close = RedisPubSub_Close r\<rparr>)"

section \<open>The contracts\<close>

type_synonym message_log = "(string \<times> bytes) list"

definition sent :: "error option \<Rightarrow> string \<Rightarrow> bytes \<Rightarrow> message_log \<Rightarrow> message_log" where
  "sent e topic b l = (if e = None then l @ [(topic, b)] else l)"

lemma sent_simps [simp]: "sent None t b l = l @ [(t, b)]" "sent (Some e) t b l = l"
  by (simp_all add: sent_def)

locale stream_client =
  fixes K :: "'w stream_Client" and log :: "'w \<Rightarrow> message_log" and rest :: "'w \<Rightarrow> 'r"
  assumes send_message: "SendMessage K t b w = (r, w') \<Longrightarrow>
      rest w' = rest w \<and> (\<exists>e. r = Ret e \<and> log w' = sent e t b (log w))"
    and stream_subscribe: "stream_Subscribe K t w = (r, w') \<Longrightarrow>
      rest w' = rest w \<and> log w' = log w \<and> (\<exists>e. r = Ret e)"

text \<open>
  A blocking subscription calls back for the messages in their order, and returns without an
  error only when its context is done.
\<close>

locale pubsub_client =
  fixes P :: "'w pubsub_Client" and rt :: "'w runtime"
    and log :: "'w \<Rightarrow> message_log" and rest :: "'w \<Rightarrow> 'r"
  assumes publish: "pubsub_Publish P ctx t b w = (r, w') \<Longrightarrow>
      rest w' = rest w \<and> (\<exists>e. r = Ret e \<and> log w' = sent e t b (log w))"
    and subscribe_invariant:
      "pubsub_Subscribe P ctx t f evs w = (r, w') \<Longrightarrow>
       (\<And>m v q v'. SubMsg m \<in> set evs \<Longrightarrow> I (log v) (rest v) \<Longrightarrow> f m v = (q, v') \<Longrightarrow>
          I (log v') (rest v')) \<Longrightarrow>
       (\<And>g v. SubStep g \<in> set evs \<Longrightarrow> I (log v) (rest v) \<Longrightarrow> I (log (g v)) (rest (g v))) \<Longrightarrow>
       I (log w) (rest w) \<Longrightarrow> I (log w') (rest w')"

locale nats_connection =
  fixes nc :: "'w nats_Conn" and log :: "'w \<Rightarrow> message_log" and rest :: "'w \<Rightarrow> 'r"
  assumes nc_publish: "nc_Publish nc t b w = (e, w') \<Longrightarrow>
      rest w' = rest w \<and> log w' = sent e t b (log w)"
    and nc_queue_subscribe: "nc_QueueSubscribe nc t g w = (s, w') \<Longrightarrow>
      rest w' = rest w \<and> log w' = log w"
    and nc_subscribe: "nc_Subscribe nc t w = (s, w') \<Longrightarrow> rest w' = rest w \<and> log w' = log w"
    and unsubscribe: "sub_Unsubscribe nc n w = (e, w') \<Longrightarrow> rest w' = rest w \<and> log w' = log w"
begin

text \<open>The wait calls back for the messages only: what the callback keeps, the wait keeps.\<close>

lemma nats_wait_invariant:
  assumes "\<And>m v q v'. SubMsg m \<in> set evs \<Longrightarrow> J v \<Longrightarrow> f m v = (q, v') \<Longrightarrow> J v'"
    and "\<And>g v. SubStep g \<in> set evs \<Longrightarrow> J v \<Longrightarrow> J (g v)"
    and "nats_wait rt ctx f evs w = (r, w')" and "J w"
  shows "J w'"
  using assms
proof (induction rt ctx f evs arbitrary: w rule: nats_wait.induct)
  case (2 rt ctx f m evs)
  from "2.prems"(3) have "go_bind (f m) (\<lambda>_. nats_wait rt ctx f evs) w = (r, w')" by simp
  then show ?case
  proof (cases rule: go_bind_cases)
    case (ret a w1)
    from "2.prems"(1,4) ret(1) have "J w1" by (meson list.set_intros(1))
    with "2.prems"(1,2) ret show ?thesis by (intro "2.IH" [of w1]) auto
  next
    case (panic p)
    with "2.prems"(1,4) show ?thesis by (meson list.set_intros(1))
  next
    case blocked
    with "2.prems"(1,4) show ?thesis by (meson list.set_intros(1))
  qed
next
  case (5 rt ctx f g evs)
  from "5.prems"(2,4) have "J (g w)" by simp
  with "5.prems"(1-3) show ?case by (intro "5.IH" [of "g w"]) auto
qed (auto split: if_splits)

end

text \<open>A blocking subscription that returns without an error was woken by the end of its context.\<close>

lemma nats_wait_done:
  assumes "nats_wait rt ctx f evs w = (Ret (), w')"
  shows "rt_done rt ctx w'"
  using assms
proof (induction rt ctx f evs arbitrary: w rule: nats_wait.induct)
  case (2 rt ctx f m evs)
  from "2.prems" have "go_bind (f m) (\<lambda>_. nats_wait rt ctx f evs) w = (Ret (), w')" by simp
  then show ?case by (cases rule: go_bind_cases) (auto intro: "2.IH")
qed (auto split: if_splits)

locale nats_stream = nats_connection nc log rest
  for nc :: "'w nats_Conn" and log :: "'w \<Rightarrow> message_log" and rest :: "'w \<Rightarrow> 'r" +
  fixes group :: string and subs :: "'w \<Rightarrow> nat list" and set_subs :: "nat list \<Rightarrow> 'w \<Rightarrow> 'w"
  assumes set_subs_frame: "rest (set_subs ss w) = rest w" "log (set_subs ss w) = log w"
begin

sublocale stream: stream_client
  "stream_NATS_Client \<lparr>nats_nc = nc, nats_group = group, nats_subs = subs, nats_set_subs = set_subs\<rparr>"
  log rest
proof unfold_locales
  fix t b w r w'
  assume "SendMessage (stream_NATS_Client
    \<lparr>nats_nc = nc, nats_group = group, nats_subs = subs, nats_set_subs = set_subs\<rparr>) t b w = (r, w')"
  then show "rest w' = rest w \<and> (\<exists>e. r = Ret e \<and> log w' = sent e t b (log w))"
    by (auto simp: stream_NATS_Client_def stream_NATS_SendMessage_def dest!: call_eqD nc_publish)
next
  fix t w r w'
  assume *: "stream_Subscribe (stream_NATS_Client
    \<lparr>nats_nc = nc, nats_group = group, nats_subs = subs, nats_set_subs = set_subs\<rparr>) t w = (r, w')"
  obtain s w1 where s: "nc_QueueSubscribe nc t group w = (s, w1)" by force
  with * nc_queue_subscribe [OF s]
  show "rest w' = rest w \<and> log w' = log w \<and> (\<exists>e. r = Ret e)"
    by (cases s)
      (auto simp: stream_NATS_Client_def stream_NATS_Subscribe_def go_bind_call set_subs_frame)
qed

lemma NewNATS_implements_stream:
  assumes "connect url w = (Inr nc, w')"
  shows "\<exists>K. stream_NewNATS connect subs set_subs url group w = (Ret K, w') \<and> stream_client K log rest"
  using assms stream.stream_client_axioms by (simp add: stream_NewNATS_def go_bind_call)

end

locale nats_pubsub = nats_connection nc log rest
  for nc :: "'w nats_Conn" and log :: "'w \<Rightarrow> message_log" and rest :: "'w \<Rightarrow> 'r" +
  fixes rt :: "'w runtime"
begin

sublocale pubsub: pubsub_client "pubsub_NATS_Client rt nc" rt log rest
proof unfold_locales
  fix ctx t b w r w'
  assume "pubsub_Publish (pubsub_NATS_Client rt nc) ctx t b w = (r, w')"
  then show "rest w' = rest w \<and> (\<exists>e. r = Ret e \<and> log w' = sent e t b (log w))"
    by (auto simp: pubsub_NATS_Client_def pubsub_NATS_Publish_def dest!: call_eqD nc_publish)
next
  fix ctx t f evs w r w' and I :: "message_log \<Rightarrow> 'r \<Rightarrow> bool"
  assume sub: "pubsub_Subscribe (pubsub_NATS_Client rt nc) ctx t f evs w = (r, w')"
    and step: "\<And>m v q v'. SubMsg m \<in> set evs \<Longrightarrow> I (log v) (rest v) \<Longrightarrow> f m v = (q, v') \<Longrightarrow>
      I (log v') (rest v')"
    and other: "\<And>g v. SubStep g \<in> set evs \<Longrightarrow> I (log v) (rest v) \<Longrightarrow> I (log (g v)) (rest (g v))"
    and start: "I (log w) (rest w)"
  obtain s w1 where s: "nc_Subscribe nc t w = (s, w1)" by force
  have I1: "I (log w1) (rest w1)" using nc_subscribe [OF s] start by simp
  show "I (log w') (rest w')"
  proof (cases s)
    case (Inl err)
    with sub s I1 show ?thesis
      by (simp add: pubsub_NATS_Client_def pubsub_NATS_Subscribe_def go_bind_call)
  next
    case (Inr sb)
    obtain q w2 where wait: "nats_wait rt ctx f evs w1 = (q, w2)" by force
    have I2: "I (log w2) (rest w2)"
      by (rule nats_wait_invariant [where J = "\<lambda>v. I (log v) (rest v)", OF _ _ wait I1])
        (fact step, fact other)
    obtain e w3 where u: "sub_Unsubscribe nc sb w2 = (e, w3)" by force
    from sub s Inr wait u have "w' = (case q of Ret _ \<Rightarrow> w3 | _ \<Rightarrow> w2)"
      by (auto simp: pubsub_NATS_Client_def pubsub_NATS_Subscribe_def go_bind_call go_bind_def call_def
          split: go.splits)
    with I2 unsubscribe [OF u] show ?thesis by (simp split: go.splits)
  qed
qed

lemma NewNATS_implements_pubsub:
  assumes "connect url w = (Inr nc, w')"
  shows "\<exists>P. pubsub_NewNATS rt connect url w = (Ret P, w') \<and> pubsub_client P log rest"
  using assms pubsub.pubsub_client_axioms by (simp add: pubsub_NewNATS_def go_bind_call)

end

end
