(* ===== verification/Tickets.thy ===== *)
theory Tickets
  imports KV Streams
begin

text \<open>
  \<open>internal/managers/tickets/tickets.go\<close>: the manager of match requests (tickets). It keeps
  the requests in the collection \<open>tickets\<close> of the store and the link of a request to the match
  that owns it in \<open>ticket_assignments\<close>, and announces requests on the stream of their queue.

  Each method is a procedure over the world; the struct holds the three clients. Log lines are
  left out. The methods together form the record \<open>tickets_Manager\<close>, the interface the other
  components call.
\<close>

section \<open>Names\<close>

definition collectionTickets :: string where
  "collectionTickets = ''tickets''"

definition collectionTicketAssignments :: string where
  "collectionTicketAssignments = ''ticket_assignments''"

definition topicMatchRequestPrefix :: string where
  "topicMatchRequestPrefix = ''match_request_''"

definition topicAccumulatedMatchRequestPrefix :: string where
  "topicAccumulatedMatchRequestPrefix = ''accumulated_match_request_''"

definition subjectTicketUpdatesPrefix :: string where
  "subjectTicketUpdatesPrefix = ''ticket_updates_''"

definition GetMatchRequestTopic :: "string \<Rightarrow> string" where
  "GetMatchRequestTopic queueName = topicMatchRequestPrefix @ queueName"

definition GetAccumulatedMatchRequestTopic :: "string \<Rightarrow> string" where
  "GetAccumulatedMatchRequestTopic queueName = topicAccumulatedMatchRequestPrefix @ queueName"

definition GetMatchRequestSubject :: "string \<Rightarrow> string" where
  "GetMatchRequestSubject ticketID = subjectTicketUpdatesPrefix @ ticketID"

section \<open>The manager\<close>

record 'w tickets_manager =
  tm_kvStore :: "'w Store"
  tm_streamClient :: "'w stream_Client"
  tm_pubsubClient :: "'w pubsub_Client"

definition publishStreamTicket ::
  "'w runtime \<Rightarrow> 'w tickets_manager \<Rightarrow> ctx \<Rightarrow> StreamTicket \<Rightarrow> ('w, error option) proc" where
  "publishStreamTicket rt m ctx st =
    RetryOp rt ctx
      (case rt_marshal_StreamTicket rt st of
         Inl err \<Rightarrow> go_return (Some (ErrWrap ''failed to marshal stream ticket'' err))
       | Inr streamTicketBytes \<Rightarrow>
           go_bind (SendMessage (tm_streamClient m)
               (GetMatchRequestTopic (st_MatchmakingQueue st)) streamTicketBytes) (\<lambda>err.
             case err of
               Some e \<Rightarrow> go_return (Some (ErrWrap ''failed to add ticket to stream'' e))
             | None \<Rightarrow> go_return None))
      [Exponential]"

definition StreamTicketFromDBRequest :: "db_MatchRequest \<Rightarrow> StreamTicket" where
  "StreamTicketFromDBRequest request =
    \<lparr>st_MatchmakingQueue = dbreq_MatchmakingQueue request,
     st_MatchRequestId = dbreq_Id request,
     st_NumberOfPlayers = of_nat (length (dbreq_Members request))\<rparr>"

definition SubmissionFromDBRequest :: "db_MatchRequest \<Rightarrow> api_Submission" where
  "SubmissionFromDBRequest request =
    (let rtts = map (\<lambda>rtt. \<lparr>rtt_Host = dbrtt_Host rtt, rtt_Milliseconds = dbrtt_Milliseconds rtt\<rparr>)
           (dbreq_Rtts request);
         md = (case dbreq_MatchRequestData request of
             None \<Rightarrow> empty_MatchRequestData
           | Some d \<Rightarrow> \<lparr>md_Doubles = dbmd_Doubles d, md_Strings = dbmd_Strings d,
               md_Tags = dbmd_Tags d, md_ExtraData = dbmd_ExtraData d\<rparr>)
     in \<lparr>sub_Id = dbreq_Id request,
         sub_Members = dbreq_Members request,
         sub_MatchRequestData = Some md,
         sub_MatchmakingQueue = dbreq_MatchmakingQueue request,
         sub_Rtts = rtts,
         sub_CreateTime = dbreq_CreateTime request\<rparr>)"

text \<open>
  The set of players of a request and the document that \<open>CreateMatchRequest\<close> stores;
  \<open>members\<close> is the enumeration of the set, \<open>now\<close> the clock.
\<close>

definition request_members :: "api_MatchRequest \<Rightarrow> string set" where
  "request_members req =
    (let members = (case req_PartyData req of
         None \<Rightarrow> {}
       | Some party \<Rightarrow> fold insert (party_PartyMembers party) {})
     in insert (req_PlayerId req) members)"

definition request_document :: "string list \<Rightarrow> int64 \<Rightarrow> api_MatchRequest \<Rightarrow> db_MatchRequest" where
  "request_document members now req =
    (let dbRTTs = map (\<lambda>v. \<lparr>dbrtt_Host = rtt_Host v, dbrtt_Milliseconds = rtt_Milliseconds v\<rparr>)
           (req_Rtts req);
         d = (case req_MatchRequestData req of None \<Rightarrow> empty_MatchRequestData | Some d \<Rightarrow> d)
     in \<lparr>dbreq_Id = req_Id req,
         dbreq_Members = members,
         dbreq_MatchRequestData = Some \<lparr>dbmd_Doubles = md_Doubles d, dbmd_Strings = md_Strings d,
           dbmd_Tags = md_Tags d, dbmd_ExtraData = md_ExtraData d\<rparr>,
         dbreq_MatchmakingQueue = req_MatchmakingQueue req,
         dbreq_Rtts = dbRTTs,
         dbreq_CreateTime = now,
         dbreq_GameServer = None\<rparr>)"

definition CreateMatchRequest ::
  "'w runtime \<Rightarrow> 'w tickets_manager \<Rightarrow> ctx \<Rightarrow> api_MatchRequest \<Rightarrow> ('w, error option) proc" where
  "CreateMatchRequest rt m ctx req w =
    (if length (req_Id req) = 0 then (Ret (Some ErrMissingID), w)
     else
       let kvReq = request_document (rt_order rt w (request_members req)) (rt_now rt w) req;
           streamTicket = StreamTicketFromDBRequest kvReq
       in case rt_marshal_MatchRequest rt kvReq of
            Inl err \<Rightarrow> (Ret (Some (ErrWrap ''failed to marshal req'' err)), w)
          | Inr reqBytes \<Rightarrow>
              go_bind (Store_SetNX (tm_kvStore m) collectionTickets (req_Id req) (IBytes reqBytes) 0)
                (\<lambda>res. case res of
                    Inl err \<Rightarrow> go_return (Some (ErrWrap ''failed to persist req'' err))
                  | Inr was_set \<Rightarrow>
                      if \<not> was_set then go_return (Some ErrDuplicateTicketID)
                      else
                        go_bind (publishStreamTicket rt m ctx streamTicket) (\<lambda>err.
                          if err \<noteq> None
                          then go_bind (Store_Del (tm_kvStore m) collectionTickets [req_Id req])
                                 (\<lambda>_. go_return err)
                          else go_return None)) w)"

definition DeleteMatchRequest :: "'w tickets_manager \<Rightarrow> string \<Rightarrow> ('w, error option) proc" where
  "DeleteMatchRequest m ticketID = Store_Del (tm_kvStore m) collectionTickets [ticketID]"

definition GetMatchRequest ::
  "'w runtime \<Rightarrow> 'w tickets_manager \<Rightarrow> string \<Rightarrow> ('w, error + db_MatchRequest) proc" where
  "GetMatchRequest rt m ticketID =
    go_bind (Store_Get (tm_kvStore m) collectionTickets ticketID) (\<lambda>res.
      case res of
        Inl err \<Rightarrow> go_return (Inl err)
      | Inr ticketBytes \<Rightarrow>
          (case rt_unmarshal_MatchRequest rt ticketBytes of
             Inl err \<Rightarrow> go_return (Inl err)
           | Inr t \<Rightarrow> go_return (Inr t)))"

text \<open>The loop over the values read; the first one that does not parse ends it.\<close>

fun unmarshal_requests :: "'w runtime \<Rightarrow> bytes list \<Rightarrow> error + db_MatchRequest list" where
  "unmarshal_requests rt [] = Inr []"
| "unmarshal_requests rt (v # vs) =
    (case rt_unmarshal_MatchRequest rt v of
       Inl err \<Rightarrow> Inl err
     | Inr t \<Rightarrow> (case unmarshal_requests rt vs of Inl err \<Rightarrow> Inl err | Inr ts \<Rightarrow> Inr (t # ts)))"

definition GetMatchRequests ::
  "'w runtime \<Rightarrow> 'w tickets_manager \<Rightarrow> string list \<Rightarrow> ('w, error + db_MatchRequest list) proc" where
  "GetMatchRequests rt m ticketIDs =
    go_bind (Store_MGet (tm_kvStore m) collectionTickets ticketIDs) (\<lambda>res.
      case res of
        Inl err \<Rightarrow> go_return (Inl err)
      | Inr data \<Rightarrow>
          (\<lambda>w. (Ret (unmarshal_requests rt (map snd (range_map (rt_order rt w) data))), w)))"

section \<open>Streams of requests\<close>

text \<open>The callbacks act on the state \<open>'s\<close> of the subscriber's function \<open>f\<close>.\<close>

definition StreamMatchRequests :: "'w tickets_manager \<Rightarrow> string \<Rightarrow> ('w, error option) proc" where
  "StreamMatchRequests m queue =
    stream_Subscribe (tm_streamClient m) (GetMatchRequestTopic queue)"

definition StreamMatchRequests_callback ::
  "'w runtime \<Rightarrow> (StreamTicket \<Rightarrow> ('s, unit) proc) \<Rightarrow> bytes \<Rightarrow> ('s, unit) proc" where
  "StreamMatchRequests_callback rt f b =
    (case rt_unmarshal_StreamTicket rt b of Inl err \<Rightarrow> go_return () | Inr st \<Rightarrow> f st)"

definition PublishAccumulatedMatchRequests ::
  "'w runtime \<Rightarrow> 'w tickets_manager \<Rightarrow> ctx \<Rightarrow> string \<Rightarrow> StreamTicket list \<Rightarrow>
    ('w, error option) proc" where
  "PublishAccumulatedMatchRequests rt m ctx queue sts =
    RetryOp rt ctx
      (case rt_marshal_Accumulated rt \<lparr>ast_StreamTickets = sts\<rparr> of
         Inl err \<Rightarrow> go_return (Some (ErrWrap ''failed to marshal stream ticket'' err))
       | Inr streamTicketBytes \<Rightarrow>
           go_bind (SendMessage (tm_streamClient m)
               (GetAccumulatedMatchRequestTopic queue) streamTicketBytes) (\<lambda>err.
             case err of
               Some e \<Rightarrow> go_return (Some (ErrWrap ''failed to add ticket to stream'' e))
             | None \<Rightarrow> go_return None))
      [Exponential]"

definition StreamAccumulatedMatchRequests ::
  "'w tickets_manager \<Rightarrow> string \<Rightarrow> ('w, error option) proc" where
  "StreamAccumulatedMatchRequests m queue =
    stream_Subscribe (tm_streamClient m) (GetAccumulatedMatchRequestTopic queue)"

definition StreamAccumulatedMatchRequests_callback ::
  "'w runtime \<Rightarrow> (StreamTicket list \<Rightarrow> ('s, unit) proc) \<Rightarrow> bytes \<Rightarrow> ('s, unit) proc" where
  "StreamAccumulatedMatchRequests_callback rt f b =
    (case rt_unmarshal_Accumulated rt b of
       Inl err \<Rightarrow> go_return ()
     | Inr st \<Rightarrow> f (ast_StreamTickets st))"

definition WatchMatchRequest ::
  "'w runtime \<Rightarrow> 'w tickets_manager \<Rightarrow> ctx \<Rightarrow> string \<Rightarrow> (db_MatchRequest \<Rightarrow> ('w, unit) proc) \<Rightarrow>
    'w sub_event list \<Rightarrow> ('w, error option) proc" where
  "WatchMatchRequest rt m ctx ticketID f evs =
    pubsub_Subscribe (tm_pubsubClient m) ctx (GetMatchRequestSubject ticketID)
      (\<lambda>b. go_bind (GetMatchRequest rt m ticketID) (\<lambda>res.
         case res of Inl err \<Rightarrow> go_return () | Inr t \<Rightarrow> f t)) evs"

section \<open>Links to matches\<close>

definition AssignMatchRequestsToMatch ::
  "'w tickets_manager \<Rightarrow> api_Match option \<Rightarrow> ('w, error + bool) proc" where
  "AssignMatchRequestsToMatch m match_ptr =
    go_bind (deref match_ptr) (\<lambda>match.
      if length (match_MatchRequestIds match) = 0 then go_return (Inr True)
      else
        let allocations = fold (\<lambda>t allocations. fmupd t (IString (match_MatchId match)) allocations)
              (match_MatchRequestIds match) fmempty
        in Store_MSetNX (tm_kvStore m) collectionTicketAssignments allocations)"

definition ReleaseMatchRequestsFromMatch ::
  "'w tickets_manager \<Rightarrow> api_Match option \<Rightarrow> ('w, error option) proc" where
  "ReleaseMatchRequestsFromMatch m match_ptr =
    go_bind (deref match_ptr) (\<lambda>match.
      if length (match_MatchRequestIds match) = 0 then go_return None
      else Store_Del (tm_kvStore m) collectionTicketAssignments (match_MatchRequestIds match))"

definition db_GameServer_of :: "api_GameServer \<Rightarrow> db_GameServer" where
  "db_GameServer_of assignment =
    \<lparr>dbgs_GameServerIp = gs_GameServerIp assignment,
     dbgs_GameServerPorts =
       map (\<lambda>p. \<lparr>dbport_Name = port_Name p, dbport_Port = port_Port p\<rparr>)
         (gs_GameServerPorts assignment)\<rparr>"

text \<open>The loop that sets the game server of each request and collects the documents.\<close>

fun assignment_data ::
  "'w runtime \<Rightarrow> db_GameServer \<Rightarrow> db_MatchRequest list \<Rightarrow> iface gomap \<Rightarrow> error + iface gomap" where
  "assignment_data rt gs [] data = Inr data"
| "assignment_data rt gs (mr # mrs) data =
    (let mr' = mr\<lparr>dbreq_GameServer := Some gs\<rparr> in
     case rt_marshal_MatchRequest rt mr' of
       Inl err \<Rightarrow> Inl (ErrWrap ''failed to marshal match request'' err)
     | Inr reqBytes \<Rightarrow> assignment_data rt gs mrs (fmupd (dbreq_Id mr') (IBytes reqBytes) data))"

text \<open>One of the goroutines that announce the assignment; its error is dropped.\<close>

definition publish_assigned ::
  "'w runtime \<Rightarrow> 'w tickets_manager \<Rightarrow> ctx \<Rightarrow> string \<Rightarrow> ('w, unit) proc" where
  "publish_assigned rt m ctx matchRequestID =
    go_bind (RetryOp rt ctx
        (pubsub_Publish (tm_pubsubClient m) ctx (GetMatchRequestSubject matchRequestID) ''assigned'')
        [Exponential])
      (\<lambda>_. go_return ())"

definition AddAssignmentToMatchRequests ::
  "'w runtime \<Rightarrow> 'w tickets_manager \<Rightarrow> ctx \<Rightarrow> api_GameServer option \<Rightarrow> api_Match option \<Rightarrow>
    ('w, error option) proc" where
  "AddAssignmentToMatchRequests rt m ctx assignment_ptr match_ptr =
    go_bind (deref match_ptr) (\<lambda>match.
      if length (match_MatchRequestIds match) = 0 then go_return None
      else
        go_bind (GetMatchRequests rt m (match_MatchRequestIds match)) (\<lambda>res.
          case res of
            Inl err \<Rightarrow> go_return (Some err)
          | Inr matchRequests \<Rightarrow>
              go_bind (deref assignment_ptr) (\<lambda>assignment.
                let gs = db_GameServer_of assignment in
                case assignment_data rt gs matchRequests fmempty of
                  Inl err \<Rightarrow> go_return (Some err)
                | Inr data \<Rightarrow>
                    go_bind (Store_MSet (tm_kvStore m) collectionTickets data) (\<lambda>err.
                      case err of
                        Some e \<Rightarrow> go_return (Some e)
                      | None \<Rightarrow> (\<lambda>w.
                          go_bind (for_each (publish_assigned rt m ctx)
                              (rt_schedule rt w (match_MatchRequestIds match)))
                            (\<lambda>_. go_return None) w)))))"

text \<open>The ids of a slice of ticket pointers.\<close>

fun ticket_ids :: "StreamTicket option list \<Rightarrow> ('w, string list) proc" where
  "ticket_ids [] = go_return []"
| "ticket_ids (t # ts) =
    go_bind (deref t) (\<lambda>st. go_bind (ticket_ids ts) (\<lambda>ids. go_return (st_MatchRequestId st # ids)))"

definition RequeueMatchRequests ::
  "'w runtime \<Rightarrow> 'w tickets_manager \<Rightarrow> ctx \<Rightarrow> StreamTicket option list \<Rightarrow> ('w, unit) proc" where
  "RequeueMatchRequests rt m ctx tickets =
    go_bind (ticket_ids tickets) (\<lambda>ids.
      go_bind (RetryCapture rt ctx
          (\<lambda>(w, fr). case Store_MGet (tm_kvStore m) collectionTicketAssignments ids w of
              (Ret (Inl err), w') \<Rightarrow> (Ret (Some err), (w', fr\<lparr>fr_allocations := fmempty\<rparr>))
            | (Ret (Inr allocations), w') \<Rightarrow> (Ret None, (w', fr\<lparr>fr_allocations := allocations\<rparr>))
            | (Panic p, w') \<Rightarrow> (Panic p, (w', fr))
            | (Blocked, w') \<Rightarrow> (Blocked, (w', fr)))
          [Exponential]) (\<lambda>(err, fr).
        case err of
          Some e \<Rightarrow> go_return ()
        | None \<Rightarrow>
            let requeueIDs = fold (\<lambda>k requeueIDs.
                  if fmlookup (fr_allocations fr) k = None then insert k requeueIDs else requeueIDs)
                  ids {}
            in if requeueIDs = {} then go_return ()
               else for_each (\<lambda>t. go_bind (deref t) (\<lambda>st.
                   if st_MatchRequestId st \<in> requeueIDs
                   then go_bind (publishStreamTicket rt m ctx st) (\<lambda>_. go_return ())
                   else go_return ())) tickets))"

definition tickets_Close :: "'w tickets_manager \<Rightarrow> ('w, unit) proc" where
  "tickets_Close m =
    go_bind (Store_Close (tm_kvStore m)) (\<lambda>_.
    go_bind (stream_Close (tm_streamClient m)) (\<lambda>_.
    pubsub_Close (tm_pubsubClient m)))"

section \<open>The interface\<close>

record 'w tickets_Manager =
  TM_CreateMatchRequest :: "ctx \<Rightarrow> api_MatchRequest \<Rightarrow> ('w, error option) proc"
  TM_DeleteMatchRequest :: "string \<Rightarrow> ('w, error option) proc"
  TM_GetMatchRequest :: "string \<Rightarrow> ('w, error + db_MatchRequest) proc"
  TM_GetMatchRequests :: "string list \<Rightarrow> ('w, error + db_MatchRequest list) proc"
  TM_WatchMatchRequest ::
    "ctx \<Rightarrow> string \<Rightarrow> (db_MatchRequest \<Rightarrow> ('w, unit) proc) \<Rightarrow> 'w sub_event list \<Rightarrow>
      ('w, error option) proc"
  TM_StreamMatchRequests :: "string \<Rightarrow> ('w, error option) proc"
  TM_PublishAccumulatedMatchRequests ::
    "ctx \<Rightarrow> string \<Rightarrow> StreamTicket list \<Rightarrow> ('w, error option) proc"
  TM_StreamAccumulatedMatchRequests :: "string \<Rightarrow> ('w, error option) proc"
  TM_AssignMatchRequestsToMatch :: "api_Match option \<Rightarrow> ('w, error + bool) proc"
  TM_ReleaseMatchRequestsFromMatch :: "api_Match option \<Rightarrow> ('w, error option) proc"
  TM_AddAssignmentToMatchRequests ::
    "ctx \<Rightarrow> api_GameServer option \<Rightarrow> api_Match option \<Rightarrow> ('w, error option) proc"
  TM_RequeueMatchRequests :: "ctx \<Rightarrow> StreamTicket option list \<Rightarrow> ('w, unit) proc"
  TM_Close :: "('w, unit) proc"

definition tickets_NewManager :: "'w runtime \<Rightarrow> 'w Store \<Rightarrow> 'w stream_Client \<Rightarrow> 'w pubsub_Client \<Rightarrow>
    'w tickets_Manager" where
  "tickets_NewManager rt kvStore streamClient pubsubClient =
    (let m = \<lparr>tm_kvStore = kvStore, tm_streamClient = streamClient, tm_pubsubClient = pubsubClient\<rparr>
     in \<lparr>TM_CreateMatchRequest = CreateMatchRequest rt m,
         TM_DeleteMatchRequest = DeleteMatchRequest m,
         TM_GetMatchRequest = GetMatchRequest rt m,
         TM_GetMatchRequests = GetMatchRequests rt m,
         TM_WatchMatchRequest = WatchMatchRequest rt m,
         TM_StreamMatchRequests = StreamMatchRequests m,
         TM_PublishAccumulatedMatchRequests = PublishAccumulatedMatchRequests rt m,
         TM_StreamAccumulatedMatchRequests = StreamAccumulatedMatchRequests m,
         TM_AssignMatchRequestsToMatch = AssignMatchRequestsToMatch m,
         TM_ReleaseMatchRequestsFromMatch = ReleaseMatchRequestsFromMatch m,
         TM_AddAssignmentToMatchRequests = AddAssignmentToMatchRequests rt m,
         TM_RequeueMatchRequests = RequeueMatchRequests rt m,
         TM_Close = tickets_Close m\<rparr>)"

text \<open>The manager behind its interface.\<close>

definition tickets_of :: "'w runtime \<Rightarrow> 'w tickets_manager \<Rightarrow> 'w tickets_Manager" where
  "tickets_of rt tm = tickets_NewManager rt (tm_kvStore tm) (tm_streamClient tm) (tm_pubsubClient tm)"

lemma tickets_manager_eta: "\<lparr>tm_kvStore = tm_kvStore tm, tm_streamClient = tm_streamClient tm,
    tm_pubsubClient = tm_pubsubClient tm\<rparr> = tm"
  by simp

lemma tickets_of_simps [simp]:
  "TM_CreateMatchRequest (tickets_of rt tm) = CreateMatchRequest rt tm"
  "TM_GetMatchRequest (tickets_of rt tm) = GetMatchRequest rt tm"
  "TM_GetMatchRequests (tickets_of rt tm) = GetMatchRequests rt tm"
  "TM_WatchMatchRequest (tickets_of rt tm) = WatchMatchRequest rt tm"
  "TM_StreamMatchRequests (tickets_of rt tm) = StreamMatchRequests tm"
  "TM_PublishAccumulatedMatchRequests (tickets_of rt tm) = PublishAccumulatedMatchRequests rt tm"
  "TM_StreamAccumulatedMatchRequests (tickets_of rt tm) = StreamAccumulatedMatchRequests tm"
  "TM_AssignMatchRequestsToMatch (tickets_of rt tm) = AssignMatchRequestsToMatch tm"
  "TM_ReleaseMatchRequestsFromMatch (tickets_of rt tm) = ReleaseMatchRequestsFromMatch tm"
  "TM_AddAssignmentToMatchRequests (tickets_of rt tm) = AddAssignmentToMatchRequests rt tm"
  "TM_RequeueMatchRequests (tickets_of rt tm) = RequeueMatchRequests rt tm"
  by (simp_all add: tickets_of_def tickets_NewManager_def Let_def tickets_manager_eta)

end
