(* ===== verification/Matches.thy ===== *)
theory Matches
  imports Tickets
begin

text \<open>
  \<open>internal/managers/matches/matches.go\<close>: the manager of matches. A match takes its tickets
  (\<open>AssignMatchRequestsToMatch\<close> of the ticket manager), is stored under its id, and the id is sent
  on the stream of unassigned matches. The deferred functions of \<open>CreateMatch\<close> are
  \<open>defer_on_error\<close>: they run, last declared first, when the function returns an error.
\<close>

definition collectionMatch :: string where
  "collectionMatch = ''matches''"

definition topicUnassignedMatches :: string where
  "topicUnassignedMatches = ''match''"

definition GetUnassignedMatchesTopic :: string where
  "GetUnassignedMatchesTopic = topicUnassignedMatches"

record 'w matches_manager =
  mm_ticketsManager :: "'w tickets_Manager"
  mm_kvStore :: "'w Store"
  mm_streamClient :: "'w stream_Client"

definition GetMatch ::
  "'w runtime \<Rightarrow> 'w matches_manager \<Rightarrow> string \<Rightarrow> ('w, error + api_Match) proc" where
  "GetMatch rt m matchID =
    go_bind (Store_Get (mm_kvStore m) collectionMatch matchID) (\<lambda>res.
      case res of
        Inl err \<Rightarrow> go_return (Inl err)
      | Inr data \<Rightarrow>
          (case rt_unmarshal_Match rt data of
             Inl err \<Rightarrow> go_return (Inl err)
           | Inr match \<Rightarrow> go_return (Inr match)))"

text \<open>\<open>defer func() { if err != nil { d } }()\<close> around the rest of a function.\<close>

definition defer_on_error ::
  "('w, 'x) proc \<Rightarrow> ('w, error + 'a) proc \<Rightarrow> ('w, error + 'a) proc" where
  "defer_on_error d body =
    go_bind body (\<lambda>res. case res of
        Inl err \<Rightarrow> go_bind d (\<lambda>_. go_return (Inl err))
      | Inr a \<Rightarrow> go_return (Inr a))"

text \<open>
  The part of \<open>CreateMatch\<close> that stores and announces the match, under its own deferred
  function; the part that runs once the tickets are owned; and the whole.
\<close>

definition CreateMatch_persist ::
  "'w runtime \<Rightarrow> 'w matches_manager \<Rightarrow> api_Match \<Rightarrow> ('w, error + bool) proc" where
  "CreateMatch_persist rt m match =
    (case rt_marshal_Match rt match of
       Inl err \<Rightarrow> go_return (Inl err)
     | Inr matchBytes \<Rightarrow>
         go_bind (Store_Set (mm_kvStore m) collectionMatch (match_MatchId match)
             (IBytes matchBytes) 0) (\<lambda>err.
           case err of
             Some e \<Rightarrow> go_return (Inl e)
           | None \<Rightarrow>
               defer_on_error
                 (Store_Del (mm_kvStore m) collectionMatch [match_MatchId match])
                 (go_bind (SendMessage (mm_streamClient m) GetUnassignedMatchesTopic
                     (match_MatchId match)) (\<lambda>err.
                    case err of
                      Some e \<Rightarrow> go_return (Inl e)
                    | None \<Rightarrow> go_return (Inr True)))))"

definition CreateMatch_owned ::
  "'w runtime \<Rightarrow> 'w matches_manager \<Rightarrow> api_Match \<Rightarrow> ('w, error + bool) proc" where
  "CreateMatch_owned rt m match =
    defer_on_error (TM_ReleaseMatchRequestsFromMatch (mm_ticketsManager m) (Some match))
      (CreateMatch_persist rt m match)"

definition CreateMatch ::
  "'w runtime \<Rightarrow> 'w matches_manager \<Rightarrow> api_Match option \<Rightarrow> ('w, error + bool) proc" where
  "CreateMatch rt m match_ptr =
    go_bind (deref match_ptr) (\<lambda>match0.
    go_bind (if length (match_MatchId match0) = 0
             then go_bind (call (rt_xid rt)) (\<lambda>i. go_return (match0\<lparr>match_MatchId := i\<rparr>))
             else go_return match0) (\<lambda>match.
    go_bind (TM_AssignMatchRequestsToMatch (mm_ticketsManager m) (Some match)) (\<lambda>res.
      case res of
        Inl err \<Rightarrow> go_return (Inl err)
      | Inr successful \<Rightarrow>
          if \<not> successful then go_return (Inr False) else CreateMatch_owned rt m match)))"

definition StreamMatches :: "'w matches_manager \<Rightarrow> ('w, error option) proc" where
  "StreamMatches m = stream_Subscribe (mm_streamClient m) GetUnassignedMatchesTopic"

text \<open>The callback: \<open>f\<close> is called whether or not the match could be read.\<close>

definition StreamMatches_callback ::
  "'w runtime \<Rightarrow> 'w matches_manager \<Rightarrow> ctx \<Rightarrow> (api_Match option \<Rightarrow> ('w, unit) proc) \<Rightarrow> bytes \<Rightarrow>
    ('w, unit) proc" where
  "StreamMatches_callback rt m ctx f data =
    go_bind (RetryCapture rt ctx
        (\<lambda>(w, fr). case GetMatch rt m data w of
            (Ret (Inl err), w') \<Rightarrow> (Ret (Some err), (w', fr\<lparr>fr_match := None\<rparr>))
          | (Ret (Inr match), w') \<Rightarrow> (Ret None, (w', fr\<lparr>fr_match := Some match\<rparr>))
          | (Panic p, w') \<Rightarrow> (Panic p, (w', fr))
          | (Blocked, w') \<Rightarrow> (Blocked, (w', fr)))
        [Exponential]) (\<lambda>(err, fr). f (fr_match fr))"

definition matches_Requeue :: "'w matches_manager \<Rightarrow> string \<Rightarrow> ('w, error option) proc" where
  "matches_Requeue m matchID =
    SendMessage (mm_streamClient m) GetUnassignedMatchesTopic matchID"

definition matches_Close :: "'w matches_manager \<Rightarrow> ('w, unit) proc" where
  "matches_Close m =
    go_bind (Store_Close (mm_kvStore m)) (\<lambda>_. stream_Close (mm_streamClient m))"

section \<open>The interface\<close>

record 'w matches_Manager =
  MM_CreateMatch :: "api_Match option \<Rightarrow> ('w, error + bool) proc"
  MM_StreamMatches :: "('w, error option) proc"
  MM_StreamMatches_callback ::
    "ctx \<Rightarrow> (api_Match option \<Rightarrow> ('w, unit) proc) \<Rightarrow> bytes \<Rightarrow> ('w, unit) proc"
  MM_Requeue :: "string \<Rightarrow> ('w, error option) proc"
  MM_Close :: "('w, unit) proc"

definition matches_NewManager :: "'w runtime \<Rightarrow> 'w tickets_Manager \<Rightarrow> 'w Store \<Rightarrow>
    'w stream_Client \<Rightarrow> 'w matches_Manager" where
  "matches_NewManager rt ticketsManager kvStore streamClient =
    (let m = \<lparr>mm_ticketsManager = ticketsManager, mm_kvStore = kvStore,
         mm_streamClient = streamClient\<rparr>
     in \<lparr>MM_CreateMatch = CreateMatch rt m,
         MM_StreamMatches = StreamMatches m,
         MM_StreamMatches_callback = StreamMatches_callback rt m,
         MM_Requeue = matches_Requeue m,
         MM_Close = matches_Close m\<rparr>)"

end
