(* ===== verification/KV_Laws.thy ===== *)
theory KV_Laws
  imports KV
begin

text \<open>
  The contract of the key value store (locale \<open>kv_store\<close>), the documented behaviour of the
  Redis commands (locale \<open>redis_client\<close>), and the proof that the implementation with prefixed
  keys meets the contract (locale \<open>redis_store\<close>, a \<open>sublocale\<close>): each collection is a table of
  its own, because the keys of different collections never meet.
\<close>

section \<open>Tables and the outcomes of operations\<close>

type_synonym table = "string \<Rightarrow> string \<rightharpoonup> bytes"

definition tput :: "string \<Rightarrow> string \<Rightarrow> bytes \<Rightarrow> table \<Rightarrow> table" where
  "tput c k b t = t(c := (t c)(k \<mapsto> b))"

definition tputs :: "string \<Rightarrow> (string \<rightharpoonup> bytes) \<Rightarrow> table \<Rightarrow> table" where
  "tputs c m t = t(c := t c ++ m)"

definition tdel :: "string \<Rightarrow> string set \<Rightarrow> table \<Rightarrow> table" where
  "tdel c A t = t(c := t c |` (- A))"

text \<open>
  The outcome \<open>r\<close> of a write that takes the state \<open>t\<close> to \<open>t1\<close>: when it reports an error, the
  state is \<open>t\<close> or \<open>t1\<close>.
\<close>

definition write_outcome :: "error option \<Rightarrow> 's \<Rightarrow> 's \<Rightarrow> 's \<Rightarrow> bool" where
  "write_outcome r t t1 t' \<longleftrightarrow> r = None \<and> t' = t1 \<or> r \<noteq> None \<and> (t' = t \<or> t' = t1)"

definition write_nx_outcome :: "bool \<Rightarrow> error + bool \<Rightarrow> 's \<Rightarrow> 's \<Rightarrow> 's \<Rightarrow> bool" where
  "write_nx_outcome free r t t1 t' \<longleftrightarrow>
    (case r of Inr b \<Rightarrow> b = free \<and> t' = (if free then t1 else t)
     | Inl e \<Rightarrow> t' = t \<or> free \<and> t' = t1)"

definition wires :: "iface gomap \<Rightarrow> string \<rightharpoonup> bytes" where
  "wires m = (\<lambda>k. map_option wire (fmlookup m k))"

lemma dom_wires [simp]: "dom (wires m) = fmdom' m"
  by (auto simp: wires_def fmlookup_dom'_iff)

lemma write_outcome_None [simp]: "write_outcome None t t1 t' \<longleftrightarrow> t' = t1"
  by (simp add: write_outcome_def)

lemma write_outcome_Some [simp]: "write_outcome (Some e) t t1 t' \<longleftrightarrow> t' = t \<or> t' = t1"
  by (simp add: write_outcome_def)

lemma write_nx_outcome_simps [simp]:
  "write_nx_outcome free (Inr b) t t1 t' \<longleftrightarrow> b = free \<and> t' = (if free then t1 else t)"
  "write_nx_outcome free (Inl e) t t1 t' \<longleftrightarrow> t' = t \<or> free \<and> t' = t1"
  by (simp_all add: write_nx_outcome_def)

lemma tput_same [simp]: "tput c k b t c = (t c)(k \<mapsto> b)"
  and tput_other [simp]: "c' \<noteq> c \<Longrightarrow> tput c k b t c' = t c'"
  by (simp_all add: tput_def)

lemma tputs_same [simp]: "tputs c m t c = t c ++ m"
  and tputs_other [simp]: "c' \<noteq> c \<Longrightarrow> tputs c m t c' = t c'"
  by (simp_all add: tputs_def)

lemma tdel_same [simp]: "tdel c A t c = t c |` (- A)"
  and tdel_other [simp]: "c' \<noteq> c \<Longrightarrow> tdel c A t c' = t c'"
  by (simp_all add: tdel_def)

text \<open>Removing a key that was not there undoes its insertion.\<close>

lemma tdel_tput_fresh: "t c k = None \<Longrightarrow> tdel c {k} (tput c k b t) = t"
  by (rule ext) (auto simp: tdel_def tput_def restrict_map_def)

lemma tdel_tputs_fresh: "\<forall>k \<in> dom m. t c k = None \<Longrightarrow> tdel c (dom m) (tputs c m t) = t"
  by (rule ext, rule ext)
    (auto simp: tdel_def tputs_def restrict_map_def map_add_def dom_def split: option.splits)

section \<open>The contract of the store\<close>

text \<open>
  \<open>tab\<close> is the content of the store and \<open>rest\<close> everything else that is observed of the world;
  \<open>plain\<close> says which collection names the contract covers.
\<close>

locale kv_store =
  fixes S :: "'w Store" and tab :: "'w \<Rightarrow> table" and rest :: "'w \<Rightarrow> 'r"
    and plain :: "string \<Rightarrow> bool"
  assumes kv_set: "plain c \<Longrightarrow> Store_Set S c k v 0 w = (r, w') \<Longrightarrow>
      rest w' = rest w \<and> (\<exists>e. r = Ret e \<and> write_outcome e (tab w) (tput c k (wire v) (tab w)) (tab w'))"
    and kv_mset: "plain c \<Longrightarrow> Store_MSet S c m w = (r, w') \<Longrightarrow>
      rest w' = rest w \<and> (\<exists>e. r = Ret e \<and>
        (if m = fmempty then e \<noteq> None \<and> tab w' = tab w
         else write_outcome e (tab w) (tputs c (wires m) (tab w)) (tab w')))"
    and kv_setnx: "plain c \<Longrightarrow> Store_SetNX S c k v 0 w = (rb, w') \<Longrightarrow>
      rest w' = rest w \<and> (\<exists>ok. rb = Ret ok \<and>
        write_nx_outcome (tab w c k = None) ok (tab w) (tput c k (wire v) (tab w)) (tab w'))"
    and kv_msetnx: "plain c \<Longrightarrow> m \<noteq> fmempty \<Longrightarrow> Store_MSetNX S c m w = (rb, w') \<Longrightarrow>
      rest w' = rest w \<and> (\<exists>ok. rb = Ret ok \<and>
        write_nx_outcome (\<forall>k \<in> fmdom' m. tab w c k = None) ok (tab w) (tputs c (wires m) (tab w)) (tab w'))"
    and kv_keys: "plain c \<Longrightarrow> Store_Keys S c w = (rk, w') \<Longrightarrow>
      rest w' = rest w \<and> tab w' = tab w \<and>
      (\<exists>xk. rk = Ret xk \<and> (\<forall>ks. xk = Inr ks \<longrightarrow> set ks = dom (tab w c)))"
    and kv_get: "plain c \<Longrightarrow> Store_Get S c k w = (rg, w') \<Longrightarrow>
      rest w' = rest w \<and> tab w' = tab w \<and>
      (\<exists>x. rg = Ret x \<and> (\<forall>b. x = Inr b \<longrightarrow> tab w c k = Some b) \<and>
        (x = Inl ErrNotFound \<longrightarrow> tab w c k = None))"
    and kv_mget: "plain c \<Longrightarrow> Store_MGet S c ks w = (rm, w') \<Longrightarrow>
      rest w' = rest w \<and> tab w' = tab w \<and>
      (\<exists>xm. rm = Ret xm \<and> (\<forall>mm. xm = Inr mm \<longrightarrow> fmlookup mm = tab w c |` set ks))"
    and kv_del: "plain c \<Longrightarrow> ks \<noteq> [] \<Longrightarrow> Store_Del S c ks w = (r, w') \<Longrightarrow>
      rest w' = rest w \<and> (\<exists>e. r = Ret e \<and> write_outcome e (tab w) (tdel c (set ks) (tab w)) (tab w'))"

section \<open>Keys of the Redis implementation\<close>

text \<open>
  A plain name holds neither the separator of the keys nor a character with a meaning in a
  \<open>KEYS\<close> pattern.
\<close>

definition plain_name :: "string \<Rightarrow> bool" where
  "plain_name s \<longleftrightarrow> list_all (\<lambda>ch. ch \<notin> set '':*?[]^'' \<and> ch \<noteq> CHR 0x5C) s"

lemma plain_name_no_colon: "plain_name s \<Longrightarrow> CHR '':'' \<notin> set s"
  by (auto simp: plain_name_def list_all_iff)

lemma split_at_separator:
  assumes "xs @ s # ys = xs' @ s # ys'" and "s \<notin> set xs" and "s \<notin> set xs'"
  shows "xs = xs' \<and> ys = ys'"
  using assms
proof (induction xs arbitrary: xs')
  case Nil
  then show ?case by (cases xs') auto
next
  case (Cons x xs)
  then show ?case by (cases xs') auto
qed

lemma redis_key_inject:
  assumes "CHR '':'' \<notin> set c" and "CHR '':'' \<notin> set c'"
  shows "redis_key pfx c k = redis_key pfx c' k' \<longleftrightarrow> c = c' \<and> k = k'"
proof
  assume "redis_key pfx c k = redis_key pfx c' k'"
  then have "c @ CHR '':'' # k = c' @ CHR '':'' # k'" by (simp add: redis_key_def)
  from split_at_separator [OF this assms] show "c = c' \<and> k = k'" .
qed simp

lemma inj_redis_key: "inj (redis_key pfx c)"
  by (rule injI) (simp add: redis_key_def)

text \<open>The tables kept in a flat key space.\<close>

definition redis_table :: "string \<Rightarrow> (string \<rightharpoonup> bytes) \<Rightarrow> table" where
  "redis_table pfx d = (\<lambda>c k. if CHR '':'' \<in> set c then None else d (redis_key pfx c k))"

lemma redis_table_put:
  assumes "CHR '':'' \<notin> set c"
  shows "redis_table pfx (d(redis_key pfx c k \<mapsto> b)) = tput c k b (redis_table pfx d)"
  using assms by (auto simp: redis_table_def tput_def fun_eq_iff redis_key_inject)

lemma redis_table_puts:
  assumes "CHR '':'' \<notin> set c"
    and at: "\<And>k. m' (redis_key pfx c k) = m k"
    and other: "\<And>x. x \<notin> range (redis_key pfx c) \<Longrightarrow> m' x = None"
  shows "redis_table pfx (d ++ m') = tputs c m (redis_table pfx d)"
proof (rule ext, rule ext)
  fix c' k
  show "redis_table pfx (d ++ m') c' k = tputs c m (redis_table pfx d) c' k"
  proof (cases "c' = c")
    case True
    with assms(1) at show ?thesis by (simp add: redis_table_def map_add_def)
  next
    case False
    have "CHR '':'' \<notin> set c' \<Longrightarrow> redis_key pfx c' k \<notin> range (redis_key pfx c)"
      using assms(1) False by (auto simp: redis_key_inject)
    with False other show ?thesis by (auto simp: redis_table_def map_add_def)
  qed
qed

lemma redis_table_del:
  assumes "CHR '':'' \<notin> set c"
  shows "redis_table pfx (d |` (- redis_key pfx c ` A)) = tdel c A (redis_table pfx d)"
  using assms
  by (auto simp: redis_table_def tdel_def restrict_map_def fun_eq_iff redis_key_inject image_iff)

section \<open>The Redis commands\<close>

text \<open>No character with a meaning in a \<open>KEYS\<close> pattern.\<close>

definition glob_literal :: "string \<Rightarrow> bool" where
  "glob_literal s \<longleftrightarrow> list_all (\<lambda>ch. ch \<notin> set ''*?[]^'' \<and> ch \<noteq> CHR 0x5C) s"

text \<open>
  The documented behaviour of the commands, on the key space \<open>db\<close>. \<open>MSET\<close> without a key is
  refused; \<open>Nil\<close> is the reply for a key that does not exist; the replies of \<open>MGET\<close> follow its
  keys.
\<close>

definition mget_reply :: "bytes option \<Rightarrow> iface" where
  "mget_reply x = (case x of None \<Rightarrow> INil | Some b \<Rightarrow> IString b)"

locale redis_client =
  fixes R :: "'w redis_cli" and db :: "'w \<Rightarrow> string \<rightharpoonup> bytes" and rest :: "'w \<Rightarrow> 'r"
  assumes set_cmd: "cli_Set R k v 0 w = (e, w') \<Longrightarrow>
      rest w' = rest w \<and> write_outcome e (db w) ((db w)(k \<mapsto> wire v)) (db w')"
    and mset_cmd: "cli_MSet R m w = (e, w') \<Longrightarrow>
      rest w' = rest w \<and>
        (if m = fmempty then e \<noteq> None \<and> db w' = db w
         else write_outcome e (db w) (db w ++ wires m) (db w'))"
    and setnx_cmd: "cli_SetNX R k v 0 w = (ok, w') \<Longrightarrow>
      rest w' = rest w \<and>
        write_nx_outcome (db w k = None) ok (db w) ((db w)(k \<mapsto> wire v)) (db w')"
    and msetnx_cmd: "m \<noteq> fmempty \<Longrightarrow> cli_MSetNX R m w = (ok, w') \<Longrightarrow>
      rest w' = rest w \<and>
        write_nx_outcome (\<forall>k \<in> fmdom' m. db w k = None) ok (db w) (db w ++ wires m) (db w')"
    and keys_cmd: "glob_literal p \<Longrightarrow> cli_Keys R (p @ ''*'') w = (xk, w') \<Longrightarrow>
      rest w' = rest w \<and> db w' = db w \<and>
        (\<forall>ks. xk = Inr ks \<longrightarrow> set ks = {k \<in> dom (db w). prefix p k})"
    and get_cmd: "cli_Get R k w = (x, w') \<Longrightarrow>
      rest w' = rest w \<and> db w' = db w \<and> x \<noteq> Inl ErrNotFound \<and>
        (\<forall>b. x = Inr b \<longrightarrow> db w k = Some b) \<and> (x = Inl ErrRedisNil \<longrightarrow> db w k = None)"
    and mget_cmd: "cli_MGet R ks w = (xm, w') \<Longrightarrow>
      rest w' = rest w \<and> db w' = db w \<and>
        (\<forall>vs. xm = Inr vs \<longrightarrow> vs = map (\<lambda>k. mget_reply (db w k)) ks)"
    and del_cmd: "ks \<noteq> [] \<Longrightarrow> cli_Del R ks w = (e, w') \<Longrightarrow>
      rest w' = rest w \<and> write_outcome e (db w) (db w |` (- set ks)) (db w')"

section \<open>The implementation meets the contract\<close>

text \<open>The loop of \<open>MGet\<close> on the replies of the command.\<close>

lemma redis_collect_replies:
  "\<exists>m. redis_collect ks (map (\<lambda>k. mget_reply (d (g k))) ks) acc w = (Ret m, w) \<and>
     (\<forall>k. fmlookup m k = (if k \<in> set ks \<and> d (g k) \<noteq> None then d (g k) else fmlookup acc k))"
proof (induction ks arbitrary: acc)
  case Nil
  then show ?case by simp
next
  case (Cons k ks)
  show ?case
  proof (cases "d (g k)")
    case None
    from Cons.IH [of acc] obtain m where
      m: "redis_collect ks (map (\<lambda>k. mget_reply (d (g k))) ks) acc w = (Ret m, w)"
        "\<forall>k. fmlookup m k = (if k \<in> set ks \<and> d (g k) \<noteq> None then d (g k) else fmlookup acc k)"
      by blast
    from m(1) None have "redis_collect (k # ks) (map (\<lambda>k. mget_reply (d (g k))) (k # ks)) acc w =
      (Ret m, w)" by (simp add: mget_reply_def)
    moreover from m(2) None have "\<forall>k'. fmlookup m k' =
      (if k' \<in> set (k # ks) \<and> d (g k') \<noteq> None then d (g k') else fmlookup acc k')" by auto
    ultimately show ?thesis by blast
  next
    case (Some b)
    from Cons.IH [of "fmupd k b acc"] obtain m where
      m: "redis_collect ks (map (\<lambda>k. mget_reply (d (g k))) ks) (fmupd k b acc) w = (Ret m, w)"
        "\<forall>k'. fmlookup m k' =
          (if k' \<in> set ks \<and> d (g k') \<noteq> None then d (g k') else fmlookup (fmupd k b acc) k')"
      by blast
    from m(1) Some have "redis_collect (k # ks) (map (\<lambda>k. mget_reply (d (g k))) (k # ks)) acc w =
      (Ret m, w)" by (simp add: mget_reply_def)
    moreover from m(2) Some have "\<forall>k'. fmlookup m k' =
      (if k' \<in> set (k # ks) \<and> d (g k') \<noteq> None then d (g k') else fmlookup acc k')" by auto
    ultimately show ?thesis by blast
  qed
qed

lemma redis_trim_prefixed:
  "\<forall>k \<in> set ks. n \<le> length k \<Longrightarrow> redis_trim n ks w = (Ret (map (drop n) ks), w)"
  by (induction ks) (simp_all add: go_bind_def)

lemma setValues_lookup:
  assumes "enumerates (redis_order r w)"
  shows "fmlookup (redis_setValues r c m w) (redis_key (redis_prefix r) c k) = fmlookup m k"
proof -
  have "distinct (map fst (range_map (redis_order r w) m))" using assms by simp
  from fold_fmupd_lookup [OF inj_redis_key this, of "redis_prefix r" c fmempty k]
  show ?thesis
    unfolding redis_setValues_def map_of_range_map [OF assms]
    by (cases "fmlookup m k") simp_all
qed

lemma setValues_lookup_other:
  "x \<notin> range (redis_key (redis_prefix r) c) \<Longrightarrow> fmlookup (redis_setValues r c m w) x = None"
  unfolding redis_setValues_def by (subst fold_fmupd_lookup_other) simp_all

lemma setValues_empty:
  assumes "enumerates (redis_order r w)"
  shows "redis_setValues r c m w = fmempty \<longleftrightarrow> m = fmempty"
proof
  assume "m = fmempty"
  then have "fmlookup (redis_setValues r c m w) x = None" for x
    using setValues_lookup [OF assms, where c = c and m = m]
      setValues_lookup_other [where x = x and c = c and m = m]
    by (cases "x \<in> range (redis_key (redis_prefix r) c)") auto
  then show "redis_setValues r c m w = fmempty" by (intro fmap_ext) simp
next
  assume "redis_setValues r c m w = fmempty"
  then have "fmlookup m k = None" for k
    using setValues_lookup [OF assms, where c = c and m = m and k = k] by simp
  then show "m = fmempty" by (intro fmap_ext) simp
qed

lemma setValues_dom:
  assumes "enumerates (redis_order r w)"
  shows "fmdom' (redis_setValues r c m w) = redis_key (redis_prefix r) c ` fmdom' m"
proof (rule set_eqI)
  fix x
  show "x \<in> fmdom' (redis_setValues r c m w) \<longleftrightarrow> x \<in> redis_key (redis_prefix r) c ` fmdom' m"
  proof (cases "x \<in> range (redis_key (redis_prefix r) c)")
    case True
    then obtain k where x: "x = redis_key (redis_prefix r) c k" by blast
    then show ?thesis
      using setValues_lookup [OF assms, where c = c and m = m and k = k]
      by (simp add: fmlookup_dom'_iff inj_image_mem_iff [OF inj_redis_key])
  next
    case False
    with setValues_lookup_other [OF this, where m = m and w = w] show ?thesis
      by (auto simp: fmlookup_dom'_iff)
  qed
qed

locale redis_store = redis_client R db rest
  for R :: "'w redis_cli" and db :: "'w \<Rightarrow> string \<rightharpoonup> bytes" and rest :: "'w \<Rightarrow> 'r" +
  fixes ord :: "'w \<Rightarrow> string set \<Rightarrow> string list" and pfx :: string
  assumes ord: "enumerates (ord w)" and pfx_literal: "glob_literal pfx"
begin

abbreviation impl :: "'w Redis" where
  "impl \<equiv> \<lparr>redisCli = R, redis_prefix = pfx, redis_order = ord\<rparr>"

abbreviation tables :: "'w \<Rightarrow> table" where
  "tables w \<equiv> redis_table pfx (db w)"

lemma impl_order: "enumerates (redis_order impl w)"
  by (simp add: ord)

lemma tables_puts:
  assumes "plain_name c"
  shows "redis_table pfx (d ++ wires (redis_setValues impl c m w)) =
    tputs c (wires m) (redis_table pfx d)"
proof (rule redis_table_puts)
  show "CHR '':'' \<notin> set c" by (rule plain_name_no_colon [OF assms])
  show "wires (redis_setValues impl c m w) (redis_key pfx c k) = wires m k" for k
    using setValues_lookup [OF impl_order, where c = c and m = m and k = k] by (simp add: wires_def)
  show "wires (redis_setValues impl c m w) x = None" if "x \<notin> range (redis_key pfx c)" for x
    using setValues_lookup_other [where r = impl and c = c and m = m and w = w and x = x] that
    by (simp add: wires_def)
qed

lemma Redis_Set_law:
  assumes "plain_name c" and "Redis_Set impl c k v 0 w = (r, w')"
  shows "rest w' = rest w \<and> (\<exists>e. r = Ret e \<and>
    write_outcome e (tables w) (tput c k (wire v) (tables w)) (tables w'))"
proof -
  from assms(2) obtain e where r: "r = Ret e" "cli_Set R (redis_key pfx c k) v 0 w = (e, w')"
    by (auto simp: Redis_Set_def dest: call_eqD)
  from set_cmd [OF r(2)] show ?thesis
    using r(1) redis_table_put [OF plain_name_no_colon [OF assms(1)], of pfx "db w" k "wire v"]
    by (cases e) auto
qed

lemma Redis_MSet_law:
  assumes "plain_name c" and "Redis_MSet impl c m w = (r, w')"
  shows "rest w' = rest w \<and> (\<exists>e. r = Ret e \<and>
    (if m = fmempty then e \<noteq> None \<and> tables w' = tables w
     else write_outcome e (tables w) (tputs c (wires m) (tables w)) (tables w')))"
proof -
  from assms(2) obtain e where r: "r = Ret e"
    "cli_MSet R (redis_setValues impl c m w) w = (e, w')"
    by (auto simp: Redis_MSet_def dest: call_eqD)
  from mset_cmd [OF r(2)] show ?thesis
    using r(1) tables_puts [OF assms(1), of "db w" m w] setValues_empty [OF impl_order, where c = c and m = m]
    by (cases e) (auto split: if_splits)
qed

lemma Redis_SetNX_law:
  assumes "plain_name c" and "Redis_SetNX impl c k v 0 w = (r, w')"
  shows "rest w' = rest w \<and> (\<exists>b. r = Ret b \<and>
    write_nx_outcome (tables w c k = None) b (tables w) (tput c k (wire v) (tables w)) (tables w'))"
proof -
  from assms(2) obtain b where r: "r = Ret b" "cli_SetNX R (redis_key pfx c k) v 0 w = (b, w')"
    by (auto simp: Redis_SetNX_def dest: call_eqD)
  have "tables w c k = db w (redis_key pfx c k)"
    using plain_name_no_colon [OF assms(1)] by (simp add: redis_table_def)
  then show ?thesis
    using r(1) setnx_cmd [OF r(2)]
      redis_table_put [OF plain_name_no_colon [OF assms(1)], of pfx "db w" k "wire v"]
    by (cases b) (auto split: if_splits)
qed

lemma Redis_MSetNX_law:
  assumes "plain_name c" and "m \<noteq> fmempty" and "Redis_MSetNX impl c m w = (r, w')"
  shows "rest w' = rest w \<and> (\<exists>b. r = Ret b \<and>
    write_nx_outcome (\<forall>k \<in> fmdom' m. tables w c k = None) b (tables w)
      (tputs c (wires m) (tables w)) (tables w'))"
proof -
  from assms(3) obtain b where r: "r = Ret b"
    "cli_MSetNX R (redis_setValues impl c m w) w = (b, w')"
    by (auto simp: Redis_MSetNX_def dest: call_eqD)
  have "redis_setValues impl c m w \<noteq> fmempty"
    using assms(2) setValues_empty [OF impl_order, where c = c and m = m] by simp
  from msetnx_cmd [OF this r(2)]
  have law: "rest w' = rest w" "write_nx_outcome (\<forall>k \<in> fmdom' m. tables w c k = None) b (db w)
      (db w ++ wires (redis_setValues impl c m w)) (db w')"
    using plain_name_no_colon [OF assms(1)] setValues_dom [OF impl_order, where c = c and m = m]
    by (simp_all add: redis_table_def)
  then show ?thesis
    using r(1) tables_puts [OF assms(1), of "db w" m w] by (cases b) (auto split: if_splits)
qed

lemma Redis_Get_law:
  assumes "plain_name c" and "Redis_Get impl c k w = (r, w')"
  shows "rest w' = rest w \<and> tables w' = tables w \<and>
    (\<exists>x. r = Ret x \<and> (\<forall>b. x = Inr b \<longrightarrow> tables w c k = Some b) \<and>
      (x = Inl ErrNotFound \<longrightarrow> tables w c k = None))"
proof -
  obtain x w1 where x: "cli_Get R (redis_key pfx c k) w = (x, w1)" by force
  with assms(2) have "w' = w1" and
    "r = Ret (case x of Inl err \<Rightarrow> Inl (if err = ErrRedisNil then ErrNotFound else err) | Inr b \<Rightarrow> Inr b)"
    by (auto simp: Redis_Get_def go_bind_call split: sum.splits if_splits)
  then show ?thesis
    using get_cmd [OF x] plain_name_no_colon [OF assms(1)]
    by (auto simp: redis_table_def split: sum.splits if_splits)
qed

lemma Redis_MGet_law:
  assumes "plain_name c" and "Redis_MGet impl c ks w = (r, w')"
  shows "rest w' = rest w \<and> tables w' = tables w \<and>
    (\<exists>x. r = Ret x \<and> (\<forall>m. x = Inr m \<longrightarrow> fmlookup m = tables w c |` set ks))"
proof (cases "ks = []")
  case True
  with assms(2) show ?thesis by (auto simp: Redis_MGet_def restrict_map_def fun_eq_iff)
next
  case False
  obtain x w1 where x: "cli_MGet R (map (redis_key pfx c) ks) w = (x, w1)" by force
  note law = mget_cmd [OF x]
  show ?thesis
  proof (cases x)
    case (Inl err)
    with assms(2) False x law show ?thesis
      by (auto simp: Redis_MGet_def go_bind_call split: if_splits)
  next
    case (Inr vs)
    with law have vs: "vs = map (\<lambda>k. mget_reply (db w (redis_key pfx c k))) ks" by simp
    obtain m where m: "redis_collect ks vs fmempty w1 = (Ret m, w1)"
      "\<forall>k. fmlookup m k = (if k \<in> set ks \<and> db w (redis_key pfx c k) \<noteq> None
         then db w (redis_key pfx c k) else None)"
      using redis_collect_replies [of ks "db w" "redis_key pfx c" fmempty w1, folded vs]
      unfolding fmempty_lookup by blast
    with assms(2) False x Inr have "r = Ret (Inr m)" "w' = w1"
      by (auto simp: Redis_MGet_def go_bind_call go_bind_Ret)
    with law m(2) plain_name_no_colon [OF assms(1)] show ?thesis
      by (auto simp: redis_table_def restrict_map_def fun_eq_iff split: option.splits)
  qed
qed

lemma Redis_Del_law:
  assumes "plain_name c" and "ks \<noteq> []" and "Redis_Del impl c ks w = (r, w')"
  shows "rest w' = rest w \<and> (\<exists>e. r = Ret e \<and>
    write_outcome e (tables w) (tdel c (set ks) (tables w)) (tables w'))"
proof -
  from assms(3) obtain e where r: "r = Ret e" "cli_Del R (map (redis_key pfx c) ks) w = (e, w')"
    by (auto simp: Redis_Del_def Let_def dest: call_eqD)
  from del_cmd [OF _ r(2)] assms(2) show ?thesis
    using r(1) redis_table_del [OF plain_name_no_colon [OF assms(1)], of pfx "db w" "set ks"]
    by (cases e) auto
qed

lemma keys_pattern_literal: "plain_name c \<Longrightarrow> glob_literal (redis_key pfx c [])"
  using pfx_literal by (auto simp: glob_literal_def plain_name_def redis_key_def list_all_iff)

lemma Redis_Keys_law:
  assumes "plain_name c" and "Redis_Keys impl c w = (r, w')"
  shows "rest w' = rest w \<and> tables w' = tables w \<and>
    (\<exists>x. r = Ret x \<and> (\<forall>ks. x = Inr ks \<longrightarrow> set ks = dom (tables w c)))"
proof -
  let ?p = "redis_key pfx c []"
  obtain x w1 where x: "cli_Keys R (?p @ ''*'') w = (x, w1)" by force
  note law = keys_cmd [OF keys_pattern_literal [OF assms(1)] x]
  have pat: "redis_key pfx c ''*'' = ?p @ ''*''" by (simp add: redis_key_def)
  show ?thesis
  proof (cases x)
    case (Inl err)
    with assms(2) x law pat show ?thesis by (auto simp: Redis_Keys_def go_bind_call)
  next
    case (Inr ks)
    with law have ks: "set ks = {k \<in> dom (db w). prefix ?p k}" by simp
    then have "\<forall>k \<in> set ks. length ?p \<le> length k" by (auto intro: prefix_length_le)
    then have trim: "redis_trim (length ?p) ks w1 = (Ret (map (drop (length ?p)) ks), w1)"
      by (rule redis_trim_prefixed)
    have "(\<lambda>k. drop (length ?p) k) ` set ks = dom (tables w c)"
    proof (intro set_eqI iffI)
      fix k assume "k \<in> drop (length ?p) ` set ks"
      then obtain k' where "k' \<in> set ks" "k = drop (length ?p) k'" by blast
      with ks have "k' = redis_key pfx c k" "k' \<in> dom (db w)"
        by (auto simp: prefix_def redis_key_def)
      then show "k \<in> dom (tables w c)"
        using plain_name_no_colon [OF assms(1)] by (auto simp: redis_table_def)
    next
      fix k assume "k \<in> dom (tables w c)"
      then have "redis_key pfx c k \<in> set ks"
        using ks by (auto simp: redis_table_def redis_key_def prefix_def split: if_splits)
      moreover have "k = drop (length ?p) (redis_key pfx c k)" by (simp add: redis_key_def)
      ultimately show "k \<in> drop (length ?p) ` set ks" by blast
    qed
    moreover from assms(2) x Inr pat trim have "r = Ret (Inr (map (drop (length ?p)) ks))" "w' = w1"
      by (auto simp: Redis_Keys_def go_bind_call Let_def go_bind_Ret)
    ultimately show ?thesis using law by simp
  qed
qed

sublocale kv: kv_store "NewRedis ord pfx R" tables rest plain_name
  unfolding NewRedis_def Redis_Store_def
  by (unfold_locales, unfold Store.select_convs)
    (fact Redis_Set_law Redis_MSet_law Redis_SetNX_law Redis_MSetNX_law Redis_Keys_law
      Redis_Get_law Redis_MGet_law Redis_Del_law)+

lemma implements_store: "kv_store (NewRedis ord pfx R) tables rest plain_name"
  by (rule kv.kv_store_axioms)

end

end
