(* ===== verification/Tickets_Laws.thy ===== *)
theory Tickets_Laws
  imports Tickets KV_Laws
begin

text \<open>
  The ticket manager over the contracts of its clients: the locale \<open>tickets_env\<close> puts the
  contracts of the store, of the two messaging clients and of the Go runtime together, over one
  view of the world (the tables \<open>tab\<close>, the message log \<open>log\<close> and the \<open>rest\<close>), and its lemmas
  say what each method of the manager does to that view, on every branch.
\<close>

section \<open>Messages and well-formed tables\<close>

text \<open>The message that announces a ticket on the stream of its queue.\<close>

definition ticket_msg :: "'w runtime \<Rightarrow> StreamTicket \<Rightarrow> string \<times> bytes" where
  "ticket_msg rt st =
    (GetMatchRequestTopic (st_MatchmakingQueue st),
     case rt_marshal_StreamTicket rt st of Inr b \<Rightarrow> b | Inl _ \<Rightarrow> [])"

definition batch_msg :: "'w runtime \<Rightarrow> string \<Rightarrow> StreamTicket list \<Rightarrow> string \<times> bytes" where
  "batch_msg rt queue sts =
    (GetAccumulatedMatchRequestTopic queue,
     case rt_marshal_Accumulated rt \<lparr>ast_StreamTickets = sts\<rparr> of Inr b \<Rightarrow> b | Inl _ \<Rightarrow> [])"

definition assigned_msg :: "string \<Rightarrow> string \<times> bytes" where
  "assigned_msg ticketID = (GetMatchRequestSubject ticketID, ''assigned'')"

text \<open>The stored tickets parse, and each is stored under its own id and has a player.\<close>

definition ticket_at :: "'w runtime \<Rightarrow> table \<Rightarrow> string \<Rightarrow> db_MatchRequest option" where
  "ticket_at rt t k =
    (case t collectionTickets k of
       None \<Rightarrow> None
     | Some b \<Rightarrow> (case rt_unmarshal_MatchRequest rt b of Inl _ \<Rightarrow> None | Inr q \<Rightarrow> Some q))"

definition tickets_wf :: "'w runtime \<Rightarrow> table \<Rightarrow> bool" where
  "tickets_wf rt t \<longleftrightarrow>
    (\<forall>k b. t collectionTickets k = Some b \<longrightarrow>
       (\<exists>q. rt_unmarshal_MatchRequest rt b = Inr q \<and> dbreq_Id q = k \<and> dbreq_Members q \<noteq> []))"

lemma tickets_wfD:
  "tickets_wf rt t \<Longrightarrow> t collectionTickets k = Some b \<Longrightarrow>
    \<exists>q. rt_unmarshal_MatchRequest rt b = Inr q \<and> dbreq_Id q = k \<and> dbreq_Members q \<noteq> []"
  by (auto simp: tickets_wf_def)

lemma ticket_at_Some:
  "ticket_at rt t k = Some q \<longleftrightarrow>
    (\<exists>b. t collectionTickets k = Some b \<and> rt_unmarshal_MatchRequest rt b = Inr q)"
  by (auto simp: ticket_at_def split: option.splits sum.splits)

lemma tickets_wf_at: "tickets_wf rt t \<Longrightarrow> t collectionTickets k \<noteq> None \<Longrightarrow>
    \<exists>q. ticket_at rt t k = Some q \<and> dbreq_Id q = k \<and> dbreq_Members q \<noteq> []"
  by (auto simp: ticket_at_Some dest: tickets_wfD)

lemma collections_distinct [simp]:
  "collectionTickets \<noteq> collectionTicketAssignments"
  "collectionTicketAssignments \<noteq> collectionTickets"
  by (simp_all add: collectionTickets_def collectionTicketAssignments_def)

lemma tickets_wf_cong: "t' collectionTickets = t collectionTickets \<Longrightarrow> tickets_wf rt t' = tickets_wf rt t"
  by (simp add: tickets_wf_def)

lemma unmarshal_requests_Inr:
  "unmarshal_requests rt vs = Inr ts \<longleftrightarrow>
    list_all2 (\<lambda>v t. rt_unmarshal_MatchRequest rt v = Inr t) vs ts"
proof (induction vs arbitrary: ts)
  case Nil
  show ?case by auto
next
  case (Cons v vs)
  show ?case
  proof (cases "unmarshal_requests rt vs")
    case (Inl err)
    then have "\<not> list_all2 (\<lambda>v t. rt_unmarshal_MatchRequest rt v = Inr t) vs us" for us
      by (simp add: Cons.IH [symmetric])
    with Inl show ?thesis by (auto simp: list_all2_Cons1 split: sum.splits)
  next
    case (Inr us)
    then have "list_all2 (\<lambda>v t. rt_unmarshal_MatchRequest rt v = Inr t) vs ts' \<longleftrightarrow> ts' = us" for ts'
      by (auto simp: Cons.IH [symmetric])
    with Inr show ?thesis by (auto simp: list_all2_Cons1 split: sum.splits)
  qed
qed

lemma unmarshal_requests_total:
  assumes "\<forall>v \<in> set vs. \<exists>t. rt_unmarshal_MatchRequest rt v = Inr t"
  shows "\<exists>ts. unmarshal_requests rt vs = Inr ts"
  using assms by (induction vs) (auto split: sum.splits)

lemma ticket_ids_Some: "ticket_ids (map Some ts) w = (Ret (map st_MatchRequestId ts), w)"
  by (induction ts) (simp_all add: go_bind_Ret)

lemma ticket_ids_None: "None \<in> set ts \<Longrightarrow> ticket_ids ts w = (Panic NilDereference, w)"
proof (induction ts)
  case Nil
  then show ?case by simp
next
  case (Cons t ts)
  then show ?case by (cases t) (auto simp: go_bind_Panic)
qed

lemma fold_insert_if:
  "fold (\<lambda>k A. if P k then insert k A else A) ks A0 = A0 \<union> {k \<in> set ks. P k}"
  by (induction ks arbitrary: A0) auto

text \<open>The three families of topics never meet, and each names its queue or ticket.\<close>

lemma topics_inject [simp]:
  "GetMatchRequestTopic q = GetMatchRequestTopic q' \<longleftrightarrow> q = q'"
  "GetAccumulatedMatchRequestTopic q = GetAccumulatedMatchRequestTopic q' \<longleftrightarrow> q = q'"
  "GetMatchRequestSubject q = GetMatchRequestSubject q' \<longleftrightarrow> q = q'"
  by (simp_all add: GetMatchRequestTopic_def GetAccumulatedMatchRequestTopic_def
      GetMatchRequestSubject_def)

lemma topics_disjoint [simp]:
  "GetMatchRequestTopic q \<noteq> GetAccumulatedMatchRequestTopic q'"
  "GetMatchRequestTopic q \<noteq> GetMatchRequestSubject q'"
  "GetAccumulatedMatchRequestTopic q \<noteq> GetMatchRequestSubject q'"
  by (simp_all add: GetMatchRequestTopic_def GetAccumulatedMatchRequestTopic_def
      GetMatchRequestSubject_def topicMatchRequestPrefix_def
      topicAccumulatedMatchRequestPrefix_def subjectTicketUpdatesPrefix_def)

section \<open>The environment of the manager\<close>

locale tickets_env =
  kv_store "tm_kvStore m" tab "\<lambda>w. (log w, rest w)" plain +
  stream_client "tm_streamClient m" log "\<lambda>w. (tab w, rest w)" +
  pubsub_client "tm_pubsubClient m" rt log "\<lambda>w. (tab w, rest w)" +
  go_runtime rt "\<lambda>w. (tab w, log w, rest w)"
  for rt :: "'w runtime" and m :: "'w tickets_manager" and tab :: "'w \<Rightarrow> table"
    and log :: "'w \<Rightarrow> message_log" and rest :: "'w \<Rightarrow> 'r" and plain :: "string \<Rightarrow> bool" +
  assumes plain_tickets [simp]: "plain collectionTickets"
    and plain_assignments [simp]: "plain collectionTicketAssignments"
begin

text \<open>A retried send of a marshalled message: it is in the log exactly once, or not at all.\<close>

lemma retry_send_spec:
  assumes "RetryOp rt ctx
      (case msg of
         Inl err \<Rightarrow> go_return (Some (ErrWrap ''failed to marshal stream ticket'' err))
       | Inr b \<Rightarrow>
           go_bind (SendMessage (tm_streamClient m) t b) (\<lambda>err.
             case err of
               Some e \<Rightarrow> go_return (Some (ErrWrap ''failed to add ticket to stream'' e))
             | None \<Rightarrow> go_return None)) conf w = (r, w')"
      (is "RetryOp rt ctx ?f conf w = _")
  shows "tab w' = tab w \<and> rest w' = rest w \<and>
    (\<exists>e. r = Ret e \<and>
      (case e of
         None \<Rightarrow> (\<exists>b. msg = Inr b \<and> log w' = log w @ [(t, b)])
       | Some _ \<Rightarrow> log w' = log w))"
proof -
  let ?I = "\<lambda>v. tab v = tab w \<and> rest v = rest w \<and> log v = log w"
  have f: "tab v' = tab v \<and> rest v' = rest v \<and> (\<exists>e. q = Ret e \<and>
      (case e of
         None \<Rightarrow> (\<exists>b. msg = Inr b \<and> log v' = log v @ [(t, b)])
       | Some _ \<Rightarrow> log v' = log v))" if "?f v = (q, v')" for v q v'
  proof (cases msg)
    case (Inl err)
    with that show ?thesis by auto
  next
    case (Inr b)
    obtain e v1 where s: "SendMessage (tm_streamClient m) t b v = (Ret e, v1)"
      "(tab v1, rest v1) = (tab v, rest v)" "log v1 = sent e t b (log v)"
      using send_message by (metis prod.exhaust)
    with that Inr show ?thesis by (cases e) (auto simp: go_bind_Ret)
  qed
  have "\<exists>w1. ?I w1 \<and>
    (r = Ret None \<and> ?f w1 = (Ret None, w') \<or>
     (\<exists>e e'. r = Ret (Some e') \<and> ?f w1 = (Ret (Some e), w')) \<or>
     (\<exists>p. r = Panic p \<and> ?f w1 = (Panic p, w')) \<or>
     r = Blocked \<and> ?f w1 = (Blocked, w'))"
    by (rule RetryOp_last [where I = ?I, OF assms]) (auto dest!: f)
  then show ?thesis by (auto dest!: f)
qed

lemma retry_send_ok:
  assumes "fst (SendMessage (tm_streamClient m) t b w) = Ret None"
  shows "\<exists>w'. RetryOp rt ctx
      (case Inr b of
         Inl err \<Rightarrow> go_return (Some (ErrWrap ''failed to marshal stream ticket'' err))
       | Inr b \<Rightarrow>
           go_bind (SendMessage (tm_streamClient m) t b) (\<lambda>err.
             case err of
               Some e \<Rightarrow> go_return (Some (ErrWrap ''failed to add ticket to stream'' e))
             | None \<Rightarrow> go_return None)) conf w = (Ret None, w')"
proof -
  obtain w' where s: "SendMessage (tm_streamClient m) t b w = (Ret None, w')"
    using assms by (metis prod.collapse)
  show ?thesis by (rule exI, rule RetryOp_first) (simp add: go_bind_Ret s)
qed

lemma publishStreamTicket_spec:
  assumes "publishStreamTicket rt m ctx st w = (r, w')"
  shows "tab w' = tab w \<and> rest w' = rest w \<and>
    (\<exists>e. r = Ret e \<and>
      (case e of
         None \<Rightarrow> (\<exists>b. rt_marshal_StreamTicket rt st = Inr b) \<and> log w' = log w @ [ticket_msg rt st]
       | Some _ \<Rightarrow> log w' = log w))"
proof -
  from retry_send_spec [OF assms [unfolded publishStreamTicket_def]] obtain e where
    "tab w' = tab w" "rest w' = rest w" and e: "r = Ret e" and l: "case e of
         None \<Rightarrow> (\<exists>b. rt_marshal_StreamTicket rt st = Inr b \<and> log w' = log w @ [(GetMatchRequestTopic (st_MatchmakingQueue st), b)])
       | Some _ \<Rightarrow> log w' = log w" by blast
  moreover from l have "case e of
         None \<Rightarrow> (\<exists>b. rt_marshal_StreamTicket rt st = Inr b) \<and> log w' = log w @ [ticket_msg rt st]
       | Some _ \<Rightarrow> log w' = log w" by (cases e) (force simp: ticket_msg_def)+
  ultimately show ?thesis by blast
qed

text \<open>A stream that accepts the message is asked once.\<close>

lemma publishStreamTicket_ok:
  assumes "rt_marshal_StreamTicket rt st = Inr b"
    and "fst (SendMessage (tm_streamClient m) (GetMatchRequestTopic (st_MatchmakingQueue st)) b w) =
      Ret None"
  shows "\<exists>w'. publishStreamTicket rt m ctx st w = (Ret None, w')"
  using retry_send_ok [OF assms(2)] by (simp add: publishStreamTicket_def assms(1))

text \<open>The batch of an accumulator, as a message.\<close>

lemma PublishAccumulated_spec:
  assumes "PublishAccumulatedMatchRequests rt m ctx queue sts w = (r, w')"
  shows "tab w' = tab w \<and> rest w' = rest w \<and>
    (\<exists>e. r = Ret e \<and>
      (case e of
         None \<Rightarrow> (\<exists>b. rt_marshal_Accumulated rt \<lparr>ast_StreamTickets = sts\<rparr> = Inr b) \<and>
           log w' = log w @ [batch_msg rt queue sts]
       | Some _ \<Rightarrow> log w' = log w))"
proof -
  from retry_send_spec [OF assms [unfolded PublishAccumulatedMatchRequests_def]] obtain e where
    "tab w' = tab w" "rest w' = rest w" and e: "r = Ret e" and l: "case e of
         None \<Rightarrow> (\<exists>b. rt_marshal_Accumulated rt \<lparr>ast_StreamTickets = sts\<rparr> = Inr b \<and> log w' = log w @ [(GetAccumulatedMatchRequestTopic queue, b)])
       | Some _ \<Rightarrow> log w' = log w" by blast
  moreover from l have "case e of
         None \<Rightarrow> (\<exists>b. rt_marshal_Accumulated rt \<lparr>ast_StreamTickets = sts\<rparr> = Inr b) \<and> log w' = log w @ [batch_msg rt queue sts]
       | Some _ \<Rightarrow> log w' = log w" by (cases e) (force simp: batch_msg_def)+
  ultimately show ?thesis by blast
qed

lemma PublishAccumulated_ok:
  assumes "rt_marshal_Accumulated rt \<lparr>ast_StreamTickets = sts\<rparr> = Inr b"
    and "fst (SendMessage (tm_streamClient m) (GetAccumulatedMatchRequestTopic queue) b w) = Ret None"
  shows "\<exists>w'. PublishAccumulatedMatchRequests rt m ctx queue sts w = (Ret None, w')"
  using retry_send_ok [OF assms(2)] by (simp add: PublishAccumulatedMatchRequests_def assms(1))

lemma GetMatchRequests_spec:
  assumes "GetMatchRequests rt m ids w = (r, w')"
  shows "tab w' = tab w \<and> rest w' = rest w \<and> log w' = log w \<and>
    (\<exists>x. r = Ret x \<and>
      (\<forall>ts. x = Inr ts \<longrightarrow>
        (\<exists>keys. distinct keys \<and> set keys = set ids \<inter> dom (tab w collectionTickets) \<and>
           map Some ts = map (ticket_at rt (tab w)) keys)))"
proof -
  obtain x w1 where g: "Store_MGet (tm_kvStore m) collectionTickets ids w = (Ret x, w1)"
    "(log w1, rest w1) = (log w, rest w)" "tab w1 = tab w"
    "\<forall>mm. x = Inr mm \<longrightarrow> fmlookup mm = tab w collectionTickets |` set ids"
    using kv_mget [OF plain_tickets] by (metis prod.exhaust)
  show ?thesis
  proof (cases x)
    case (Inl err)
    with assms g show ?thesis by (auto simp: GetMatchRequests_def go_bind_Ret)
  next
    case (Inr data)
    let ?keys = "rt_order rt w1 (fmdom' data)"
    have lookup: "fmlookup data = tab w collectionTickets |` set ids" using g(4) Inr by simp
    have keys: "distinct ?keys" "set ?keys = fmdom' data" by simp_all
    have dom: "fmdom' data = set ids \<inter> dom (tab w collectionTickets)"
      using lookup by (auto simp: fmlookup_dom'_iff restrict_map_def split: if_splits)
    have r: "r = Ret (unmarshal_requests rt (map snd (range_map (rt_order rt w1) data)))" "w' = w1"
      using assms g(1) Inr by (auto simp: GetMatchRequests_def go_bind_Ret)
    have "map Some ts = map (ticket_at rt (tab w)) ?keys"
      if u: "unmarshal_requests rt (map snd (range_map (rt_order rt w1) data)) = Inr ts" for ts
    proof -
      from u have l: "list_all2 (\<lambda>k t. rt_unmarshal_MatchRequest rt (the (fmlookup data k)) = Inr t) ?keys ts"
        by (simp add: unmarshal_requests_Inr range_map_def list_all2_map1 comp_def)
      have "list_all2 (\<lambda>x y. x = y) (map (ticket_at rt (tab w)) ?keys) (map Some ts)"
        unfolding list_all2_map1 list_all2_map2
      proof (rule list.rel_mono_strong [OF l])
        fix k t assume "k \<in> set ?keys" "rt_unmarshal_MatchRequest rt (the (fmlookup data k)) = Inr t"
        then show "ticket_at rt (tab w) k = Some t"
          using lookup dom keys(2) by (auto simp: ticket_at_Some restrict_map_def)
      qed
      then show ?thesis by (simp add: list.rel_eq)
    qed
    with r g(2,3) keys dom show ?thesis by (intro conjI exI [of _ "unmarshal_requests rt
        (map snd (range_map (rt_order rt w1) data))"] allI impI exI [of _ ?keys]) simp_all
  qed
qed

text \<open>On well-formed tables every stored request parses: only the store can report an error.\<close>

lemma GetMatchRequests_wf:
  assumes "tickets_wf rt (tab w)"
    and "Store_MGet (tm_kvStore m) collectionTickets ids w = (Ret (Inr data), w1)"
  shows "\<exists>ts. GetMatchRequests rt m ids w = (Ret (Inr ts), w1)"
proof -
  have "fmlookup data = tab w collectionTickets |` set ids"
    using kv_mget [OF plain_tickets assms(2)] by simp
  then have "\<forall>v \<in> set (map snd (range_map (rt_order rt w1) data)).
      \<exists>t. rt_unmarshal_MatchRequest rt v = Inr t"
    using assms(1)
    by (auto simp: set_range_map [OF order] restrict_map_def split: if_splits dest: tickets_wfD)
  then obtain ts where "unmarshal_requests rt (map snd (range_map (rt_order rt w1) data)) = Inr ts"
    using unmarshal_requests_total by blast
  then show ?thesis by (simp add: GetMatchRequests_def go_bind_Ret assms(2))
qed

lemma GetMatchRequest_spec:
  assumes "GetMatchRequest rt m k w = (r, w')"
  shows "tab w' = tab w \<and> rest w' = rest w \<and> log w' = log w \<and>
    (\<exists>x. r = Ret x \<and> (\<forall>q. x = Inr q \<longrightarrow> ticket_at rt (tab w) k = Some q))"
proof -
  obtain x w1 where g: "Store_Get (tm_kvStore m) collectionTickets k w = (Ret x, w1)"
    "(log w1, rest w1) = (log w, rest w)" "tab w1 = tab w"
    "\<forall>b. x = Inr b \<longrightarrow> tab w collectionTickets k = Some b"
    using kv_get [OF plain_tickets] by (metis prod.exhaust)
  with assms show ?thesis
    by (auto simp: GetMatchRequest_def go_bind_Ret ticket_at_Some split: sum.splits)
qed

end

end
