(* ===== verification/Tickets_Methods.thy ===== *)
theory Tickets_Methods
  imports Tickets_Laws
begin

text \<open>
  What the writing methods of the ticket manager do: creation with its rollback, the links
  between tickets and matches, assignments, and the requeueing of tickets. Each method has one
  lemma that covers all its branches, and where it matters one for clients that do not fail.
\<close>

section \<open>Clients that do not fail\<close>

definition store_reliable :: "'w Store \<Rightarrow> bool" where
  "store_reliable S \<longleftrightarrow>
    (\<forall>c k v w. \<exists>w'. Store_Set S c k v 0 w = (Ret None, w')) \<and>
    (\<forall>c k v w. \<exists>b w'. Store_SetNX S c k v 0 w = (Ret (Inr b), w')) \<and>
    (\<forall>c m w. m \<noteq> fmempty \<longrightarrow> (\<exists>b w'. Store_MSetNX S c m w = (Ret (Inr b), w'))) \<and>
    (\<forall>c m w. m \<noteq> fmempty \<longrightarrow> (\<exists>w'. Store_MSet S c m w = (Ret None, w'))) \<and>
    (\<forall>c ks w. \<exists>m w'. Store_MGet S c ks w = (Ret (Inr m), w')) \<and>
    (\<forall>c ks w. ks \<noteq> [] \<longrightarrow> (\<exists>w'. Store_Del S c ks w = (Ret None, w')))"

text \<open>A store whose reads of existing keys do not fail.\<close>

definition reads_reliable :: "'w Store \<Rightarrow> ('w \<Rightarrow> table) \<Rightarrow> bool" where
  "reads_reliable S tab \<longleftrightarrow>
    (\<forall>c k w. tab w c k \<noteq> None \<longrightarrow> (\<exists>b w'. Store_Get S c k w = (Ret (Inr b), w')))"

definition stream_reliable :: "'w runtime \<Rightarrow> 'w stream_Client \<Rightarrow> bool" where
  "stream_reliable rt K \<longleftrightarrow>
    (\<forall>t b w. \<exists>w'. SendMessage K t b w = (Ret None, w')) \<and>
    (\<forall>st. \<exists>b. rt_marshal_StreamTicket rt st = Inr b)"

definition pubsub_reliable :: "'w pubsub_Client \<Rightarrow> bool" where
  "pubsub_reliable P \<longleftrightarrow> (\<forall>ctx t b w. \<exists>w'. pubsub_Publish P ctx t b w = (Ret None, w'))"

section \<open>The documents of an assignment\<close>

definition with_server :: "'w runtime \<Rightarrow> db_GameServer \<Rightarrow> table \<Rightarrow> string \<Rightarrow> bytes option" where
  "with_server rt gs t k =
    (case ticket_at rt t k of
       None \<Rightarrow> None
     | Some q \<Rightarrow> (case rt_marshal_MatchRequest rt (q\<lparr>dbreq_GameServer := Some gs\<rparr>) of
         Inl _ \<Rightarrow> None | Inr b \<Rightarrow> Some b))"

definition assigned_docs :: "'w runtime \<Rightarrow> db_GameServer \<Rightarrow> table \<Rightarrow> string list \<Rightarrow> string \<rightharpoonup> bytes" where
  "assigned_docs rt gs t ks = (\<lambda>k. if k \<in> set ks then with_server rt gs t k else None)"

lemma assignment_data_lookup:
  assumes "assignment_data rt gs mrs data = Inr data'" and "distinct (map dbreq_Id mrs)"
  shows "(\<forall>mr \<in> set mrs. \<exists>b. rt_marshal_MatchRequest rt (mr\<lparr>dbreq_GameServer := Some gs\<rparr>) = Inr b \<and>
      fmlookup data' (dbreq_Id mr) = Some (IBytes b)) \<and>
    (\<forall>k. k \<notin> dbreq_Id ` set mrs \<longrightarrow> fmlookup data' k = fmlookup data k)"
  using assms
proof (induction mrs arbitrary: data)
  case Nil
  then show ?case by simp
next
  case (Cons mr mrs)
  from Cons.prems(1) obtain b where
    b: "rt_marshal_MatchRequest rt (mr\<lparr>dbreq_GameServer := Some gs\<rparr>) = Inr b"
      "assignment_data rt gs mrs (fmupd (dbreq_Id mr) (IBytes b) data) = Inr data'"
    by (auto simp: Let_def split: sum.splits)
  from Cons.IH [OF b(2)] Cons.prems(2) b(1) show ?case by auto
qed

lemma fold_fmupd_const:
  "fmlookup (fold (\<lambda>t acc. fmupd t v acc) ks acc0) k =
    (if k \<in> set ks then Some v else fmlookup acc0 k)"
  by (induction ks arbitrary: acc0) auto

text \<open>The links that a match writes.\<close>

definition links :: "api_Match \<Rightarrow> string \<rightharpoonup> bytes" where
  "links mt = (\<lambda>k. if k \<in> set (match_MatchRequestIds mt) then Some (match_MatchId mt) else None)"

lemma dom_links [simp]: "dom (links mt) = set (match_MatchRequestIds mt)"
  by (auto simp: links_def split: if_splits)

context tickets_env
begin

text \<open>A stored ticket that can be read.\<close>

lemma GetMatchRequest_ok:
  assumes "reads_reliable (tm_kvStore m) tab" and "ticket_at rt (tab w) k = Some q"
  shows "\<exists>w'. GetMatchRequest rt m k w = (Ret (Inr q), w') \<and>
    tab w' = tab w \<and> log w' = log w \<and> rest w' = rest w"
proof -
  from assms(2) obtain b where b: "tab w collectionTickets k = Some b"
    "rt_unmarshal_MatchRequest rt b = Inr q" by (auto simp: ticket_at_Some)
  with assms(1) obtain b' w' where g: "Store_Get (tm_kvStore m) collectionTickets k w = (Ret (Inr b'), w')"
    by (metis option.distinct(1) reads_reliable_def)
  from kv_get [OF plain_tickets g] b have "b' = b" "tab w' = tab w" "log w' = log w" "rest w' = rest w"
    by auto
  with g b(2) show ?thesis by (simp add: GetMatchRequest_def go_bind_Ret)
qed

text \<open>What one call leaves untouched, from the laws of the clients.\<close>

lemma rt_keeps:
  "rt_xid rt w = (i, w1) \<Longrightarrow> tab w1 = tab w \<and> log w1 = log w \<and> rest w1 = rest w"
  using xid_view by blast

lemma CreateMatchRequest_spec:
  assumes "CreateMatchRequest rt m ctx req w = (r, w')"
    and "doc = request_document (rt_order rt w (request_members req)) (rt_now rt w) req"
  shows "rest w' = rest w \<and> (\<exists>e. r = Ret e \<and>
    (case e of
       None \<Rightarrow> req_Id req \<noteq> [] \<and> tab w collectionTickets (req_Id req) = None \<and>
         (\<exists>b. rt_marshal_MatchRequest rt doc = Inr b \<and>
            tab w' = tput collectionTickets (req_Id req) b (tab w)) \<and>
         log w' = log w @ [ticket_msg rt (StreamTicketFromDBRequest doc)]
     | Some _ \<Rightarrow> log w' = log w \<and>
         (tab w' = tab w \<or> req_Id req \<noteq> [] \<and> tab w collectionTickets (req_Id req) = None \<and>
            (\<exists>b. rt_marshal_MatchRequest rt doc = Inr b \<and>
               tab w' = tput collectionTickets (req_Id req) b (tab w)))))"
proof (cases "req_Id req = []")
  case True
  with assms(1) show ?thesis by (auto simp: CreateMatchRequest_def)
next
  case id: False
  show ?thesis
  proof (cases "rt_marshal_MatchRequest rt doc")
    case (Inl err)
    with assms id show ?thesis by (auto simp: CreateMatchRequest_def)
  next
    case doc: (Inr b)
    let ?k = "req_Id req"
    let ?t1 = "tput collectionTickets ?k b (tab w)"
    let ?st = "StreamTicketFromDBRequest doc"
    obtain ok w1 where nx: "Store_SetNX (tm_kvStore m) collectionTickets ?k (IBytes b) 0 w = (Ret ok, w1)"
      "(log w1, rest w1) = (log w, rest w)"
      "write_nx_outcome (tab w collectionTickets ?k = None) ok (tab w) ?t1 (tab w1)"
      using kv_setnx [OF plain_tickets] by (metis prod.exhaust wire.simps(3))
    consider (failed) e where "ok = Inl e" | (taken) "ok = Inr False" | (fresh) "ok = Inr True"
      by (metis (full_types) sum.exhaust)
    then show ?thesis
    proof cases
      case (failed e)
      with assms doc id nx show ?thesis
        by (auto simp: CreateMatchRequest_def go_bind_Ret)
    next
      case taken
      with assms doc id nx show ?thesis
        by (auto simp: CreateMatchRequest_def go_bind_Ret split: if_splits)
    next
      case fresh
      with nx have fr: "tab w collectionTickets ?k = None" "tab w1 = ?t1" by auto
      obtain q w2 where p: "publishStreamTicket rt m ctx ?st w1 = (q, w2)" by force
      from publishStreamTicket_spec [OF p] obtain e where e: "q = Ret e" "tab w2 = tab w1"
        "rest w2 = rest w1"
        "case e of None \<Rightarrow> (\<exists>b. rt_marshal_StreamTicket rt ?st = Inr b) \<and>
             log w2 = log w1 @ [ticket_msg rt ?st] | Some _ \<Rightarrow> log w2 = log w1"
        by blast
      show ?thesis
      proof (cases e)
        case None
        with assms doc id nx fresh fr p e show ?thesis
          by (auto simp: CreateMatchRequest_def go_bind_Ret)
      next
        case (Some err)
        obtain d w3 where del: "Store_Del (tm_kvStore m) collectionTickets [?k] w2 = (Ret d, w3)"
          "(log w3, rest w3) = (log w2, rest w2)"
          "write_outcome d (tab w2) (tdel collectionTickets {?k} (tab w2)) (tab w3)"
          using kv_del [OF plain_tickets, of "[?k]"] by (metis prod.exhaust list.distinct(1) list.set)
        have "tab w3 = tab w \<or> tab w3 = ?t1"
          using del(3) e(2) fr tdel_tput_fresh [where t = "tab w"] by (cases d) auto
        with assms doc id nx fresh fr p e del Some show ?thesis
          by (auto simp: CreateMatchRequest_def go_bind_Ret)
      qed
    qed
  qed
qed

text \<open>What a successful creation announces is the encoding of the ticket.\<close>

lemma CreateMatchRequest_marshals:
  assumes "CreateMatchRequest rt m ctx req w = (Ret None, w')"
    and "doc = request_document (rt_order rt w (request_members req)) (rt_now rt w) req"
  shows "\<exists>b. rt_marshal_StreamTicket rt (StreamTicketFromDBRequest doc) = Inr b"
proof -
  from CreateMatchRequest_spec [OF assms] obtain b where "req_Id req \<noteq> []" and
    b: "rt_marshal_MatchRequest rt doc = Inr b" by auto
  with assms obtain w1 where "Store_SetNX (tm_kvStore m) collectionTickets (req_Id req) (IBytes b) 0 w =
      (Ret (Inr True), w1)" and
    p: "go_bind (publishStreamTicket rt m ctx (StreamTicketFromDBRequest doc)) (\<lambda>err.
          if err \<noteq> None then go_bind (Store_Del (tm_kvStore m) collectionTickets [req_Id req]) (\<lambda>_. go_return err)
          else go_return None) w1 = (Ret None, w')"
    by (auto simp: CreateMatchRequest_def elim!: go_bind_cases split: sum.splits if_splits)
  from p obtain w2 where "publishStreamTicket rt m ctx (StreamTicketFromDBRequest doc) w1 = (Ret None, w2)"
    by (auto elim!: go_bind_cases split: if_splits)
  from publishStreamTicket_spec [OF this] show ?thesis by auto
qed

text \<open>With a store that does not fail, creation is atomic: an error leaves nothing behind.\<close>

lemma CreateMatchRequest_atomic:
  assumes "store_reliable (tm_kvStore m)"
    and "CreateMatchRequest rt m ctx req w = (Ret (Some e), w')"
  shows "tab w' = tab w \<and> log w' = log w"
proof -
  let ?doc = "request_document (rt_order rt w (request_members req)) (rt_now rt w) req"
  have log: "log w' = log w" using CreateMatchRequest_spec [OF assms(2) refl] by simp
  show ?thesis
  proof (cases "req_Id req = [] \<or> (\<exists>err. rt_marshal_MatchRequest rt ?doc = Inl err)")
    case True
    with assms(2) have "w' = w" by (auto simp: CreateMatchRequest_def Let_def split: if_splits)
    then show ?thesis by simp
  next
    case False
    let ?k = "req_Id req"
    from False obtain b where doc: "?k \<noteq> []" "rt_marshal_MatchRequest rt ?doc = Inr b"
      by (metis sum.exhaust)
    obtain fresh w1 where nx:
      "Store_SetNX (tm_kvStore m) collectionTickets ?k (IBytes b) 0 w = (Ret (Inr fresh), w1)"
      using assms(1) by (metis store_reliable_def)
    note law = kv_setnx [OF plain_tickets nx]
    show ?thesis
    proof (cases fresh)
      case False
      with law assms(2) nx doc log show ?thesis
        by (auto simp: CreateMatchRequest_def go_bind_Ret split: if_splits)
    next
      case True
      with law have fr: "tab w collectionTickets ?k = None"
        "tab w1 = tput collectionTickets ?k b (tab w)" by auto
      obtain q w2 where p: "publishStreamTicket rt m ctx (StreamTicketFromDBRequest ?doc) w1 = (q, w2)"
        by force
      from publishStreamTicket_spec [OF p] obtain pe where e: "q = Ret pe" "tab w2 = tab w1" by blast
      with assms(2) True nx doc p have "pe \<noteq> None"
        by (cases pe) (auto simp: CreateMatchRequest_def go_bind_Ret)
      moreover obtain w3 where del: "Store_Del (tm_kvStore m) collectionTickets [?k] w2 = (Ret None, w3)"
        using assms(1) by (metis store_reliable_def list.distinct(1))
      ultimately have "w' = w3" using assms(2) True nx doc p e
        by (auto simp: CreateMatchRequest_def go_bind_Ret)
      with kv_del [OF plain_tickets _ del] e fr tdel_tput_fresh [where t = "tab w"] log show ?thesis by simp
    qed
  qed
qed

text \<open>With clients that do not fail, the answer is determined by the id.\<close>

lemma CreateMatchRequest_result:
  assumes "store_reliable (tm_kvStore m)" and "stream_reliable rt (tm_streamClient m)"
    and "\<forall>q. \<exists>b. rt_marshal_MatchRequest rt q = Inr b"
  shows "\<exists>w'. CreateMatchRequest rt m ctx req w =
    (Ret (if req_Id req = [] then Some ErrMissingID
       else if tab w collectionTickets (req_Id req) \<noteq> None then Some ErrDuplicateTicketID
       else None), w')"
proof (cases "req_Id req = []")
  case True
  then show ?thesis by (simp add: CreateMatchRequest_def)
next
  case False
  let ?k = "req_Id req"
  let ?doc = "request_document (rt_order rt w (request_members req)) (rt_now rt w) req"
  obtain b where doc: "rt_marshal_MatchRequest rt ?doc = Inr b" using assms(3) by blast
  obtain fresh w1 where nx:
    "Store_SetNX (tm_kvStore m) collectionTickets ?k (IBytes b) 0 w = (Ret (Inr fresh), w1)"
    using assms(1) by (metis store_reliable_def)
  note law = kv_setnx [OF plain_tickets nx]
  show ?thesis
  proof (cases fresh)
    case False
    with \<open>?k \<noteq> []\<close> law nx doc show ?thesis by (auto simp: CreateMatchRequest_def go_bind_Ret)
  next
    case True
    obtain sb where sb: "rt_marshal_StreamTicket rt (StreamTicketFromDBRequest ?doc) = Inr sb"
      using assms(2) by (metis stream_reliable_def)
    then obtain w2 where "publishStreamTicket rt m ctx (StreamTicketFromDBRequest ?doc) w1 = (Ret None, w2)"
      using publishStreamTicket_ok [OF sb, of w1 ctx] assms(2) by (metis fst_conv stream_reliable_def)
    with True False law nx doc show ?thesis by (auto simp: CreateMatchRequest_def go_bind_Ret)
  qed
qed

lemma DeleteMatchRequest_spec:
  assumes "DeleteMatchRequest m k w = (r, w')"
  shows "rest w' = rest w \<and> log w' = log w \<and> (\<exists>e. r = Ret e \<and>
    write_outcome e (tab w) (tdel collectionTickets {k} (tab w)) (tab w'))"
  using kv_del [OF plain_tickets _ assms [unfolded DeleteMatchRequest_def]] by simp

lemma AssignMatchRequestsToMatch_spec:
  assumes "AssignMatchRequestsToMatch m (Some mt) w = (r, w')"
  shows "rest w' = rest w \<and> log w' = log w \<and> (\<exists>ok. r = Ret ok \<and>
    (if match_MatchRequestIds mt = [] then ok = Inr True \<and> tab w' = tab w
     else write_nx_outcome
       (\<forall>k \<in> set (match_MatchRequestIds mt). tab w collectionTicketAssignments k = None) ok (tab w)
       (tputs collectionTicketAssignments (links mt) (tab w)) (tab w')))"
proof (cases "match_MatchRequestIds mt = []")
  case True
  with assms show ?thesis by (auto simp: AssignMatchRequestsToMatch_def)
next
  case False
  let ?al = "fold (\<lambda>t al. fmupd t (IString (match_MatchId mt)) al) (match_MatchRequestIds mt) fmempty"
  have al: "fmlookup ?al k = (if k \<in> set (match_MatchRequestIds mt)
      then Some (IString (match_MatchId mt)) else None)" for k
    by (simp add: fold_fmupd_const)
  have dom: "fmdom' ?al = set (match_MatchRequestIds mt)"
    by (auto simp: fmlookup_dom'_iff al split: if_splits)
  have wires: "wires ?al = links mt" by (auto simp: wires_def links_def al)
  have "?al \<noteq> fmempty" using False dom by (metis fmdom'_empty set_empty)
  moreover from assms False have "Store_MSetNX (tm_kvStore m) collectionTicketAssignments ?al w = (r, w')"
    by (simp add: AssignMatchRequestsToMatch_def)
  ultimately show ?thesis
    using kv_msetnx [OF plain_assignments, of ?al w r w'] False unfolding dom wires by auto
qed

lemma ReleaseMatchRequestsFromMatch_spec:
  assumes "ReleaseMatchRequestsFromMatch m (Some mt) w = (r, w')"
  shows "rest w' = rest w \<and> log w' = log w \<and> (\<exists>e. r = Ret e \<and>
    (if match_MatchRequestIds mt = [] then e = None \<and> tab w' = tab w
     else write_outcome e (tab w)
       (tdel collectionTicketAssignments (set (match_MatchRequestIds mt)) (tab w)) (tab w')))"
proof (cases "match_MatchRequestIds mt = []")
  case True
  with assms show ?thesis by (auto simp: ReleaseMatchRequestsFromMatch_def)
next
  case False
  with assms kv_del [OF plain_assignments False] show ?thesis
    by (auto simp: ReleaseMatchRequestsFromMatch_def)
qed

lemma publish_assigned_spec:
  assumes "publish_assigned rt m ctx k w = (r, w')"
  shows "r = Ret () \<and> (tab w' = tab w \<and> rest w' = rest w) \<and>
    (log w' = log w \<or> log w' = log w @ [assigned_msg k])"
proof -
  let ?f = "pubsub_Publish (tm_pubsubClient m) ctx (GetMatchRequestSubject k) ''assigned''"
  let ?I = "\<lambda>v. tab v = tab w \<and> rest v = rest w \<and> log v = log w"
  have f: "tab v' = tab v \<and> rest v' = rest v \<and> (\<exists>e. q = Ret e \<and>
      log v' = sent e (GetMatchRequestSubject k) ''assigned'' (log v))" if "?f v = (q, v')" for v q v'
    using publish [OF that] by simp
  obtain q where q: "RetryOp rt ctx ?f [Exponential] w = (q, w')" "r = (case q of Ret _ \<Rightarrow> Ret ()
      | Panic p \<Rightarrow> Panic p | Blocked \<Rightarrow> Blocked)"
    using assms by (cases "RetryOp rt ctx ?f [Exponential] w")
      (auto simp: publish_assigned_def go_bind_def split: go.splits)
  have "\<exists>w1. ?I w1 \<and>
    (q = Ret None \<and> ?f w1 = (Ret None, w') \<or>
     (\<exists>e e'. q = Ret (Some e') \<and> ?f w1 = (Ret (Some e), w')) \<or>
     (\<exists>p. q = Panic p \<and> ?f w1 = (Panic p, w')) \<or>
     q = Blocked \<and> ?f w1 = (Blocked, w'))"
    by (rule RetryOp_last [where I = ?I, OF q(1)]) (auto dest!: f)
  with q(2) show ?thesis by (auto simp: assigned_msg_def dest!: f)
qed

lemma publish_assigned_ok:
  assumes "pubsub_reliable (tm_pubsubClient m)"
  shows "\<exists>w'. publish_assigned rt m ctx k w = (Ret (), w') \<and> (tab w' = tab w \<and> rest w' = rest w) \<and>
    log w' = log w @ [assigned_msg k]"
proof -
  obtain w' where p: "pubsub_Publish (tm_pubsubClient m) ctx (GetMatchRequestSubject k) ''assigned'' w =
      (Ret None, w')"
    using assms by (metis pubsub_reliable_def)
  from publish [OF p] have "tab w' = tab w \<and> rest w' = rest w" "log w' = log w @ [assigned_msg k]"
    by (auto simp: assigned_msg_def)
  then show ?thesis
    using RetryOp_first [where f = "pubsub_Publish (tm_pubsubClient m) ctx
      (GetMatchRequestSubject k) ''assigned''", OF p]
    by (simp add: publish_assigned_def go_bind_Ret)
qed

text \<open>
  The assignment of a match reaches exactly the stored tickets of the match. An error leaves the
  log as it was; the announcements of a success are for tickets of the match, at most one each.
\<close>

lemma assignment_data_wires:
  assumes wf: "tickets_wf rt (tab w)"
    and keys: "distinct keys" "set keys = set ids \<inter> dom (tab w collectionTickets)"
    and ts: "map Some ts = map (ticket_at rt (tab w)) keys"
    and data: "assignment_data rt gs ts fmempty = Inr data"
  shows "wires data = assigned_docs rt gs (tab w) ids" and "fmdom' data = set keys"
proof -
  have at: "list_all2 (\<lambda>t k. ticket_at rt (tab w) k = Some t) ts keys"
  proof -
    have "list_all2 (=) (map Some ts) (map (ticket_at rt (tab w)) keys)"
      using ts by (simp add: list.rel_eq)
    then show ?thesis unfolding list_all2_map1 list_all2_map2
      by (rule list.rel_mono_strong) simp
  qed
  have id: "dbreq_Id t = k" if "ticket_at rt (tab w) k = Some t" for t k
    using that tickets_wfD [OF wf] by (force simp: ticket_at_Some)
  have ids: "map dbreq_Id ts = keys"
  proof -
    have "list_all2 (=) (map dbreq_Id ts) keys" unfolding list_all2_map1
      by (rule list.rel_mono_strong [OF at]) (rule id)
    then show ?thesis by (simp add: list.rel_eq)
  qed
  note look = assignment_data_lookup [OF data, unfolded ids, OF keys(1)]
  have out: "fmlookup data k = None" if "k \<notin> set keys" for k
    using look that ids by (metis fmempty_lookup list.set_map)
  have inn: "\<exists>b. with_server rt gs (tab w) k = Some b \<and> fmlookup data k = Some (IBytes b)"
    if k: "k \<in> set keys" for k
  proof -
    from k ids obtain t where t: "t \<in> set ts" "k = dbreq_Id t" by (metis imageE list.set_map)
    from t(1) have "Some t \<in> set (map (ticket_at rt (tab w)) keys)" unfolding ts [symmetric] by simp
    then obtain k' where "k' \<in> set keys" "ticket_at rt (tab w) k' = Some t" by auto
    with id t(2) have "ticket_at rt (tab w) k = Some t" by blast
    with look t show ?thesis by (auto simp: with_server_def)
  qed
  show "wires data = assigned_docs rt gs (tab w) ids"
  proof (rule ext)
    fix k
    show "wires data k = assigned_docs rt gs (tab w) ids k"
    proof (cases "k \<in> set keys")
      case True
      with inn [OF True] keys(2) show ?thesis by (auto simp: wires_def assigned_docs_def)
    next
      case False
      with keys(2) out show ?thesis
        by (auto simp: wires_def assigned_docs_def with_server_def ticket_at_def split: option.splits)
    qed
  qed
  show "fmdom' data = set keys"
    using inn out by (fastforce simp: fmlookup_dom'_iff)
qed

lemma AddAssignment_spec:
  assumes wf: "tickets_wf rt (tab w)"
    and run: "AddAssignmentToMatchRequests rt m ctx (Some gsv) (Some mt) w = (r, w')"
  shows "rest w' = rest w \<and> (\<exists>e. r = Ret e \<and>
    (let t1 = tputs collectionTickets
         (assigned_docs rt (db_GameServer_of gsv) (tab w) (match_MatchRequestIds mt)) (tab w) in
     case e of
       None \<Rightarrow>
         (if match_MatchRequestIds mt = [] then tab w' = tab w
          else tab w' = t1 \<and>
            set (match_MatchRequestIds mt) \<inter> dom (tab w collectionTickets) \<noteq> {}) \<and>
         (\<exists>ks. mset ks \<subseteq># mset (match_MatchRequestIds mt) \<and>
            log w' = log w @ map assigned_msg ks)
     | Some _ \<Rightarrow> log w' = log w \<and> (tab w' = tab w \<or> tab w' = t1)))"
proof (cases "match_MatchRequestIds mt = []")
  case True
  with run show ?thesis by (auto simp: AddAssignmentToMatchRequests_def Let_def)
next
  case False
  let ?ids = "match_MatchRequestIds mt"
  let ?gs = "db_GameServer_of gsv"
  let ?t1 = "tputs collectionTickets (assigned_docs rt ?gs (tab w) ?ids) (tab w)"
  obtain q w1 where g: "GetMatchRequests rt m ?ids w = (q, w1)" by force
  from GetMatchRequests_spec [OF g] obtain x where x: "q = Ret x"
    "tab w1 = tab w" "rest w1 = rest w" "log w1 = log w"
    "\<forall>ts. x = Inr ts \<longrightarrow> (\<exists>keys. distinct keys \<and>
       set keys = set ?ids \<inter> dom (tab w collectionTickets) \<and>
       map Some ts = map (ticket_at rt (tab w)) keys)"
    by blast
  show ?thesis
  proof (cases x)
    case (Inl err)
    with run False g x show ?thesis
      by (auto simp: AddAssignmentToMatchRequests_def go_bind_Ret Let_def)
  next
    case (Inr ts)
    with x(5) obtain keys where keys: "distinct keys"
      "set keys = set ?ids \<inter> dom (tab w collectionTickets)"
      "map Some ts = map (ticket_at rt (tab w)) keys" by blast
    show ?thesis
    proof (cases "assignment_data rt ?gs ts fmempty")
      case (Inl err)
      with run False g x \<open>x = Inr ts\<close> show ?thesis
        by (auto simp: AddAssignmentToMatchRequests_def go_bind_Ret Let_def)
    next
      case data: (Inr data)
      note w = assignment_data_wires [OF wf keys data]
      obtain e w2 where s: "Store_MSet (tm_kvStore m) collectionTickets data w1 = (Ret e, w2)"
        "(log w2, rest w2) = (log w1, rest w1)"
        "if data = fmempty then e \<noteq> None \<and> tab w2 = tab w1
         else write_outcome e (tab w1) (tputs collectionTickets (wires data) (tab w1)) (tab w2)"
        using kv_mset [OF plain_tickets] by (metis prod.exhaust)
      show ?thesis
      proof (cases e)
        case (Some err)
        with run False g x \<open>x = Inr ts\<close> data s w(1) show ?thesis
          by (auto simp: AddAssignmentToMatchRequests_def go_bind_Ret Let_def split: if_splits)
      next
        case None
        let ?sch = "rt_schedule rt w2 ?ids"
        obtain q3 w3 where p: "for_each (publish_assigned rt m ctx) ?sch w2 = (q3, w3)" by force
        have "q3 = Ret () \<and> (tab w3 = tab w2 \<and> rest w3 = rest w2) \<and>
            (\<exists>ys. subseq ys ?sch \<and> log w3 = log w2 @ map assigned_msg ys)"
          by (rule for_each_log [where I = "\<lambda>v. tab v = tab w2 \<and> rest v = rest w2"
                and f = "publish_assigned rt m ctx" and xs = ?sch, OF _ _ p])
            (use publish_assigned_spec in metis, simp)
        then obtain ys where ys: "q3 = Ret ()" "tab w3 = tab w2" "rest w3 = rest w2"
            "subseq ys ?sch" "log w3 = log w2 @ map assigned_msg ys" by blast
        from ys(4) have "mset ys \<subseteq># mset ?ids"
          using schedule [of w2 ?ids] by (metis subseq_mset)
        moreover from None s(3) have "data \<noteq> fmempty" by auto
        then have "set keys \<noteq> {}" using w(2) fmdom'_nonempty by metis
        moreover from run False g x \<open>x = Inr ts\<close> data s None p ys(1) have "r = Ret None" "w' = w3"
          by (auto simp: AddAssignmentToMatchRequests_def go_bind_Ret Let_def)
        ultimately show ?thesis using False x s ys w(1) None keys(2) \<open>data \<noteq> fmempty\<close>
          by (auto simp: Let_def)
      qed
    qed
  qed
qed

lemma AddAssignment_ok:
  assumes wf: "tickets_wf rt (tab w)" and store: "store_reliable (tm_kvStore m)"
    and pubsub: "pubsub_reliable (tm_pubsubClient m)"
    and some: "set (match_MatchRequestIds mt) \<inter> dom (tab w collectionTickets) \<noteq> {}"
    and marshal: "\<forall>q. \<exists>b. rt_marshal_MatchRequest rt q = Inr b"
  shows "\<exists>w'. AddAssignmentToMatchRequests rt m ctx (Some gsv) (Some mt) w = (Ret None, w') \<and>
    tab w' = tputs collectionTickets
      (assigned_docs rt (db_GameServer_of gsv) (tab w) (match_MatchRequestIds mt)) (tab w) \<and>
    (\<exists>ks. mset ks = mset (match_MatchRequestIds mt) \<and> log w' = log w @ map assigned_msg ks)"
proof -
  let ?ids = "match_MatchRequestIds mt"
  let ?gs = "db_GameServer_of gsv"
  from some have ne: "?ids \<noteq> []" by auto
  obtain d w1 where mg: "Store_MGet (tm_kvStore m) collectionTickets ?ids w = (Ret (Inr d), w1)"
    using store by (metis store_reliable_def)
  from GetMatchRequests_wf [OF wf mg] obtain ts where
    g: "GetMatchRequests rt m ?ids w = (Ret (Inr ts), w1)" by blast
  from GetMatchRequests_spec [OF g] obtain keys where
    k: "tab w1 = tab w" "log w1 = log w" "distinct keys"
      "set keys = set ?ids \<inter> dom (tab w collectionTickets)"
      "map Some ts = map (ticket_at rt (tab w)) keys" by auto
  have "\<exists>data'. assignment_data rt ?gs ts data = Inr data'" for data
  proof (induction ts arbitrary: data)
    case Nil
    show ?case by simp
  next
    case (Cons q ts)
    from marshal obtain b where "rt_marshal_MatchRequest rt (q\<lparr>dbreq_GameServer := Some ?gs\<rparr>) = Inr b"
      by blast
    with Cons.IH show ?case by (simp add: Let_def)
  qed
  then obtain data where data: "assignment_data rt ?gs ts fmempty = Inr data" by blast
  note w = assignment_data_wires [OF wf k(3-5) data]
  from w(2) k(4) some have "data \<noteq> fmempty" by auto
  with store obtain w2 where s: "Store_MSet (tm_kvStore m) collectionTickets data w1 = (Ret None, w2)"
    by (metis store_reliable_def)
  from kv_mset [OF plain_tickets s] \<open>data \<noteq> fmempty\<close> have
    t: "tab w2 = tputs collectionTickets (wires data) (tab w1)" "log w2 = log w1" by auto
  let ?sch = "rt_schedule rt w2 ?ids"
  have "\<exists>w3. for_each (publish_assigned rt m ctx) ?sch w2 = (Ret (), w3) \<and>
      (tab w3 = tab w2) \<and> log w3 = log w2 @ concat (map (\<lambda>k. [assigned_msg k]) ?sch)"
    by (rule for_each_log_all) (use publish_assigned_ok [OF pubsub] in metis, simp)
  then obtain w3 where p: "for_each (publish_assigned rt m ctx) ?sch w2 = (Ret (), w3)"
      "tab w3 = tab w2" "log w3 = log w2 @ map assigned_msg ?sch" by auto
  have "AddAssignmentToMatchRequests rt m ctx (Some gsv) (Some mt) w = (Ret None, w3)"
    using ne g data s p(1) by (simp add: AddAssignmentToMatchRequests_def go_bind_Ret Let_def)
  moreover have "mset ?sch = mset ?ids" by (rule schedule)
  ultimately show ?thesis using p(2,3) t k(1,2) w(1) by auto
qed

text \<open>A missing game server is only noticed after the tickets have been read.\<close>

lemma AddAssignment_nil:
  assumes "match_MatchRequestIds mt \<noteq> []"
    and "GetMatchRequests rt m (match_MatchRequestIds mt) w = (Ret (Inr ts), w1)"
  shows "AddAssignmentToMatchRequests rt m ctx None (Some mt) w = (Panic NilDereference, w1)"
  using assms by (simp add: AddAssignmentToMatchRequests_def go_bind_Ret)

end

end
