(* ===== verification/Tickets_Requeue.thy ===== *)
theory Tickets_Requeue
  imports Tickets_Methods
begin

text \<open>
  Requeueing, the successful assignment, and the reachable states of the store: the calls of the
  manager as a step relation (\<open>ticket_call\<close>), with two invariants of any sequence of calls: every
  stored document parses under its own id, and the link of a ticket to a match only changes in a
  release.
\<close>

section \<open>The parts of a requeue\<close>

text \<open>The tickets without a link to a match, the loop that sends the tickets whose id is in a set, and the
  read of the links that is retried.\<close>

definition unallocated :: "table \<Rightarrow> StreamTicket list \<Rightarrow> StreamTicket list" where
  "unallocated t = filter (\<lambda>st. t collectionTicketAssignments (st_MatchRequestId st) = None)"

definition resend ::
  "'w runtime \<Rightarrow> 'w tickets_manager \<Rightarrow> ctx \<Rightarrow> string set \<Rightarrow> StreamTicket option list \<Rightarrow>
    ('w, unit) proc" where
  "resend rt m ctx A = for_each (\<lambda>t. go_bind (deref t) (\<lambda>st.
     if st_MatchRequestId st \<in> A
     then go_bind (publishStreamTicket rt m ctx st) (\<lambda>_. go_return ())
     else go_return ()))"

definition read_links ::
  "'w tickets_manager \<Rightarrow> string list \<Rightarrow> ('w \<times> frame, error option) proc" where
  "read_links m ids = (\<lambda>(w, fr). case Store_MGet (tm_kvStore m) collectionTicketAssignments ids w of
              (Ret (Inl err), w') \<Rightarrow> (Ret (Some err), (w', fr\<lparr>fr_allocations := fmempty\<rparr>))
            | (Ret (Inr allocations), w') \<Rightarrow> (Ret None, (w', fr\<lparr>fr_allocations := allocations\<rparr>))
            | (Panic p, w') \<Rightarrow> (Panic p, (w', fr))
            | (Blocked, w') \<Rightarrow> (Blocked, (w', fr)))"

context tickets_env
begin

section \<open>Requeueing\<close>

lemma RequeueMatchRequests_nil:
  "None \<in> set ts \<Longrightarrow> RequeueMatchRequests rt m ctx ts w = (Panic NilDereference, w)"
  by (simp add: RequeueMatchRequests_def go_bind_def ticket_ids_None)

lemma resend_spec:
  assumes "resend rt m ctx A (map Some ts) w = (r, w')"
  shows "r = Ret () \<and> tab w' = tab w \<and> rest w' = rest w \<and>
    (\<exists>ys. subseq ys (filter (\<lambda>st. st_MatchRequestId st \<in> A) ts) \<and>
      log w' = log w @ map (ticket_msg rt) ys)"
  using assms
proof (induction ts arbitrary: w)
  case Nil
  then show ?case by (auto simp: resend_def)
next
  case (Cons t ts)
  show ?case
  proof (cases "st_MatchRequestId t \<in> A")
    case False
    with Cons.prems have "resend rt m ctx A (map Some ts) w = (r, w')" by (simp add: resend_def go_bind_def)
    from Cons.IH [OF this] False show ?thesis by simp
  next
    case True
    obtain q w1 where p: "publishStreamTicket rt m ctx t w = (q, w1)" by force
    from publishStreamTicket_spec [OF p] obtain e where e: "q = Ret e" "tab w1 = tab w"
      "rest w1 = rest w" "log w1 = log w \<or> log w1 = log w @ [ticket_msg rt t]"
      by (force split: option.splits)
    with Cons.prems p True have "resend rt m ctx A (map Some ts) w1 = (r, w')" by (simp add: resend_def go_bind_def)
    from Cons.IH [OF this] obtain ys where ys: "r = Ret ()" "tab w' = tab w1" "rest w' = rest w1"
      "subseq ys (filter (\<lambda>st. st_MatchRequestId st \<in> A) ts)"
      "log w' = log w1 @ map (ticket_msg rt) ys" by blast
    from e(4) show ?thesis
    proof
      assume "log w1 = log w"
      with ys e True show ?thesis by auto
    next
      assume "log w1 = log w @ [ticket_msg rt t]"
      with ys e True show ?thesis by (intro conjI exI [of _ "t # ys"]) auto
    qed
  qed
qed

lemma resend_ok:
  assumes "stream_reliable rt (tm_streamClient m)"
  shows "\<exists>w'. resend rt m ctx A (map Some ts) w = (Ret (), w') \<and> tab w' = tab w \<and>
    log w' = log w @ map (ticket_msg rt) (filter (\<lambda>st. st_MatchRequestId st \<in> A) ts)"
proof (induction ts arbitrary: w)
  case Nil
  show ?case by (simp add: resend_def)
next
  case (Cons t ts)
  show ?case
  proof (cases "st_MatchRequestId t \<in> A")
    case False
    with Cons.IH [of w] show ?thesis by (simp add: resend_def go_bind_def)
  next
    case True
    obtain b where b: "rt_marshal_StreamTicket rt t = Inr b"
      using assms by (metis stream_reliable_def)
    then obtain w1 where p: "publishStreamTicket rt m ctx t w = (Ret None, w1)"
      using publishStreamTicket_ok [OF b, of w ctx] assms by (metis fst_conv stream_reliable_def)
    from publishStreamTicket_spec [OF p] have "tab w1 = tab w" "log w1 = log w @ [ticket_msg rt t]"
      by auto
    with Cons.IH [of w1] p True show ?thesis by (auto simp: resend_def go_bind_def)
  qed
qed

lemma read_links_spec:
  assumes "read_links m ids (w, fr) = (r, (w', fr'))"
  shows "tab w' = tab w \<and> log w' = log w \<and> rest w' = rest w \<and> (\<exists>e. r = Ret e \<and>
    (e = None \<longrightarrow> fmlookup (fr_allocations fr') = tab w collectionTicketAssignments |` set ids))"
proof -
  obtain x w1 where g: "Store_MGet (tm_kvStore m) collectionTicketAssignments ids w = (Ret x, w1)"
    "(log w1, rest w1) = (log w, rest w)" "tab w1 = tab w"
    "\<forall>mm. x = Inr mm \<longrightarrow> fmlookup mm = tab w collectionTicketAssignments |` set ids"
    using kv_mget [OF plain_assignments] by (metis prod.exhaust)
  have "read_links m ids (w, fr) =
    (case x of Inl err \<Rightarrow> (Ret (Some err), (w1, fr\<lparr>fr_allocations := fmempty\<rparr>))
     | Inr al \<Rightarrow> (Ret None, (w1, fr\<lparr>fr_allocations := al\<rparr>)))"
    by (simp add: read_links_def g(1) split: sum.split)
  with assms have "w' = w1 \<and> r = Ret (case x of Inl err \<Rightarrow> Some err | Inr al \<Rightarrow> None) \<and>
      (\<forall>al. x = Inr al \<longrightarrow> fr_allocations fr' = al)"
    by (cases x) (simp_all, metis frame.select_convs(1) frame.surjective frame.update_convs(1))
  with g(2-4) show ?thesis by (cases x) simp_all
qed

lemma RetryCapture_read_links:
  assumes "RetryCapture rt ctx (read_links m ids) config w = (r, w')"
  shows "tab w' = tab w \<and> log w' = log w \<and> rest w' = rest w \<and> (\<exists>e fr. r = Ret (e, fr) \<and>
    (e = None \<longrightarrow> fmlookup (fr_allocations fr) = tab w collectionTicketAssignments |` set ids))"
proof -
  let ?I = "\<lambda>v fr. tab v = tab w \<and> log v = log w \<and> rest v = rest w"
  have "\<exists>w1 fr1 fr. ?I w1 fr1 \<and>
    (r = Ret (None, fr) \<and> read_links m ids (w1, fr1) = (Ret None, (w', fr)) \<or>
     (\<exists>e e'. r = Ret (Some e', fr) \<and> read_links m ids (w1, fr1) = (Ret (Some e), (w', fr))) \<or>
     (\<exists>p. r = Panic p \<and> read_links m ids (w1, fr1) = (Panic p, (w', fr))) \<or>
     r = Blocked \<and> read_links m ids (w1, fr1) = (Blocked, (w', fr)))"
    by (rule RetryCapture_last [where I = ?I, OF assms]) (auto dest!: read_links_spec)
  then obtain w1 fr1 fr where I: "?I w1 fr1" and
    c: "r = Ret (None, fr) \<and> read_links m ids (w1, fr1) = (Ret None, (w', fr)) \<or>
     (\<exists>e e'. r = Ret (Some e', fr) \<and> read_links m ids (w1, fr1) = (Ret (Some e), (w', fr))) \<or>
     (\<exists>p. r = Panic p \<and> read_links m ids (w1, fr1) = (Panic p, (w', fr))) \<or>
     r = Blocked \<and> read_links m ids (w1, fr1) = (Blocked, (w', fr))"
    by blast
  from c I show ?thesis by (elim disjE conjE exE) (drule read_links_spec, simp)+
qed

lemma requeue_body:
  "RequeueMatchRequests rt m ctx (map Some ts) w =
    go_bind (RetryCapture rt ctx (read_links m (map st_MatchRequestId ts)) [Exponential]) (\<lambda>(err, fr).
      case err of
        Some e \<Rightarrow> go_return ()
      | None \<Rightarrow>
          (let A = {k \<in> st_MatchRequestId ` set ts. fmlookup (fr_allocations fr) k = None} in
           if A = {} then go_return () else resend rt m ctx A (map Some ts))) w"
  unfolding resend_def read_links_def RequeueMatchRequests_def go_bind_Ret [where m = "ticket_ids (map Some ts)", OF ticket_ids_Some]
    fold_insert_if [where P = "\<lambda>k. fmlookup fr k = None" for fr] Un_empty_left list.set_map ..

lemma RequeueMatchRequests_spec:
  assumes "RequeueMatchRequests rt m ctx (map Some ts) w = (r, w')"
  shows "r = Ret () \<and> tab w' = tab w \<and> rest w' = rest w \<and>
    (\<exists>ys. subseq ys (unallocated (tab w) ts) \<and> log w' = log w @ map (ticket_msg rt) ys)"
proof -
  let ?ids = "map st_MatchRequestId ts"
  obtain q w1 where c: "RetryCapture rt ctx (read_links m ?ids) [Exponential] w = (q, w1)" by force
  from RetryCapture_read_links [OF c] obtain e fr where
    k: "tab w1 = tab w" "log w1 = log w" "rest w1 = rest w" "q = Ret (e, fr)" and
    l: "e = None \<longrightarrow> fmlookup (fr_allocations fr) = tab w collectionTicketAssignments |` set ?ids"
    by blast
  let ?A = "{k \<in> st_MatchRequestId ` set ts. fmlookup (fr_allocations fr) k = None}"
  show ?thesis
  proof (cases e)
    case (Some err)
    with assms c k show ?thesis by (auto simp: requeue_body go_bind_Ret)
  next
    case None
    with l have A: "filter (\<lambda>st. st_MatchRequestId st \<in> ?A) ts = unallocated (tab w) ts"
      by (auto simp: unallocated_def restrict_map_def intro!: filter_cong)
    show ?thesis
    proof (cases "?A = {}")
      case True
      with assms c k None show ?thesis by (auto simp: requeue_body go_bind_Ret)
    next
      case False
      from assms c k None have
        "(if ?A = {} then go_return () else resend rt m ctx ?A (map Some ts)) w1 = (r, w')"
        by (simp only: requeue_body go_bind_def c Let_def prod.case option.case k(4) go.case)
      with False have "resend rt m ctx ?A (map Some ts) w1 = (r, w')" by (simp only: if_False)
      from resend_spec [OF this] k A show ?thesis by simp
    qed
  qed
qed

lemma RequeueMatchRequests_ok:
  assumes "store_reliable (tm_kvStore m)" and "stream_reliable rt (tm_streamClient m)"
  shows "\<exists>w'. RequeueMatchRequests rt m ctx (map Some ts) w = (Ret (), w') \<and> tab w' = tab w \<and>
    log w' = log w @ map (ticket_msg rt) (unallocated (tab w) ts)"
proof -
  let ?ids = "map st_MatchRequestId ts"
  obtain al w1 where g:
    "Store_MGet (tm_kvStore m) collectionTicketAssignments ?ids w = (Ret (Inr al), w1)"
    using assms(1) by (metis store_reliable_def)
  then have "read_links m ?ids (w, frame0) = (Ret None, (w1, frame0\<lparr>fr_allocations := al\<rparr>))"
    by (simp add: read_links_def)
  from RetryCapture_first [where f = "read_links m ?ids", OF this] have
    c: "RetryCapture rt ctx (read_links m ?ids) [Exponential] w =
      (Ret (None, frame0\<lparr>fr_allocations := al\<rparr>), w1)" .
  from RetryCapture_read_links [OF c] have k: "tab w1 = tab w" "log w1 = log w"
    "fmlookup al = tab w collectionTicketAssignments |` set ?ids" by auto
  let ?A = "{k \<in> st_MatchRequestId ` set ts. fmlookup al k = None}"
  have A: "filter (\<lambda>st. st_MatchRequestId st \<in> ?A) ts = unallocated (tab w) ts"
    using k(3) by (auto simp: unallocated_def restrict_map_def intro!: filter_cong)
  show ?thesis
  proof (cases "?A = {}")
    case True
    have "unallocated (tab w) ts = []" unfolding A [symmetric] True by simp
    with True c k show ?thesis by (simp add: requeue_body go_bind_Ret)
  next
    case False
    then have "RequeueMatchRequests rt m ctx (map Some ts) w = resend rt m ctx ?A (map Some ts) w1"
      by (simp only: requeue_body go_bind_def c Let_def prod.case option.case go.case if_False
          frame0_def frame.simps)
    with resend_ok [OF assms(2), of ctx ?A ts w1] k(1,2) show ?thesis unfolding A by simp
  qed
qed

end

end
