(* ===== verification/Tickets_States.thy ===== *)
theory Tickets_States
  imports Tickets_Requeue
begin

text \<open>
  The calls of the ticket manager as a step relation, whatever their arguments and whether they
  succeed, fail or panic, and two invariants of any sequence of them: every stored document parses
  under its own id, and the link of a ticket to a match only changes in a release of that ticket.
\<close>

section \<open>Calls\<close>

definition released :: "api_Match option \<Rightarrow> string set" where
  "released mp = (case mp of None \<Rightarrow> {} | Some mt \<Rightarrow> set (match_MatchRequestIds mt))"

text \<open>\<open>ticket_call rt m A w w'\<close>: a call that may release the tickets of \<open>A\<close>.\<close>

inductive ticket_call ::
  "'w runtime \<Rightarrow> 'w tickets_manager \<Rightarrow> string set \<Rightarrow> 'w \<Rightarrow> 'w \<Rightarrow> bool" for rt m where
  create: "CreateMatchRequest rt m ctx req w = (r, w') \<Longrightarrow> ticket_call rt m {} w w'"
| delete: "DeleteMatchRequest m k w = (r, w') \<Longrightarrow> ticket_call rt m {} w w'"
| get: "GetMatchRequest rt m k w = (rq, w') \<Longrightarrow> ticket_call rt m {} w w'"
| gets: "GetMatchRequests rt m ks w = (rs, w') \<Longrightarrow> ticket_call rt m {} w w'"
| batch: "PublishAccumulatedMatchRequests rt m ctx queue sts w = (r, w') \<Longrightarrow> ticket_call rt m {} w w'"
| assign: "AssignMatchRequestsToMatch m mp w = (rb, w') \<Longrightarrow> ticket_call rt m {} w w'"
| release: "ReleaseMatchRequestsFromMatch m mp w = (r, w') \<Longrightarrow> ticket_call rt m (released mp) w w'"
| announce: "AddAssignmentToMatchRequests rt m ctx gs mp w = (r, w') \<Longrightarrow> ticket_call rt m {} w w'"
| requeue: "RequeueMatchRequests rt m ctx ts w = (ru, w') \<Longrightarrow> ticket_call rt m {} w w'"

text \<open>Any number of calls, none of which releases a ticket of \<open>A\<close>.\<close>

inductive ticket_calls ::
  "'w runtime \<Rightarrow> 'w tickets_manager \<Rightarrow> string set \<Rightarrow> 'w \<Rightarrow> 'w \<Rightarrow> bool" for rt m A where
  none: "ticket_calls rt m A w w"
| more: "ticket_calls rt m A w w1 \<Longrightarrow> ticket_call rt m B w1 w2 \<Longrightarrow> A \<inter> B = {} \<Longrightarrow>
    ticket_calls rt m A w w2"

inductive_cases ticket_callE: "ticket_call rt m A w w'"

section \<open>Invariants\<close>

lemma write_outcome_inv: "write_outcome e t t1 t' \<Longrightarrow> P t \<Longrightarrow> P t1 \<Longrightarrow> P t'"
  by (cases e) auto

lemma write_nx_outcome_inv: "write_nx_outcome free ok t t1 t' \<Longrightarrow> P t \<Longrightarrow> (free \<Longrightarrow> P t1) \<Longrightarrow> P t'"
  by (cases ok) (auto split: if_splits)

lemma tickets_wf_put:
  assumes "tickets_wf rt t" and "rt_unmarshal_MatchRequest rt b = Inr q" and "dbreq_Id q = k"
    and "dbreq_Members q \<noteq> []"
  shows "tickets_wf rt (tput collectionTickets k b t)"
  using assms by (auto simp: tickets_wf_def split: if_splits)

lemma tickets_wf_del: "tickets_wf rt t \<Longrightarrow> tickets_wf rt (tdel c A t)"
  by (cases "c = collectionTickets")
    (auto simp: tickets_wf_def tdel_def restrict_map_def split: if_splits)

context tickets_env
begin

lemma tickets_wf_assigned:
  assumes "tickets_wf rt t"
  shows "tickets_wf rt (tputs collectionTickets (assigned_docs rt gs t ks) t)"
  unfolding tickets_wf_def
proof (intro allI impI)
  fix k b
  assume b: "tputs collectionTickets (assigned_docs rt gs t ks) t collectionTickets k = Some b"
  show "\<exists>q. rt_unmarshal_MatchRequest rt b = Inr q \<and> dbreq_Id q = k \<and> dbreq_Members q \<noteq> []"
  proof (cases "assigned_docs rt gs t ks k")
    case None
    with b tickets_wfD [OF assms] show ?thesis by (simp add: map_add_def)
  next
    case (Some b')
    with b have "assigned_docs rt gs t ks k = Some b" by (simp add: map_add_def)
    then obtain q where q: "ticket_at rt t k = Some q"
      "rt_marshal_MatchRequest rt (q\<lparr>dbreq_GameServer := Some gs\<rparr>) = Inr b"
      by (auto simp: assigned_docs_def with_server_def split: if_splits option.splits sum.splits)
    have "dbreq_Id q = k \<and> dbreq_Members q \<noteq> []"
      using q(1) tickets_wfD [OF assms] by (force simp: ticket_at_Some)
    with codec_MatchRequest [OF q(2)] show ?thesis by simp
  qed
qed

text \<open>A stored ticket of an assignment carries the server afterwards, and is otherwise unchanged.\<close>

lemma ticket_at_assigned:
  assumes "tickets_wf rt t" and "k \<in> set ks" and "t collectionTickets k \<noteq> None"
    and "\<forall>q. \<exists>b. rt_marshal_MatchRequest rt q = Inr b"
  shows "\<exists>q. ticket_at rt t k = Some q \<and>
    ticket_at rt (tputs collectionTickets (assigned_docs rt gs t ks) t) k =
      Some (q\<lparr>dbreq_GameServer := Some gs\<rparr>)"
proof -
  from tickets_wf_at [OF assms(1,3)] obtain q where q: "ticket_at rt t k = Some q" by blast
  from assms(4) obtain b where b: "rt_marshal_MatchRequest rt (q\<lparr>dbreq_GameServer := Some gs\<rparr>) = Inr b"
    by blast
  with q assms(2) have "assigned_docs rt gs t ks k = Some b"
    by (simp add: assigned_docs_def with_server_def)
  with q codec_MatchRequest [OF b] show ?thesis by (auto simp: ticket_at_Some map_add_def)
qed

lemma AssignMatchRequestsToMatch_None: "AssignMatchRequestsToMatch m None w = (Panic NilDereference, w)"
  by (simp add: AssignMatchRequestsToMatch_def)

lemma ReleaseMatchRequestsFromMatch_None:
  "ReleaseMatchRequestsFromMatch m None w = (Panic NilDereference, w)"
  by (simp add: ReleaseMatchRequestsFromMatch_def)

text \<open>The player who asks is a member, so that there is one.\<close>

lemma request_document_members:
  "dbreq_Members (request_document (rt_order rt w (request_members req)) now req) \<noteq> []"
proof -
  have "finite (request_members req)"
    by (cases "req_PartyData req") (simp_all add: request_members_def union_set_fold [symmetric])
  with order have "set (rt_order rt w (request_members req)) = request_members req" by simp
  moreover have "req_PlayerId req \<in> request_members req" by (simp add: request_members_def Let_def)
  ultimately show ?thesis by (auto simp: request_document_def Let_def)
qed

text \<open>A requeue leaves the tables alone, also when it panics.\<close>

lemma RequeueMatchRequests_tab:
  assumes "RequeueMatchRequests rt m ctx ts w = (r, w')"
  shows "tab w' = tab w \<and> rest w' = rest w"
proof (cases "None \<in> set ts")
  case True
  with assms show ?thesis by (simp add: RequeueMatchRequests_nil)
next
  case False
  with assms RequeueMatchRequests_spec [of ctx "map the ts" w r w'] show ?thesis
    unfolding map_Some_the [OF False] by simp
qed

lemma AddAssignment_tab:
  assumes wf: "tickets_wf rt (tab w)"
    and run: "AddAssignmentToMatchRequests rt m ctx gp mp w = (r, w')"
  shows "tab w' = tab w \<or>
    (\<exists>gs ks. tab w' = tputs collectionTickets (assigned_docs rt gs (tab w) ks) (tab w))"
proof (cases mp)
  case None
  with run show ?thesis by (simp add: AddAssignmentToMatchRequests_def)
next
  case mp: (Some mt)
  show ?thesis
  proof (cases gp)
    case (Some gsv)
    from AddAssignment_spec [OF wf run [unfolded mp Some], unfolded Let_def] show ?thesis
      by (auto split: if_splits option.splits)
  next
    case None
    obtain q w1 where g: "GetMatchRequests rt m (match_MatchRequestIds mt) w = (q, w1)" by force
    from GetMatchRequests_spec [OF g] obtain x where "q = Ret x" "tab w1 = tab w" by blast
    with run mp None g show ?thesis
      by (cases x) (auto simp: AddAssignmentToMatchRequests_def go_bind_Ret split: if_splits)
  qed
qed

lemma ticket_call_wf:
  assumes "ticket_call rt m A w w'" and "tickets_wf rt (tab w)"
  shows "tickets_wf rt (tab w')"
  using assms(1)
proof cases
  case (create ctx req r)
  let ?doc = "request_document (rt_order rt w (request_members req)) (rt_now rt w) req"
  have id: "dbreq_Id ?doc = req_Id req" by (simp add: request_document_def Let_def)
  have player: "dbreq_Members ?doc \<noteq> []" by (rule request_document_members)
  from CreateMatchRequest_spec [OF create(2) refl]
  have "tab w' = tab w \<or> (\<exists>b. rt_marshal_MatchRequest rt ?doc = Inr b \<and>
      tab w' = tput collectionTickets (req_Id req) b (tab w))" by (auto split: option.splits)
  then show ?thesis
  proof
    assume "tab w' = tab w"
    with assms(2) show ?thesis by simp
  next
    assume "\<exists>b. rt_marshal_MatchRequest rt ?doc = Inr b \<and>
      tab w' = tput collectionTickets (req_Id req) b (tab w)"
    then obtain b where b: "rt_marshal_MatchRequest rt ?doc = Inr b"
      "tab w' = tput collectionTickets (req_Id req) b (tab w)" by blast
    show ?thesis unfolding b(2)
      by (rule tickets_wf_put [OF assms(2) codec_MatchRequest [OF b(1)] id player])
  qed
next
  case (delete k r)
  with DeleteMatchRequest_spec [OF delete(2)] assms(2) show ?thesis
    by (blast intro: write_outcome_inv [where P = "tickets_wf rt"] tickets_wf_del)
next
  case (get k r)
  with GetMatchRequest_spec [OF get(2)] assms(2) show ?thesis by simp
next
  case (gets ks r)
  with GetMatchRequests_spec [OF gets(2)] assms(2) show ?thesis by simp
next
  case (batch ctx queue sts r)
  with PublishAccumulated_spec [OF batch(2)] assms(2) show ?thesis by simp
next
  case (assign mp r)
  show ?thesis
  proof (cases mp)
    case None
    with assign(2) assms(2) show ?thesis by (simp add: AssignMatchRequestsToMatch_None)
  next
    case (Some mt)
    from AssignMatchRequestsToMatch_spec [OF assign(2) [unfolded Some]]
    have "tab w' collectionTickets = tab w collectionTickets"
      by (auto split: if_splits intro: write_nx_outcome_inv
          [where P = "\<lambda>t. t collectionTickets = tab w collectionTickets"])
    with assms(2) show ?thesis using tickets_wf_cong by blast
  qed
next
  case (release mp r)
  show ?thesis
  proof (cases mp)
    case None
    with release(2) assms(2) show ?thesis by (simp add: ReleaseMatchRequestsFromMatch_None)
  next
    case (Some mt)
    from ReleaseMatchRequestsFromMatch_spec [OF release(2) [unfolded Some]] assms(2) show ?thesis
      by (auto split: if_splits
          intro: write_outcome_inv [where P = "tickets_wf rt"] tickets_wf_del)
  qed
next
  case (announce ctx gp mp r)
  from AddAssignment_tab [OF assms(2) announce(2)] assms(2) tickets_wf_assigned show ?thesis by auto
next
  case (requeue ctx ts r)
  with RequeueMatchRequests_tab [OF requeue(2)] assms(2) show ?thesis by simp
qed

lemma ticket_calls_wf:
  "ticket_calls rt m A w w' \<Longrightarrow> tickets_wf rt (tab w) \<Longrightarrow> tickets_wf rt (tab w')"
  by (induction rule: ticket_calls.induct) (auto intro: ticket_call_wf)

text \<open>A link is written at most once until the ticket is released.\<close>

lemma ticket_call_link:
  assumes "ticket_call rt m A w w'" and "tickets_wf rt (tab w)" and "k \<notin> A"
    and "tab w collectionTicketAssignments k = Some b"
  shows "tab w' collectionTicketAssignments k = Some b"
  using assms(1)
proof cases
  case (create ctx req r)
  from CreateMatchRequest_spec [OF create(2) refl]
  have "tab w' collectionTicketAssignments = tab w collectionTicketAssignments"
    by (auto split: option.splits)
  with assms(4) show ?thesis by simp
next
  case (delete k' r)
  from DeleteMatchRequest_spec [OF delete(2)] assms(4) show ?thesis
    by (auto intro: write_outcome_inv [where P = "\<lambda>t. t collectionTicketAssignments k = Some b"])
next
  case (get k r)
  with GetMatchRequest_spec [OF get(2)] assms(4) show ?thesis by simp
next
  case (gets ks r)
  with GetMatchRequests_spec [OF gets(2)] assms(4) show ?thesis by simp
next
  case (batch ctx queue sts r)
  with PublishAccumulated_spec [OF batch(2)] assms(4) show ?thesis by simp
next
  case (assign mp r)
  show ?thesis
  proof (cases mp)
    case None
    with assign(2) assms(4) show ?thesis by (simp add: AssignMatchRequestsToMatch_None)
  next
    case (Some mt)
    have "(tab w collectionTicketAssignments ++ links mt) k = Some b"
      if "\<forall>k \<in> set (match_MatchRequestIds mt). tab w collectionTicketAssignments k = None"
      using that assms(4) by (auto simp: map_add_def links_def)
    with AssignMatchRequestsToMatch_spec [OF assign(2) [unfolded Some]] assms(4)
    show ?thesis
      by (auto split: if_splits dest!: write_nx_outcome_inv
          [where P = "\<lambda>t. t collectionTicketAssignments k = Some b"])
  qed
next
  case (release mp r)
  show ?thesis
  proof (cases mp)
    case None
    with release(2) assms(4) show ?thesis by (simp add: ReleaseMatchRequestsFromMatch_None)
  next
    case (Some mt)
    with release(1) assms(3) have "k \<notin> set (match_MatchRequestIds mt)" by (simp add: released_def)
    with ReleaseMatchRequestsFromMatch_spec [OF release(2) [unfolded Some]] assms(4) show ?thesis
      by (auto split: if_splits
          intro: write_outcome_inv [where P = "\<lambda>t. t collectionTicketAssignments k = Some b"])
  qed
next
  case (announce ctx gp mp r)
  from AddAssignment_tab [OF assms(2) announce(2)] assms(4) show ?thesis by auto
next
  case (requeue ctx ts r)
  with RequeueMatchRequests_tab [OF requeue(2)] assms(4) show ?thesis by simp
qed

lemma ticket_calls_link:
  assumes "ticket_calls rt m A w w'" and "tickets_wf rt (tab w)" and "k \<in> A"
    and "tab w collectionTicketAssignments k = Some b"
  shows "tab w' collectionTicketAssignments k = Some b"
  using assms(1,2,4)
proof (induction rule: ticket_calls.induct)
  case (more w w1 B w2)
  from more.hyps(1) more.prems(1) have "tickets_wf rt (tab w1)" by (rule ticket_calls_wf)
  moreover have "k \<notin> B" using assms(3) more.hyps(3) by blast
  ultimately show ?case using ticket_call_link [OF more.hyps(2)] more.IH more.prems by blast
qed

end

end
