(* ===== verification/Matches_Laws.thy ===== *)
theory Matches_Laws
  imports Matches Tickets_States
begin

text \<open>
  The match manager over the ticket manager of the same clients, as the services build it
  (\<open>matches_manager_of\<close>): what \<open>CreateMatch\<close> does on every branch, its rollback, and the stream of
  unassigned matches.
\<close>

definition matches_manager_of :: "'w runtime \<Rightarrow> 'w tickets_manager \<Rightarrow> 'w matches_manager" where
  "matches_manager_of rt tm =
    \<lparr>mm_ticketsManager = tickets_of rt tm, mm_kvStore = tm_kvStore tm,
     mm_streamClient = tm_streamClient tm\<rparr>"

definition matches_of :: "'w runtime \<Rightarrow> 'w tickets_manager \<Rightarrow> 'w matches_Manager" where
  "matches_of rt tm =
    matches_NewManager rt (tickets_of rt tm) (tm_kvStore tm) (tm_streamClient tm)"

lemma matches_manager_of_simps [simp]:
  "mm_ticketsManager (matches_manager_of rt tm) = tickets_of rt tm"
  "mm_kvStore (matches_manager_of rt tm) = tm_kvStore tm"
  "mm_streamClient (matches_manager_of rt tm) = tm_streamClient tm"
  by (simp_all add: matches_manager_of_def)

lemma matches_of_simps [simp]:
  "MM_CreateMatch (matches_of rt tm) = CreateMatch rt (matches_manager_of rt tm)"
  "MM_StreamMatches (matches_of rt tm) = StreamMatches (matches_manager_of rt tm)"
  "MM_StreamMatches_callback (matches_of rt tm) = StreamMatches_callback rt (matches_manager_of rt tm)"
  "MM_Requeue (matches_of rt tm) = matches_Requeue (matches_manager_of rt tm)"
  by (simp_all add: matches_of_def matches_NewManager_def matches_manager_of_def Let_def)

definition match_msg :: "api_Match \<Rightarrow> string \<times> bytes" where
  "match_msg mt = (GetUnassignedMatchesTopic, match_MatchId mt)"

definition links_free :: "table \<Rightarrow> api_Match \<Rightarrow> bool" where
  "links_free t mt \<longleftrightarrow> (\<forall>k \<in> set (match_MatchRequestIds mt). t collectionTicketAssignments k = None)"

text \<open>
  What a failed creation may leave behind: links of the match if its tickets were free, and
  something under its own id in the collection of matches.
\<close>

definition match_residue :: "api_Match \<Rightarrow> table \<Rightarrow> table \<Rightarrow> bool" where
  "match_residue mt t t' \<longleftrightarrow>
    (\<forall>c. c \<noteq> collectionTicketAssignments \<longrightarrow> c \<noteq> collectionMatch \<longrightarrow> t' c = t c) \<and>
    (\<forall>k. k \<noteq> match_MatchId mt \<longrightarrow> t' collectionMatch k = t collectionMatch k) \<and>
    (t' collectionTicketAssignments = t collectionTicketAssignments \<or>
     links_free t mt \<and>
     t' collectionTicketAssignments = t collectionTicketAssignments ++ links mt)"

lemma collectionMatch_distinct [simp]:
  "collectionMatch \<noteq> collectionTickets" "collectionTickets \<noteq> collectionMatch"
  "collectionMatch \<noteq> collectionTicketAssignments" "collectionTicketAssignments \<noteq> collectionMatch"
  by (simp_all add: collectionMatch_def collectionTickets_def collectionTicketAssignments_def)

lemma match_residue_refl [simp]: "match_residue mt t t"
  by (simp add: match_residue_def)

lemma match_residue_links: "links_free t mt \<Longrightarrow>
    match_residue mt t (tputs collectionTicketAssignments (links mt) t)"
  by (simp add: match_residue_def)

lemma match_residue_put: "match_residue mt t t' \<Longrightarrow>
    match_residue mt t (tput collectionMatch (match_MatchId mt) b t')"
  by (auto simp: match_residue_def)

lemma match_residue_del: "match_residue mt t t' \<Longrightarrow>
    match_residue mt t (tdel collectionMatch {match_MatchId mt} t')"
  by (auto simp: match_residue_def restrict_map_def)

lemma links_undo:
  assumes "links_free t mt"
  shows "(t collectionTicketAssignments ++ links mt) |` (- set (match_MatchRequestIds mt)) =
    t collectionTicketAssignments"
  using assms
  by (auto simp: fun_eq_iff restrict_map_def map_add_def links_def links_free_def)

lemma links_free_restrict:
  "links_free t mt \<Longrightarrow> t collectionTicketAssignments |` (- set (match_MatchRequestIds mt)) =
    t collectionTicketAssignments"
  by (auto simp: fun_eq_iff restrict_map_def links_free_def)

lemma match_residue_release:
  assumes "match_residue mt t t'" and "links_free t mt"
  shows "match_residue mt t (tdel collectionTicketAssignments (set (match_MatchRequestIds mt)) t')"
  using assms links_undo [OF assms(2)] links_free_restrict [OF assms(2)]
  by (auto simp: match_residue_def)

definition match_at :: "'w runtime \<Rightarrow> table \<Rightarrow> string \<Rightarrow> api_Match option" where
  "match_at rt t k =
    (case t collectionMatch k of
       None \<Rightarrow> None
     | Some b \<Rightarrow> (case rt_unmarshal_Match rt b of Inl _ \<Rightarrow> None | Inr mt \<Rightarrow> Some mt))"

lemma match_at_Some:
  "match_at rt t k = Some mt \<longleftrightarrow>
    (\<exists>b. t collectionMatch k = Some b \<and> rt_unmarshal_Match rt b = Inr mt)"
  by (auto simp: match_at_def split: option.splits sum.splits)

text \<open>The read that \<open>StreamMatches\<close> retries.\<close>

definition read_match ::
  "'w runtime \<Rightarrow> 'w matches_manager \<Rightarrow> bytes \<Rightarrow> ('w \<times> frame, error option) proc" where
  "read_match rt m data =
        (\<lambda>(w, fr). case GetMatch rt m data w of
            (Ret (Inl err), w') \<Rightarrow> (Ret (Some err), (w', fr\<lparr>fr_match := None\<rparr>))
          | (Ret (Inr match), w') \<Rightarrow> (Ret None, (w', fr\<lparr>fr_match := Some match\<rparr>))
          | (Panic p, w') \<Rightarrow> (Panic p, (w', fr))
          | (Blocked, w') \<Rightarrow> (Blocked, (w', fr)))"

locale matches_env = tickets_env rt m tab log rest plain
  for rt :: "'w runtime" and m :: "'w tickets_manager" and tab :: "'w \<Rightarrow> table"
    and log :: "'w \<Rightarrow> message_log" and rest :: "'w \<Rightarrow> 'r" and plain :: "string \<Rightarrow> bool" +
  assumes plain_matches [simp]: "plain collectionMatch"
begin

text \<open>The release of an error path.\<close>

lemma release_residue:
  assumes "match_residue mt t (tab w)" and "links_free t mt"
    and "ReleaseMatchRequestsFromMatch m (Some mt) w = (r, w')"
  shows "match_residue mt t (tab w') \<and> log w' = log w \<and> rest w' = rest w \<and> (\<exists>e. r = Ret e)"
proof -
  note match_residue_release [OF assms(1,2)]
  with ReleaseMatchRequestsFromMatch_spec [OF assms(3)] assms(1) show ?thesis
    by (auto split: if_splits intro: write_outcome_inv [where P = "match_residue mt t"])
qed

lemma CreateMatch_None: "CreateMatch rt mm None w = (Panic NilDereference, w)"
  by (simp add: CreateMatch_def)

text \<open>The state in which \<open>CreateMatch_owned\<close> runs: the links of the match have just been written.\<close>

lemma CreateMatch_persist_spec:
  assumes res0: "match_residue mt t (tab w)"
    and "CreateMatch_persist rt (matches_manager_of rt m) mt w = (r, w')"
  shows "rest w' = rest w \<and> (\<exists>ok. r = Ret ok \<and>
    (case ok of
       Inl _ \<Rightarrow> log w' = log w \<and> match_residue mt t (tab w')
     | Inr b \<Rightarrow> b \<and> (\<exists>bs. rt_marshal_Match rt mt = Inr bs \<and>
         tab w' = tput collectionMatch (match_MatchId mt) bs (tab w)) \<and>
         log w' = log w @ [match_msg mt]))"
proof (cases "rt_marshal_Match rt mt")
  case (Inl err)
  with assms show ?thesis by (auto simp: CreateMatch_persist_def)
next
  case (Inr bs)
  let ?id = "match_MatchId mt"
  obtain e w1 where set: "Store_Set (tm_kvStore m) collectionMatch ?id (IBytes bs) 0 w = (Ret e, w1)"
    "(log w1, rest w1) = (log w, rest w)"
    "write_outcome e (tab w) (tput collectionMatch ?id bs (tab w)) (tab w1)"
    using kv_set [OF plain_matches] by (metis prod.exhaust wire.simps(3))
  have res1: "match_residue mt t (tab w1)"
    by (rule write_outcome_inv [where P = "match_residue mt t", OF set(3) res0 match_residue_put [OF res0]])
  show ?thesis
  proof (cases e)
    case (Some err)
    with assms(2) Inr set have "r = Ret (Inl err)" "w' = w1"
      by (simp_all add: CreateMatch_persist_def go_bind_def)
    with set(2) res1 show ?thesis by simp
  next
    case None
    obtain e2 w2 where snd: "SendMessage (tm_streamClient m) GetUnassignedMatchesTopic ?id w1 = (Ret e2, w2)"
      "(tab w2, rest w2) = (tab w1, rest w1)"
      "log w2 = sent e2 GetUnassignedMatchesTopic ?id (log w1)"
      using send_message by (metis prod.exhaust)
    show ?thesis
    proof (cases e2)
      case None
      with assms(2) Inr set snd \<open>e = None\<close> have "r = Ret (Inr True)" "w' = w2"
        by (auto simp: CreateMatch_persist_def defer_on_error_def go_bind_def)
      with set snd Inr None \<open>e = None\<close> show ?thesis by (auto simp: match_msg_def)
    next
      case (Some err)
      obtain d w3 where del: "Store_Del (tm_kvStore m) collectionMatch [?id] w2 = (Ret d, w3)"
        "(log w3, rest w3) = (log w2, rest w2)"
        "write_outcome d (tab w2) (tdel collectionMatch {?id} (tab w2)) (tab w3)"
        using kv_del [OF plain_matches, of "[?id]"] by (metis prod.exhaust list.distinct(1) list.set)
      have res2: "match_residue mt t (tab w2)" using res1 snd(2) by simp
      have "match_residue mt t (tab w3)"
        by (rule write_outcome_inv [where P = "match_residue mt t", OF del(3) res2 match_residue_del [OF res2]])
      moreover from assms(2) Inr set snd \<open>e = None\<close> Some del have "r = Ret (Inl err)" "w' = w3"
        by (simp_all add: CreateMatch_persist_def defer_on_error_def go_bind_def)
      ultimately show ?thesis using set(2) snd(2,3) del(2) Some by simp
    qed
  qed
qed

text \<open>Either the body ended well, or the release was its last step.\<close>

lemma CreateMatch_owned_cases:
  assumes "links_free t mt" and "tab w = tputs collectionTicketAssignments (links mt) t"
    and "CreateMatch_owned rt (matches_manager_of rt m) mt w = (r, w')"
  obtains (kept) bs where "r = Ret (Inr True)" "rt_marshal_Match rt mt = Inr bs" "rest w' = rest w"
      "tab w' = tput collectionMatch (match_MatchId mt) bs (tab w)" "log w' = log w @ [match_msg mt]"
  | (undone) v e d where "r = Ret (Inl e)" "rest v = rest w" "log v = log w"
      "match_residue mt t (tab v)" "ReleaseMatchRequestsFromMatch m (Some mt) v = (Ret d, w')"
proof -
  have res0: "match_residue mt t (tab w)"
    using match_residue_links [OF assms(1)] assms(2) by simp
  obtain q v where p: "CreateMatch_persist rt (matches_manager_of rt m) mt w = (q, v)" by force
  from CreateMatch_persist_spec [OF res0 p] obtain ok where o: "rest v = rest w" "q = Ret ok"
    "case ok of Inl _ \<Rightarrow> log v = log w \<and> match_residue mt t (tab v)
     | Inr b \<Rightarrow> b \<and> (\<exists>bs. rt_marshal_Match rt mt = Inr bs \<and>
         tab v = tput collectionMatch (match_MatchId mt) bs (tab w)) \<and> log v = log w @ [match_msg mt]"
    by blast
  show ?thesis
  proof (cases ok)
    case (Inr b)
    with o(3) obtain bs where bs: "rt_marshal_Match rt mt = Inr bs"
      "tab v = tput collectionMatch (match_MatchId mt) bs (tab w)" by auto
    with o p assms(3) Inr show ?thesis
      by (intro kept [of bs]) (auto simp: CreateMatch_owned_def defer_on_error_def go_bind_def)
  next
    case (Inl e)
    obtain d v1 where d: "ReleaseMatchRequestsFromMatch m (Some mt) v = (Ret d, v1)"
      using ReleaseMatchRequestsFromMatch_spec by (metis prod.exhaust)
    with o p assms(3) Inl show ?thesis
      by (intro undone [of e v d]) (auto simp: CreateMatch_owned_def defer_on_error_def go_bind_def)
  qed
qed

lemma CreateMatch_owned_spec:
  assumes "links_free t mt" and "tab w = tputs collectionTicketAssignments (links mt) t"
    and "CreateMatch_owned rt (matches_manager_of rt m) mt w = (r, w')"
  shows "rest w' = rest w \<and> (\<exists>ok. r = Ret ok \<and>
    (case ok of
       Inl _ \<Rightarrow> log w' = log w \<and> match_residue mt t (tab w')
     | Inr b \<Rightarrow> b \<and> (\<exists>bs. rt_marshal_Match rt mt = Inr bs \<and>
         tab w' = tput collectionMatch (match_MatchId mt) bs (tab w)) \<and>
         log w' = log w @ [match_msg mt]))"
  using assms
proof (cases rule: CreateMatch_owned_cases)
  case (kept bs)
  then show ?thesis by simp
next
  case (undone v e d)
  with release_residue [OF undone(4) assms(1) undone(5)] show ?thesis by simp
qed

text \<open>The whole: on success every ticket of the match is linked to it, the match is stored and
  announced; on false nothing changed; an error announces nothing.\<close>

lemma CreateMatch_spec:
  assumes "CreateMatch rt (matches_manager_of rt m) (Some mt0) w = (r, w')"
  shows "\<exists>mt. (match_MatchId mt0 \<noteq> [] \<longrightarrow> mt = mt0) \<and> mt = mt0\<lparr>match_MatchId := match_MatchId mt\<rparr> \<and>
    match_MatchId mt \<noteq> [] \<and> rest w' = rest w \<and> (\<exists>ok. r = Ret ok \<and>
    (case ok of
       Inl _ \<Rightarrow> log w' = log w \<and> match_residue mt (tab w) (tab w')
     | Inr True \<Rightarrow> links_free (tab w) mt \<and> (\<exists>bs. rt_marshal_Match rt mt = Inr bs \<and>
         tab w' = tput collectionMatch (match_MatchId mt) bs
           (tputs collectionTicketAssignments (links mt) (tab w))) \<and>
         log w' = log w @ [match_msg mt]
     | Inr False \<Rightarrow> \<not> links_free (tab w) mt \<and> tab w' = tab w \<and> log w' = log w))"
proof -
  obtain mt w0 where id: "match_MatchId mt0 \<noteq> [] \<longrightarrow> mt = mt0"
    "mt = mt0\<lparr>match_MatchId := match_MatchId mt\<rparr>" "match_MatchId mt \<noteq> []"
    "tab w0 = tab w" "log w0 = log w" "rest w0 = rest w" and
    run: "go_bind (AssignMatchRequestsToMatch m (Some mt)) (\<lambda>res.
      case res of
        Inl err \<Rightarrow> go_return (Inl err)
      | Inr successful \<Rightarrow>
          if \<not> successful then go_return (Inr False)
          else CreateMatch_owned rt (matches_manager_of rt m) mt) w0 = (r, w')"
  proof (cases "match_MatchId mt0 = []")
    case False
    with assms show ?thesis by (intro that [of mt0 w]) (simp_all add: CreateMatch_def)
  next
    case True
    obtain i w0 where x: "rt_xid rt w = (i, w0)" by force
    with assms True rt_keeps [OF x] xid_nonempty [OF x] show ?thesis
      by (intro that [of "mt0\<lparr>match_MatchId := i\<rparr>" w0])
        (simp_all add: CreateMatch_def go_bind_def call_def)
  qed
  let ?t1 = "tputs collectionTicketAssignments (links mt) (tab w)"
  obtain q w1 where a: "AssignMatchRequestsToMatch m (Some mt) w0 = (q, w1)" by force
  from AssignMatchRequestsToMatch_spec [OF a, unfolded id(4-6), folded links_free_def]
  obtain ok where ok: "q = Ret ok"
    "rest w1 = rest w" "log w1 = log w"
    "if match_MatchRequestIds mt = [] then ok = Inr True \<and> tab w1 = tab w
     else write_nx_outcome (links_free (tab w) mt) ok (tab w) ?t1 (tab w1)"
    by blast
  have empty: "links_free (tab w) mt \<and> ?t1 = tab w" if "match_MatchRequestIds mt = []"
  proof -
    from that have "links mt = Map.empty" by (simp add: links_def)
    with that show ?thesis by (auto simp: links_free_def tputs_def)
  qed
  have out: "write_nx_outcome (links_free (tab w) mt) ok (tab w) ?t1 (tab w1)"
    using ok(4) empty by (auto split: if_splits)
  show ?thesis
  proof (cases ok)
    case (Inl err)
    with run a ok(1) have "r = Ret (Inl err)" "w' = w1" by (auto simp: go_bind_Ret)
    moreover have "match_residue mt (tab w) (tab w1)"
      by (rule write_nx_outcome_inv [where P = "match_residue mt (tab w)", OF out])
        (simp_all add: match_residue_links)
    ultimately show ?thesis using id ok by (intro exI [of _ mt]) auto
  next
    case (Inr b)
    show ?thesis
    proof (cases b)
      case False
      with run a ok(1) Inr have "r = Ret (Inr False)" "w' = w1" by (auto simp: go_bind_Ret)
      with id ok out Inr False show ?thesis by (intro exI [of _ mt]) auto
    next
      case True
      with run a ok(1) Inr have own: "CreateMatch_owned rt (matches_manager_of rt m) mt w1 = (r, w')"
        by (simp add: go_bind_Ret)
      from out Inr True have free: "links_free (tab w) mt" "tab w1 = ?t1" by auto
      from CreateMatch_owned_spec [OF free own] obtain ok2 where o: "rest w' = rest w1" "r = Ret ok2"
        "case ok2 of
           Inl _ \<Rightarrow> log w' = log w1 \<and> match_residue mt (tab w) (tab w')
         | Inr b \<Rightarrow> b \<and> (\<exists>bs. rt_marshal_Match rt mt = Inr bs \<and>
             tab w' = tput collectionMatch (match_MatchId mt) bs (tab w1)) \<and>
             log w' = log w1 @ [match_msg mt]" by blast
      show ?thesis
      proof (cases ok2)
        case (Inl e)
        with o ok id show ?thesis by (intro exI [of _ mt]) simp
      next
        case (Inr b2)
        with o ok id free show ?thesis by (intro exI [of _ mt]) simp
      qed
    qed
  qed
qed

text \<open>What an answer of \<open>CreateMatch\<close> says of the links.\<close>

lemma CreateMatch_links:
  assumes "CreateMatch rt (matches_manager_of rt m) (Some mt0) w = (Ret (Inr b), w')"
  shows "b = links_free (tab w) mt0" and "\<exists>out. log w' = log w @ out"
    and "tab w' collectionTicketAssignments k \<noteq> None \<longleftrightarrow>
      b \<and> k \<in> set (match_MatchRequestIds mt0) \<or> tab w collectionTicketAssignments k \<noteq> None"
proof -
  from CreateMatch_spec [OF assms] obtain mt where
    mt: "mt = mt0\<lparr>match_MatchId := match_MatchId mt\<rparr>" and
    c: "if b then links_free (tab w) mt \<and> (\<exists>bs. tab w' = tput collectionMatch (match_MatchId mt) bs
           (tputs collectionTicketAssignments (links mt) (tab w))) \<and> log w' = log w @ [match_msg mt]
     else \<not> links_free (tab w) mt \<and> tab w' = tab w \<and> log w' = log w"
    by (cases b) auto
  have ids: "match_MatchRequestIds mt = match_MatchRequestIds mt0" by (subst mt) simp
  from c show "b = links_free (tab w) mt0" by (auto simp: links_free_def ids split: if_splits)
  from c show "\<exists>out. log w' = log w @ out" by (auto split: if_splits)
  from c show "tab w' collectionTicketAssignments k \<noteq> None \<longleftrightarrow>
      b \<and> k \<in> set (match_MatchRequestIds mt0) \<or> tab w collectionTicketAssignments k \<noteq> None"
    by (auto simp: links_def ids map_add_def split: if_splits option.splits)
qed

text \<open>No outcome touches another collection, in particular not the stored tickets.\<close>

lemma CreateMatch_others:
  assumes "CreateMatch rt (matches_manager_of rt m) (Some mt0) w = (r, w')"
    and "c \<noteq> collectionTicketAssignments" and "c \<noteq> collectionMatch"
  shows "tab w' c = tab w c"
proof -
  from CreateMatch_spec [OF assms(1)] obtain mt and ok :: "error + bool" where
    "case ok of Inl _ \<Rightarrow> log w' = log w \<and> match_residue mt (tab w) (tab w')
     | Inr True \<Rightarrow> links_free (tab w) mt \<and> (\<exists>bs. rt_marshal_Match rt mt = Inr bs \<and>
         tab w' = tput collectionMatch (match_MatchId mt) bs
           (tputs collectionTicketAssignments (links mt) (tab w))) \<and>
         log w' = log w @ [match_msg mt]
     | Inr False \<Rightarrow> \<not> links_free (tab w) mt \<and> tab w' = tab w \<and> log w' = log w"
    by (elim exE conjE) (rule that)
  then show ?thesis using assms(2,3)
    by (cases ok) (auto simp: match_residue_def split: bool.splits if_splits)
qed

lemma CreateMatch_wf:
  assumes "CreateMatch rt (matches_manager_of rt m) (Some mt0) w = (r, w')"
    and "tickets_wf rt (tab w)"
  shows "tickets_wf rt (tab w')"
  using CreateMatch_others [OF assms(1), of collectionTickets] assms(2) by (simp add: tickets_wf_def)

text \<open>With a store that does not fail, the rollback frees every ticket.\<close>

lemma CreateMatch_rollback:
  assumes "store_reliable (tm_kvStore m)"
    and "CreateMatch rt (matches_manager_of rt m) (Some mt0) w = (Ret (Inl e), w')"
  shows "tab w' collectionTicketAssignments = tab w collectionTicketAssignments"
proof (cases "match_MatchRequestIds mt0 = []")
  case True
  from CreateMatch_spec [OF assms(2)] obtain mt where
    mt: "mt = mt0\<lparr>match_MatchId := match_MatchId mt\<rparr>" "match_residue mt (tab w) (tab w')" by auto
  from mt(1) True have "match_MatchRequestIds mt = []" by (metis api_Match.select_convs(3)
      api_Match.surjective api_Match.update_convs(1))
  then have "links mt = Map.empty" by (simp add: links_def)
  with mt(2) show ?thesis by (auto simp: match_residue_def)
next
  case False
  obtain mt w0 where id: "match_MatchRequestIds mt \<noteq> []" "tab w0 = tab w" and
    run: "go_bind (AssignMatchRequestsToMatch m (Some mt)) (\<lambda>res.
      case res of
        Inl err \<Rightarrow> go_return (Inl err)
      | Inr successful \<Rightarrow>
          if \<not> successful then go_return (Inr False)
          else CreateMatch_owned rt (matches_manager_of rt m) mt) w0 = (Ret (Inl e), w')"
  proof (cases "match_MatchId mt0 = []")
    case False
    with assms \<open>match_MatchRequestIds mt0 \<noteq> []\<close> show ?thesis
      by (intro that [of mt0 w]) (simp_all add: CreateMatch_def)
  next
    case True
    obtain i w0 where x: "rt_xid rt w = (i, w0)" by force
    with assms True rt_keeps [OF x] \<open>match_MatchRequestIds mt0 \<noteq> []\<close> show ?thesis
      by (intro that [of "mt0\<lparr>match_MatchId := i\<rparr>" w0])
        (simp_all add: CreateMatch_def go_bind_def call_def)
  qed
  let ?al = "fold (\<lambda>t al. fmupd t (IString (match_MatchId mt)) al) (match_MatchRequestIds mt) fmempty"
  have "fmlookup ?al (hd (match_MatchRequestIds mt)) \<noteq> None"
    using id(1) by (simp add: fold_fmupd_const)
  then have "?al \<noteq> fmempty" by auto
  then obtain b w1 where "Store_MSetNX (tm_kvStore m) collectionTicketAssignments ?al w0 = (Ret (Inr b), w1)"
    using assms(1) by (metis store_reliable_def)
  then have a: "AssignMatchRequestsToMatch m (Some mt) w0 = (Ret (Inr b), w1)"
    using id(1) by (simp add: AssignMatchRequestsToMatch_def)
  with run have own: b "CreateMatch_owned rt (matches_manager_of rt m) mt w1 = (Ret (Inl e), w')"
    by (auto simp: go_bind_Ret split: if_splits)
  from AssignMatchRequestsToMatch_spec [OF a] own(1) id have
    free: "links_free (tab w) mt" "tab w1 = tputs collectionTicketAssignments (links mt) (tab w)"
    by (auto simp: links_free_def split: if_splits)
  from free own(2) obtain v d where v: "match_residue mt (tab w) (tab v)"
    and "ReleaseMatchRequestsFromMatch m (Some mt) v = (Ret d, w')"
    by (cases rule: CreateMatch_owned_cases) auto
  moreover have "\<exists>w'. ReleaseMatchRequestsFromMatch m (Some mt) v = (Ret None, w')"
    using assms(1) id(1) by (simp add: ReleaseMatchRequestsFromMatch_def store_reliable_def)
  ultimately have rel: "ReleaseMatchRequestsFromMatch m (Some mt) v = (Ret None, w')" by auto
  from ReleaseMatchRequestsFromMatch_spec [OF rel] id(1) have
    "tab w' = tdel collectionTicketAssignments (set (match_MatchRequestIds mt)) (tab v)" by simp
  then have "tab w' collectionTicketAssignments =
      tab v collectionTicketAssignments |` (- set (match_MatchRequestIds mt))" by simp
  moreover from v have "tab v collectionTicketAssignments = tab w collectionTicketAssignments \<or>
      tab v collectionTicketAssignments = tab w collectionTicketAssignments ++ links mt"
    by (auto simp: match_residue_def)
  ultimately show ?thesis using links_undo [OF free(1)] links_free_restrict [OF free(1)] by metis
qed

text \<open>With clients that do not fail, the answer is whether the tickets were free.\<close>

lemma CreateMatch_result:
  assumes store: "store_reliable (tm_kvStore m)"
    and stream: "stream_reliable rt (tm_streamClient m)"
    and marshal: "\<forall>mt. \<exists>b. rt_marshal_Match rt mt = Inr b"
  shows "\<exists>w'. CreateMatch rt (matches_manager_of rt m) (Some mt0) w =
    (Ret (Inr (links_free (tab w) mt0)), w')"
proof -
  obtain r w' where run: "CreateMatch rt (matches_manager_of rt m) (Some mt0) w = (r, w')" by force
  from CreateMatch_spec [OF run] obtain mt where
    mt: "mt = mt0\<lparr>match_MatchId := match_MatchId mt\<rparr>" and
    ok: "\<forall>b. r = Ret (Inr b) \<longrightarrow> b = links_free (tab w) mt"
    by (force split: bool.splits)
  have "match_MatchRequestIds mt = match_MatchRequestIds mt0"
    by (subst mt) simp
  then have free: "links_free (tab w) mt = links_free (tab w) mt0" by (simp add: links_free_def)
  have persist: "\<exists>v'. CreateMatch_persist rt (matches_manager_of rt m) q v = (Ret (Inr True), v')" for q v
  proof -
    obtain b where b: "rt_marshal_Match rt q = Inr b" using marshal by blast
    obtain v1 where "Store_Set (tm_kvStore m) collectionMatch (match_MatchId q) (IBytes b) 0 v = (Ret None, v1)"
      using store by (metis store_reliable_def)
    moreover obtain v2 where
      "SendMessage (tm_streamClient m) GetUnassignedMatchesTopic (match_MatchId q) v1 = (Ret None, v2)"
      using stream by (metis stream_reliable_def)
    ultimately show ?thesis
      using b by (simp add: CreateMatch_persist_def defer_on_error_def go_bind_def)
  qed
  then have owned: "\<exists>v'. CreateMatch_owned rt (matches_manager_of rt m) q v = (Ret (Inr True), v')" for q v
    unfolding CreateMatch_owned_def defer_on_error_def go_bind_def
    by (metis (no_types, lifting) go.case(1) go_return_apply old.prod.case sum.case(2))
  have assign: "\<exists>b v'. AssignMatchRequestsToMatch m (Some q) v = (Ret (Inr b), v')" for q v
  proof (cases "match_MatchRequestIds q = []")
    case True
    then show ?thesis by (auto simp: AssignMatchRequestsToMatch_def)
  next
    case False
    let ?al = "fold (\<lambda>t al. fmupd t (IString (match_MatchId q)) al) (match_MatchRequestIds q) fmempty"
    have "fmlookup ?al (hd (match_MatchRequestIds q)) \<noteq> None"
      using False by (simp add: fold_fmupd_const)
    then have "?al \<noteq> fmempty" by auto
    with False store show ?thesis by (simp add: AssignMatchRequestsToMatch_def store_reliable_def)
  qed
  have "\<exists>b v'. go_bind (AssignMatchRequestsToMatch m (Some q)) (\<lambda>res.
      case res of
        Inl err \<Rightarrow> go_return (Inl err)
      | Inr successful \<Rightarrow>
          if \<not> successful then go_return (Inr False)
          else CreateMatch_owned rt (matches_manager_of rt m) q) v = (Ret (Inr b), v')" for q v
  proof -
    obtain b v1 where "AssignMatchRequestsToMatch m (Some q) v = (Ret (Inr b), v1)" using assign by blast
    then show ?thesis using owned [of q v1] by (cases b) (auto simp: go_bind_Ret)
  qed
  then have "\<exists>b v'. CreateMatch rt (matches_manager_of rt m) (Some mt0) w = (Ret (Inr b), v')"
    by (cases "match_MatchId mt0 = []") (simp_all add: CreateMatch_def go_bind_def call_def split: prod.splits)
  with run ok free show ?thesis by auto
qed

lemma GetMatch_spec:
  assumes "GetMatch rt (matches_manager_of rt m) k w = (r, w')"
  shows "tab w' = tab w \<and> rest w' = rest w \<and> log w' = log w \<and>
    (\<exists>x. r = Ret x \<and> (\<forall>mt. x = Inr mt \<longrightarrow> match_at rt (tab w) k = Some mt))"
proof -
  obtain x w1 where g: "Store_Get (tm_kvStore m) collectionMatch k w = (Ret x, w1)"
    "(log w1, rest w1) = (log w, rest w)" "tab w1 = tab w"
    "\<forall>b. x = Inr b \<longrightarrow> tab w collectionMatch k = Some b"
    using kv_get [OF plain_matches] by (metis prod.exhaust)
  with assms show ?thesis
    by (auto simp: GetMatch_def go_bind_Ret match_at_Some split: sum.splits)
qed

lemma read_match_spec:
  assumes "read_match rt (matches_manager_of rt m) data (w, fr) = (r, (w', fr'))"
  shows "tab w' = tab w \<and> log w' = log w \<and> rest w' = rest w \<and> (\<exists>e. r = Ret e \<and>
    (\<forall>mt. fr_match fr' = Some mt \<longrightarrow> match_at rt (tab w) data = Some mt))"
proof -
  obtain q w1 where g: "GetMatch rt (matches_manager_of rt m) data w = (q, w1)" by force
  from GetMatch_spec [OF g] obtain x where x: "q = Ret x" "tab w1 = tab w" "rest w1 = rest w"
    "log w1 = log w" "\<forall>mt. x = Inr mt \<longrightarrow> match_at rt (tab w) data = Some mt" by blast
  have "read_match rt (matches_manager_of rt m) data (w, fr) =
    (case x of Inl err \<Rightarrow> (Ret (Some err), (w1, fr\<lparr>fr_match := None\<rparr>))
     | Inr mt \<Rightarrow> (Ret None, (w1, fr\<lparr>fr_match := Some mt\<rparr>)))"
    by (simp add: read_match_def g x(1) split: sum.split)
  with assms have eq: "(r, (w', fr')) =
    (case x of Inl err \<Rightarrow> (Ret (Some err), (w1, fr\<lparr>fr_match := None\<rparr>))
     | Inr mt \<Rightarrow> (Ret None, (w1, fr\<lparr>fr_match := Some mt\<rparr>)))" by (metis (no_types))
  show ?thesis
  proof (cases x)
    case (Inl err)
    with eq x show ?thesis by simp
  next
    case (Inr mt)
    with eq x show ?thesis by simp
  qed
qed

text \<open>The callback is \<open>f\<close> on the stored match, or on \<open>nil\<close> when it could not be read.\<close>

lemma StreamMatches_callback_spec:
  "\<exists>x w1. StreamMatches_callback rt (matches_manager_of rt m) ctx f data w = f x w1 \<and>
    tab w1 = tab w \<and> log w1 = log w \<and> rest w1 = rest w \<and>
    (\<forall>mt. x = Some mt \<longrightarrow> match_at rt (tab w) data = Some mt)"
proof -
  let ?mm = "matches_manager_of rt m"
  obtain r w' where run: "RetryCapture rt ctx (read_match rt ?mm data) [Exponential] w = (r, w')" by force
  let ?I = "\<lambda>v fr. tab v = tab w \<and> log v = log w \<and> rest v = rest w"
  have "\<exists>w1 fr1 fr. ?I w1 fr1 \<and>
    (r = Ret (None, fr) \<and> read_match rt ?mm data (w1, fr1) = (Ret None, (w', fr)) \<or>
     (\<exists>e e'. r = Ret (Some e', fr) \<and> read_match rt ?mm data (w1, fr1) = (Ret (Some e), (w', fr))) \<or>
     (\<exists>p. r = Panic p \<and> read_match rt ?mm data (w1, fr1) = (Panic p, (w', fr))) \<or>
     r = Blocked \<and> read_match rt ?mm data (w1, fr1) = (Blocked, (w', fr)))"
    by (rule RetryCapture_last [where I = ?I, OF run]) (auto dest!: read_match_spec)
  then obtain w1 fr1 fr where I: "?I w1 fr1" and
    c: "r = Ret (None, fr) \<and> read_match rt ?mm data (w1, fr1) = (Ret None, (w', fr)) \<or>
     (\<exists>e e'. r = Ret (Some e', fr) \<and> read_match rt ?mm data (w1, fr1) = (Ret (Some e), (w', fr))) \<or>
     (\<exists>p. r = Panic p \<and> read_match rt ?mm data (w1, fr1) = (Panic p, (w', fr))) \<or>
     r = Blocked \<and> read_match rt ?mm data (w1, fr1) = (Blocked, (w', fr))"
    by blast
  from c have "\<exists>e q. r = Ret (e, fr) \<and> read_match rt ?mm data (w1, fr1) = (q, (w', fr))"
    by (elim disjE conjE exE) (auto dest: read_match_spec)
  then obtain e q where e: "r = Ret (e, fr)" "read_match rt ?mm data (w1, fr1) = (q, (w', fr))" by blast
  have "StreamMatches_callback rt ?mm ctx f data w = f (fr_match fr) w'"
    using run e(1) unfolding StreamMatches_callback_def read_match_def by (simp add: go_bind_def)
  with read_match_spec [OF e(2)] I show ?thesis by auto
qed

text \<open>A stored match that can be read is handed to \<open>f\<close>.\<close>

lemma StreamMatches_callback_ok:
  assumes "reads_reliable (tm_kvStore m) tab" and "match_at rt (tab w) data = Some mt"
  shows "\<exists>w1. StreamMatches_callback rt (matches_manager_of rt m) ctx f data w = f (Some mt) w1 \<and>
    tab w1 = tab w \<and> log w1 = log w \<and> rest w1 = rest w"
proof -
  from assms(2) obtain b where b: "tab w collectionMatch data = Some b" "rt_unmarshal_Match rt b = Inr mt"
    by (auto simp: match_at_Some)
  with assms(1) obtain b' w1 where g: "Store_Get (tm_kvStore m) collectionMatch data w = (Ret (Inr b'), w1)"
    by (metis option.distinct(1) reads_reliable_def)
  from kv_get [OF plain_matches g] b(1) have k: "b' = b" "tab w1 = tab w" "log w1 = log w" "rest w1 = rest w"
    by auto
  have "GetMatch rt (matches_manager_of rt m) data w = (Ret (Inr mt), w1)"
    using g k b(2) by (simp add: GetMatch_def go_bind_Ret)
  then have "read_match rt (matches_manager_of rt m) data (w, frame0) =
      (Ret None, (w1, frame0\<lparr>fr_match := Some mt\<rparr>))" by (simp add: read_match_def)
  from RetryCapture_first [where f = "read_match rt (matches_manager_of rt m) data", OF this]
  have "StreamMatches_callback rt (matches_manager_of rt m) ctx f data w = f (Some mt) w1"
    unfolding StreamMatches_callback_def read_match_def [symmetric]
    by (simp add: go_bind_def frame0_def)
  with k show ?thesis by blast
qed

end

end
