(* ===== verification/Deployment.thy ===== *)
theory Deployment
  imports Matches_Laws
begin

text \<open>
  The composition that the services run: the ticket manager over the Redis store, the NATS
  stream and the NATS pub-sub. The locale \<open>deployment\<close> assumes the documented behaviour of what is
  not in the repository (the Redis commands, the NATS connection, the Go runtime and its
  libraries) and nothing of the repository's own code; that the composition is an environment of
  the ticket manager is proved (\<open>sublocale\<close>).
\<close>

definition deployed_tickets_manager ::
  "'w runtime \<Rightarrow> 'w redis_cli \<Rightarrow> 'w nats_Conn \<Rightarrow> string \<Rightarrow> string \<Rightarrow> ('w \<Rightarrow> nat list) \<Rightarrow>
    (nat list \<Rightarrow> 'w \<Rightarrow> 'w) \<Rightarrow> 'w tickets_manager" where
  "deployed_tickets_manager rt R nc pfx grp subs set_subs =
    \<lparr>tm_kvStore = NewRedis (rt_order rt) pfx R,
     tm_streamClient = stream_NATS_Client
       \<lparr>nats_nc = nc, nats_group = grp, nats_subs = subs, nats_set_subs = set_subs\<rparr>,
     tm_pubsubClient = pubsub_NATS_Client rt nc\<rparr>"

text \<open>The tables that the key space \<open>db\<close> holds.\<close>

definition deployed_tables :: "('w \<Rightarrow> string \<rightharpoonup> bytes) \<Rightarrow> string \<Rightarrow> 'w \<Rightarrow> table" where
  "deployed_tables db pfx w = redis_table pfx (db w)"

locale deployment =
  redis_store R db "\<lambda>w. (log w, rest w)" "rt_order rt" pfx +
  nats_stream nc log "\<lambda>w. (deployed_tables db pfx w, rest w)" grp subs set_subs +
  nats_pubsub nc log "\<lambda>w. (deployed_tables db pfx w, rest w)" rt +
  go_runtime rt "\<lambda>w. (deployed_tables db pfx w, log w, rest w)"
  for rt :: "'w runtime" and R :: "'w redis_cli" and db :: "'w \<Rightarrow> string \<rightharpoonup> bytes"
    and nc :: "'w nats_Conn" and log :: "'w \<Rightarrow> message_log" and rest :: "'w \<Rightarrow> 'r"
    and pfx grp :: string and subs :: "'w \<Rightarrow> nat list" and set_subs :: "nat list \<Rightarrow> 'w \<Rightarrow> 'w"
begin

lemma plain_collections:
  "plain_name collectionTickets" "plain_name collectionTicketAssignments" "plain_name collectionMatch"
  by (simp_all add: plain_name_def collectionTickets_def collectionTicketAssignments_def
      collectionMatch_def)

sublocale tickets: tickets_env rt "deployed_tickets_manager rt R nc pfx grp subs set_subs"
  "deployed_tables db pfx" log rest plain_name
proof -
  have kv: "kv_store (NewRedis (rt_order rt) pfx R) (deployed_tables db pfx) (\<lambda>w. (log w, rest w)) plain_name"
    unfolding deployed_tables_def by (rule kv.kv_store_axioms)
  show "tickets_env rt (deployed_tickets_manager rt R nc pfx grp subs set_subs)
      (deployed_tables db pfx) log rest plain_name"
    unfolding tickets_env_def tickets_env_axioms_def deployed_tickets_manager_def
      tickets_manager.select_convs
    using kv stream.stream_client_axioms pubsub.pubsub_client_axioms go_runtime_axioms
      plain_collections by blast
qed

sublocale matches: matches_env rt "deployed_tickets_manager rt R nc pfx grp subs set_subs"
  "deployed_tables db pfx" log rest plain_name
  by unfold_locales (rule plain_collections)

end

end
