(* ===== verification/Codec.thy ===== *)
theory Codec
  imports Messages "HOL-Library.Char_ord" "HOL-Library.List_Lexorder"
begin

text \<open>
  A byte encoding of the messages that parses back to the message it came from. It stands for
  the protobuf encoding where a concrete one is needed, to run the model: numbers in unary,
  lists and strings with their length in front, the fields of a message one after the other.
\<close>

section \<open>Encodings that parse back\<close>

type_synonym 'a enc = "'a \<Rightarrow> bytes"
type_synonym 'a dec = "bytes \<Rightarrow> ('a \<times> bytes) option"

definition codec :: "'a enc \<Rightarrow> 'a dec \<Rightarrow> bool" where
  "codec e d \<longleftrightarrow> (\<forall>a s. d (e a @ s) = Some (a, s))"

named_theorems codec_intro \<open>encodings that parse back\<close>

lemma codecD: "codec e d \<Longrightarrow> d (e a @ s) = Some (a, s)"
  by (simp add: codec_def)

definition enc_nat :: "nat enc" where
  "enc_nat n = replicate n CHR ''1'' @ ''0''"

fun dec_nat :: "nat dec" where
  "dec_nat [] = None"
| "dec_nat (c # cs) =
    (if c = CHR ''1'' then map_option (\<lambda>(n, s). (Suc n, s)) (dec_nat cs) else Some (0, cs))"

lemma codec_nat [codec_intro]: "codec enc_nat dec_nat"
proof -
  have "dec_nat (replicate n CHR ''1'' @ ''0'' @ s) = Some (n, s)" for n s by (induction n) auto
  then show ?thesis by (simp add: codec_def enc_nat_def)
qed

definition enc_string :: "string enc" where
  "enc_string s = enc_nat (length s) @ s"

definition dec_string :: "string dec" where
  "dec_string b = (case dec_nat b of None \<Rightarrow> None | Some (n, s) \<Rightarrow> Some (take n s, drop n s))"

lemma codec_string [codec_intro]: "codec enc_string dec_string"
  by (simp add: codec_def enc_string_def dec_string_def codecD [OF codec_nat])

text \<open>Words go through their unsigned value.\<close>

definition enc_word :: "'l::len word enc" where
  "enc_word w = enc_nat (unat w)"

definition dec_word :: "'l::len word dec" where
  "dec_word b = map_option (\<lambda>(n, s). (word_of_nat n, s)) (dec_nat b)"

lemma codec_word [codec_intro]: "codec enc_word dec_word"
  by (simp add: codec_def enc_word_def dec_word_def codecD [OF codec_nat])

definition enc_pair :: "'a enc \<Rightarrow> 'b enc \<Rightarrow> ('a \<times> 'b) enc" where
  "enc_pair ea eb = (\<lambda>(a, b). ea a @ eb b)"

definition dec_pair :: "'a dec \<Rightarrow> 'b dec \<Rightarrow> ('a \<times> 'b) dec" where
  "dec_pair da db b = (case da b of None \<Rightarrow> None | Some (x, s) \<Rightarrow>
    (case db s of None \<Rightarrow> None | Some (y, s') \<Rightarrow> Some ((x, y), s')))"

lemma codec_pair [codec_intro]: "codec ea da \<Longrightarrow> codec eb db \<Longrightarrow> codec (enc_pair ea eb) (dec_pair da db)"
  by (auto simp: codec_def enc_pair_def dec_pair_def)

fun dec_times :: "'a dec \<Rightarrow> nat \<Rightarrow> 'a list dec" where
  "dec_times d 0 s = Some ([], s)"
| "dec_times d (Suc n) s = (case d s of None \<Rightarrow> None | Some (x, s') \<Rightarrow>
    map_option (\<lambda>(xs, r). (x # xs, r)) (dec_times d n s'))"

definition enc_list :: "'a enc \<Rightarrow> 'a list enc" where
  "enc_list e xs = enc_nat (length xs) @ concat (map e xs)"

definition dec_list :: "'a dec \<Rightarrow> 'a list dec" where
  "dec_list d b = (case dec_nat b of None \<Rightarrow> None | Some (n, s) \<Rightarrow> dec_times d n s)"

lemma codec_list [codec_intro]:
  assumes "codec e d" shows "codec (enc_list e) (dec_list d)"
proof -
  have "dec_times d (length xs) (concat (map e xs) @ s) = Some (xs, s)" for xs s
    by (induction xs) (simp_all add: codecD [OF assms])
  then show ?thesis by (simp add: codec_def enc_list_def dec_list_def codecD [OF codec_nat])
qed

text \<open>Encoding through another type.\<close>

definition dec_via :: "('a \<Rightarrow> 'b) \<Rightarrow> 'a dec \<Rightarrow> 'b dec" where
  "dec_via g d b = map_option (\<lambda>(a, s). (g a, s)) (d b)"

lemma codec_via: "codec e d \<Longrightarrow> (\<And>b. g (f b) = b) \<Longrightarrow> codec (\<lambda>b. e (f b)) (dec_via g d)"
  by (simp add: codec_def dec_via_def)

definition list_of_option :: "'a option \<Rightarrow> 'a list" where
  "list_of_option x = (case x of None \<Rightarrow> [] | Some a \<Rightarrow> [a])"

definition option_of_list :: "'a list \<Rightarrow> 'a option" where
  "option_of_list xs = (case xs of [] \<Rightarrow> None | a # _ \<Rightarrow> Some a)"

definition enc_option :: "'a enc \<Rightarrow> 'a option enc" where
  "enc_option e = (\<lambda>x. enc_list e (list_of_option x))"

definition dec_option :: "'a dec \<Rightarrow> 'a option dec" where
  "dec_option d = dec_via option_of_list (dec_list d)"

lemma codec_option [codec_intro]: "codec e d \<Longrightarrow> codec (enc_option e) (dec_option d)"
  unfolding enc_option_def dec_option_def
  by (rule codec_via, rule codec_list)
    (auto simp: list_of_option_def option_of_list_def split: option.splits)

definition pairs_of_map :: "'v gomap \<Rightarrow> (string \<times> 'v) list" where
  "pairs_of_map m = map (\<lambda>k. (k, the (fmlookup m k))) (sorted_list_of_fset (fmdom m))"

lemma fmap_of_pairs: "fmap_of_list (pairs_of_map m) = m"
proof (rule fmap_ext)
  fix k
  show "fmlookup (fmap_of_list (pairs_of_map m)) k = fmlookup m k"
  proof (cases "fmlookup m k")
    case None
    then have "k |\<notin>| fmdom m" by (simp add: fmlookup_dom_iff)
    with None show ?thesis
      by (auto simp: fmlookup_of_list pairs_of_map_def map_of_eq_None_iff image_iff)
  next
    case (Some v)
    then have "k |\<in>| fmdom m" by (metis fmdomI)
    then have "(k, v) \<in> set (pairs_of_map m)" using Some by (auto simp: pairs_of_map_def)
    moreover have "distinct (map fst (pairs_of_map m))"
      by (simp add: pairs_of_map_def comp_def sorted_list_of_fset.rep_eq)
    ultimately show ?thesis using Some by (simp add: fmlookup_of_list)
  qed
qed

definition enc_map :: "'v enc \<Rightarrow> 'v gomap enc" where
  "enc_map e = (\<lambda>m. enc_list (enc_pair enc_string e) (pairs_of_map m))"

definition dec_map :: "'v dec \<Rightarrow> 'v gomap dec" where
  "dec_map d = dec_via fmap_of_list (dec_list (dec_pair dec_string d))"

lemma codec_map [codec_intro]: "codec e d \<Longrightarrow> codec (enc_map e) (dec_map d)"
  unfolding enc_map_def dec_map_def
  by (rule codec_via) (intro codec_intro fmap_of_pairs | assumption)+

section \<open>The messages\<close>

definition marshal :: "'a enc \<Rightarrow> 'a \<Rightarrow> error + bytes" where
  "marshal e a = Inr (e a)"

definition unmarshal :: "'a dec \<Rightarrow> bytes \<Rightarrow> error + 'a" where
  "unmarshal d b = (case d b of Some (a, []) \<Rightarrow> Inr a | _ \<Rightarrow> Inl (ErrExt ''proto: cannot parse''))"

lemma unmarshal_marshal: "codec e d \<Longrightarrow> marshal e a = Inr b \<Longrightarrow> unmarshal d b = Inr a"
  using codecD [of e d a "[]"] by (auto simp: marshal_def unmarshal_def)

definition StreamTicket_codec :: "StreamTicket enc \<times> StreamTicket dec" where
  "StreamTicket_codec =
    ((\<lambda>st. enc_pair enc_string (enc_pair enc_string enc_word)
        (st_MatchmakingQueue st, st_MatchRequestId st, st_NumberOfPlayers st)),
     dec_via (\<lambda>(q, i, n). \<lparr>st_MatchmakingQueue = q, st_MatchRequestId = i, st_NumberOfPlayers = n\<rparr>)
       (dec_pair dec_string (dec_pair dec_string dec_word)))"

definition Accumulated_codec :: "AccumulatedStreamTicket enc \<times> AccumulatedStreamTicket dec" where
  "Accumulated_codec =
    ((\<lambda>a. enc_list (fst StreamTicket_codec) (ast_StreamTickets a)),
     dec_via (\<lambda>sts. \<lparr>ast_StreamTickets = sts\<rparr>) (dec_list (snd StreamTicket_codec)))"

definition db_RTT_codec :: "db_RTT enc \<times> db_RTT dec" where
  "db_RTT_codec =
    ((\<lambda>r. enc_pair enc_string enc_word (dbrtt_Host r, dbrtt_Milliseconds r)),
     dec_via (\<lambda>(h, n). \<lparr>dbrtt_Host = h, dbrtt_Milliseconds = n\<rparr>) (dec_pair dec_string dec_word))"

definition api_RTT_codec :: "api_RTT enc \<times> api_RTT dec" where
  "api_RTT_codec =
    ((\<lambda>r. enc_pair enc_string enc_word (rtt_Host r, rtt_Milliseconds r)),
     dec_via (\<lambda>(h, n). \<lparr>rtt_Host = h, rtt_Milliseconds = n\<rparr>) (dec_pair dec_string dec_word))"

definition db_MatchRequestData_codec :: "db_MatchRequestData enc \<times> db_MatchRequestData dec" where
  "db_MatchRequestData_codec =
    ((\<lambda>d. enc_pair (enc_map enc_word) (enc_pair (enc_map enc_string)
        (enc_pair (enc_list enc_string) enc_string))
        (dbmd_Doubles d, dbmd_Strings d, dbmd_Tags d, dbmd_ExtraData d)),
     dec_via (\<lambda>(x, s, t, e). \<lparr>dbmd_Doubles = x, dbmd_Strings = s, dbmd_Tags = t, dbmd_ExtraData = e\<rparr>)
       (dec_pair (dec_map dec_word) (dec_pair (dec_map dec_string)
         (dec_pair (dec_list dec_string) dec_string))))"

definition db_GameServer_codec :: "db_GameServer enc \<times> db_GameServer dec" where
  "db_GameServer_codec =
    ((\<lambda>g. enc_pair enc_string (enc_list (enc_pair enc_string enc_word))
        (dbgs_GameServerIp g, map (\<lambda>p. (dbport_Name p, dbport_Port p)) (dbgs_GameServerPorts g))),
     dec_via (\<lambda>(i, ps). \<lparr>dbgs_GameServerIp = i,
         dbgs_GameServerPorts = map (\<lambda>(n, p). \<lparr>dbport_Name = n, dbport_Port = p\<rparr>) ps\<rparr>)
       (dec_pair dec_string (dec_list (dec_pair dec_string dec_word))))"

definition MatchRequest_codec :: "db_MatchRequest enc \<times> db_MatchRequest dec" where
  "MatchRequest_codec =
    ((\<lambda>r. enc_pair enc_string (enc_pair (enc_list enc_string)
        (enc_pair (enc_option (fst db_MatchRequestData_codec)) (enc_pair enc_string
        (enc_pair (enc_list (fst db_RTT_codec)) (enc_pair enc_word
        (enc_option (fst db_GameServer_codec)))))))
        (dbreq_Id r, dbreq_Members r, dbreq_MatchRequestData r, dbreq_MatchmakingQueue r,
         dbreq_Rtts r, dbreq_CreateTime r, dbreq_GameServer r)),
     dec_via (\<lambda>(i, ms, d, q, rs, t, g). \<lparr>dbreq_Id = i, dbreq_Members = ms,
         dbreq_MatchRequestData = d, dbreq_MatchmakingQueue = q, dbreq_Rtts = rs,
         dbreq_CreateTime = t, dbreq_GameServer = g\<rparr>)
       (dec_pair dec_string (dec_pair (dec_list dec_string)
        (dec_pair (dec_option (snd db_MatchRequestData_codec)) (dec_pair dec_string
        (dec_pair (dec_list (snd db_RTT_codec)) (dec_pair dec_word
        (dec_option (snd db_GameServer_codec)))))))))"

definition Match_codec :: "api_Match enc \<times> api_Match dec" where
  "Match_codec =
    ((\<lambda>mt. enc_pair enc_string (enc_pair enc_string (enc_pair (enc_list enc_string)
        (enc_pair (enc_list enc_string) (enc_list (fst api_RTT_codec)))))
        (match_MatchId mt, match_MatchmakingQueue mt, match_MatchRequestIds mt,
         match_PlayerIds mt, match_Rtts mt)),
     dec_via (\<lambda>(i, q, rs, ps, ts). \<lparr>match_MatchId = i, match_MatchmakingQueue = q,
         match_MatchRequestIds = rs, match_PlayerIds = ps, match_Rtts = ts\<rparr>)
       (dec_pair dec_string (dec_pair dec_string (dec_pair (dec_list dec_string)
         (dec_pair (dec_list dec_string) (dec_list (snd api_RTT_codec)))))))"

lemma codec_StreamTicket [codec_intro]: "codec (fst StreamTicket_codec) (snd StreamTicket_codec)"
  unfolding StreamTicket_codec_def fst_conv snd_conv by (rule codec_via) (intro codec_intro, simp)

lemma codec_Accumulated [codec_intro]: "codec (fst Accumulated_codec) (snd Accumulated_codec)"
  unfolding Accumulated_codec_def fst_conv snd_conv by (rule codec_via) (intro codec_intro, simp)

lemma codec_db_RTT [codec_intro]: "codec (fst db_RTT_codec) (snd db_RTT_codec)"
  unfolding db_RTT_codec_def fst_conv snd_conv by (rule codec_via) (intro codec_intro, simp)

lemma codec_api_RTT [codec_intro]: "codec (fst api_RTT_codec) (snd api_RTT_codec)"
  unfolding api_RTT_codec_def fst_conv snd_conv by (rule codec_via) (intro codec_intro, simp)

lemma codec_db_MatchRequestData [codec_intro]:
  "codec (fst db_MatchRequestData_codec) (snd db_MatchRequestData_codec)"
  unfolding db_MatchRequestData_codec_def fst_conv snd_conv
  by (rule codec_via) (intro codec_intro, simp)

lemma codec_db_GameServer [codec_intro]: "codec (fst db_GameServer_codec) (snd db_GameServer_codec)"
proof -
  have "(\<lambda>p. \<lparr>dbport_Name = dbport_Name p, dbport_Port = dbport_Port p\<rparr>) = (\<lambda>p. p)" by auto
  then show ?thesis unfolding db_GameServer_codec_def fst_conv snd_conv
    by (intro codec_via codec_intro) (simp add: comp_def)
qed

lemma codec_MatchRequest: "codec (fst MatchRequest_codec) (snd MatchRequest_codec)"
  unfolding MatchRequest_codec_def fst_conv snd_conv by (rule codec_via) (intro codec_intro, simp)

lemma codec_Match: "codec (fst Match_codec) (snd Match_codec)"
  unfolding Match_codec_def fst_conv snd_conv by (rule codec_via) (intro codec_intro, simp)

end
