(* ===== verification/Platform.thy ===== *)
theory Platform
  imports Deployment Codec
begin

text \<open>
  One concrete platform, on which the model runs: a key value server, a message server and a Go
  runtime in memory, with a choice of which commands fail and how. It is not a model of code of
  the repository: it shows that the hypotheses of the development can hold together, and the
  concrete runs of the development take place on it.
\<close>

section \<open>The world\<close>

text \<open>What a client has sent on a connection and the server has not yet taken.\<close>

datatype in_flight = MatchCall api_MatchRequest | MakeMatchesCall api_MakeMatchesRequest

record world =
  w_db :: "(string \<times> bytes) list"
  w_log :: message_log
  w_subs :: "nat list"
  w_next :: nat
  w_done :: "nat list"
  w_out :: "api_MatchResponse list"
  w_calls :: "in_flight list"

definition world0 :: world where
  "world0 = \<lparr>w_db = [], w_log = [], w_subs = [], w_next = 0, w_done = [], w_out = [], w_calls = []\<rparr>"

definition world_db :: "world \<Rightarrow> string \<rightharpoonup> bytes" where
  "world_db w = map_of (w_db w)"

text \<open>A command works, is refused, or is run with its reply lost.\<close>

datatype fault = Works | Refused | LostReply

type_synonym faults = "string \<Rightarrow> fault"

section \<open>The key value server\<close>

definition mem_write :: "fault \<Rightarrow> ((string \<times> bytes) list \<Rightarrow> (string \<times> bytes) list) \<Rightarrow>
    world \<Rightarrow> error option \<times> world" where
  "mem_write f g w = (case f of
      Works \<Rightarrow> (None, w\<lparr>w_db := g (w_db w)\<rparr>)
    | Refused \<Rightarrow> (Some (ErrExt ''refused''), w)
    | LostReply \<Rightarrow> (Some (ErrExt ''timeout''), w\<lparr>w_db := g (w_db w)\<rparr>))"

definition mem_write_nx :: "fault \<Rightarrow> bool \<Rightarrow> ((string \<times> bytes) list \<Rightarrow> (string \<times> bytes) list) \<Rightarrow>
    world \<Rightarrow> (error + bool) \<times> world" where
  "mem_write_nx f free g w = (case f of
      Works \<Rightarrow> (Inr free, if free then w\<lparr>w_db := g (w_db w)\<rparr> else w)
    | Refused \<Rightarrow> (Inl (ErrExt ''refused''), w)
    | LostReply \<Rightarrow> (Inl (ErrExt ''timeout''), if free then w\<lparr>w_db := g (w_db w)\<rparr> else w))"

definition mem_read :: "fault \<Rightarrow> 'a \<Rightarrow> world \<Rightarrow> (error + 'a) \<times> world" where
  "mem_read f x w = (if f = Works then (Inr x, w) else (Inl (ErrExt ''refused''), w))"

definition wire_pairs :: "iface gomap \<Rightarrow> (string \<times> bytes) list" where
  "wire_pairs m = map (\<lambda>(k, v). (k, wire v)) (pairs_of_map m)"

definition mem_redis :: "faults \<Rightarrow> world redis_cli" where
  "mem_redis flt =
    \<lparr>cli_Set = (\<lambda>k v d. mem_write (flt ''SET'') (\<lambda>db. (k, wire v) # db)),
     cli_MSet = (\<lambda>m w. if m = fmempty then (Some (ErrExt ''wrong number of arguments''), w)
       else mem_write (flt ''MSET'') (\<lambda>db. wire_pairs m @ db) w),
     cli_MSetNX = (\<lambda>m w. mem_write_nx (flt ''MSETNX'')
       (list_all (\<lambda>(k, v). map_of (w_db w) k = None) (wire_pairs m)) (\<lambda>db. wire_pairs m @ db) w),
     cli_SetNX = (\<lambda>k v d w. mem_write_nx (flt ''SETNX'') (map_of (w_db w) k = None)
       (\<lambda>db. (k, wire v) # db) w),
     cli_Keys = (\<lambda>p w. mem_read (flt ''KEYS'')
       (filter (\<lambda>k. prefix (butlast p) k) (map fst (w_db w))) w),
     cli_Get = (\<lambda>k w. case map_of (w_db w) k of
         None \<Rightarrow> (Inl ErrRedisNil, w) | Some b \<Rightarrow> mem_read (flt ''GET'') b w),
     cli_MGet = (\<lambda>ks w. mem_read (flt ''MGET'') (map (\<lambda>k. mget_reply (map_of (w_db w) k)) ks) w),
     cli_Del = (\<lambda>ks. mem_write (flt ''DEL'') (filter (\<lambda>(k, v). k \<notin> set ks))),
     cli_ZAdd = (\<lambda>k ms w. (None, w)),
     cli_ZRangeByScore = (\<lambda>k r w. (Inr [], w)),
     cli_ZRem = (\<lambda>k ms w. (None, w)),
     cli_SAdd = (\<lambda>k ms w. (None, w)),
     cli_SMembers = (\<lambda>k w. (Inr [], w)),
     cli_SRem = (\<lambda>k ms w. (None, w)),
     cli_SPopN = (\<lambda>k n w. (Inr [], w)),
     cli_Close = (\<lambda>w. ((), w))\<rparr>"

section \<open>The message server\<close>

definition mem_nats :: "faults \<Rightarrow> world nats_Conn" where
  "mem_nats flt =
    \<lparr>nc_Publish = (\<lambda>t b w. if flt ''PUB'' = Works then (None, w\<lparr>w_log := w_log w @ [(t, b)]\<rparr>)
       else (Some (ErrExt ''nats: connection closed''), w)),
     nc_QueueSubscribe = (\<lambda>t g w. (Inr (length (w_subs w)), w)),
     nc_Subscribe = (\<lambda>t w. (Inr (length (w_subs w)), w)),
     nc_Drain = (\<lambda>w. (None, w)),
     sub_Unsubscribe = (\<lambda>n w. (None, w)),
     sub_Drain = (\<lambda>n w. (None, w))\<rparr>"

section \<open>The runtime\<close>

text \<open>A retry loop with the documented behaviour that gives up after \<open>n\<close> failures.\<close>

fun retry_times :: "nat \<Rightarrow> 's retry_loop" where
  "retry_times 0 b f s = f s"
| "retry_times (Suc n) b f s =
    (case f s of (Ret (Some e), s') \<Rightarrow> retry_times n b f s' | (r, s') \<Rightarrow> (r, s'))"

definition mem_runtime :: "world runtime" where
  "mem_runtime =
    \<lparr>rt_Retry = retry_times 2,
     rt_order = (\<lambda>w A. sorted_list_of_set A),
     rt_schedule = (\<lambda>w xs. rev xs),
     rt_now = (\<lambda>w. word_of_nat (w_next w)),
     rt_WithCancel = (\<lambda>w. (w_next w,
       w\<lparr>w_next := Suc (w_next w), w_done := removeAll (w_next w) (w_done w)\<rparr>)),
     rt_cancel = (\<lambda>c w. w\<lparr>w_done := c # w_done w\<rparr>),
     rt_done = (\<lambda>c w. c \<in> set (w_done w)),
     rt_xid = (\<lambda>w. (CHR ''x'' # enc_nat (w_next w), w\<lparr>w_next := Suc (w_next w)\<rparr>)),
     rt_marshal_StreamTicket = marshal (fst StreamTicket_codec),
     rt_unmarshal_StreamTicket = unmarshal (snd StreamTicket_codec),
     rt_marshal_Accumulated = marshal (fst Accumulated_codec),
     rt_unmarshal_Accumulated = unmarshal (snd Accumulated_codec),
     rt_marshal_MatchRequest = marshal (fst MatchRequest_codec),
     rt_unmarshal_MatchRequest = unmarshal (snd MatchRequest_codec),
     rt_marshal_Match = marshal (fst Match_codec),
     rt_unmarshal_Match = unmarshal (snd Match_codec)\<rparr>"

section \<open>The platform meets the hypotheses\<close>

lemma retry_times_runs: "retry_times n b f s = (r, s') \<Longrightarrow> retry_run f s r s'"
proof (induction n arbitrary: s)
  case 0
  show ?case
  proof (cases r)
    case (Ret x)
    with 0 show ?thesis by (cases x) (auto intro: retry_run.intros)
  next
    case (Panic p)
    with 0 show ?thesis by (auto intro: retry_run.intros)
  next
    case Blocked
    with 0 show ?thesis by (auto intro: retry_run.intros)
  qed
next
  case (Suc n)
  then show ?case
    by (auto intro: retry_run.intros split: prod.splits go.splits option.splits)
qed

interpretation mem_retry: retry_library "retry_times n"
  by unfold_locales (rule retry_times_runs)

lemma map_of_wire_pairs: "map_of (wire_pairs m) = wires m"
proof (rule ext)
  fix k
  have "map_of (wire_pairs m) k = map_option wire (map_of (pairs_of_map m) k)"
    by (simp add: wire_pairs_def map_of_map)
  also have "map_of (pairs_of_map m) k = fmlookup m k"
    by (metis fmap_of_pairs fmlookup_of_list)
  finally show "map_of (wire_pairs m) k = wires m k" by (simp add: wires_def)
qed

lemma set_wire_pairs: "fst ` set (wire_pairs m) = fmdom' m"
  using dom_map_of_conv_image_fst [of "wire_pairs m"] by (simp add: map_of_wire_pairs)

lemma map_of_filter_keys: "map_of (filter (\<lambda>(k, v). k \<notin> A) kvs) = map_of kvs |` (- A)"
  by (induction kvs) (auto simp: fun_eq_iff restrict_map_def)

lemma mem_write_outcome:
  assumes "mem_write f g w = (e, w')" and "map_of (g (w_db w)) = t1"
  shows "w_log w' = w_log w \<and> w_out w' = w_out w \<and> write_outcome e (world_db w) t1 (world_db w')"
  using assms by (auto simp: mem_write_def world_db_def split: fault.splits)

lemma mem_write_nx_outcome:
  assumes "mem_write_nx f free g w = (e, w')" and "map_of (g (w_db w)) = t1"
  shows "w_log w' = w_log w \<and> w_out w' = w_out w \<and> write_nx_outcome free e (world_db w) t1 (world_db w')"
  using assms by (auto simp: mem_write_nx_def world_db_def split: fault.splits if_splits)

interpretation mem_redis: redis_client "mem_redis flt" world_db "\<lambda>w. (w_log w, w_out w)"
proof
  fix k :: string and v :: iface and w w' :: world and e
  assume "cli_Set (mem_redis flt) k v 0 w = (e, w')"
  then show "(w_log w', w_out w') = (w_log w, w_out w) \<and>
      write_outcome e (world_db w) ((world_db w)(k \<mapsto> wire v)) (world_db w')"
    by (auto simp: mem_redis_def world_db_def [of w] dest!: mem_write_outcome [OF _ refl])
next
  fix m :: "iface gomap" and w w' :: world and e
  assume "cli_MSet (mem_redis flt) m w = (e, w')"
  then show "(w_log w', w_out w') = (w_log w, w_out w) \<and>
      (if m = fmempty then e \<noteq> None \<and> world_db w' = world_db w
       else write_outcome e (world_db w) (world_db w ++ wires m) (world_db w'))"
    by (cases "m = fmempty")
      (auto simp: mem_redis_def world_db_def [of w] world_db_def [of w'] map_of_wire_pairs
        dest!: mem_write_outcome [OF _ refl])
next
  fix k :: string and v :: iface and w w' :: world and ok
  assume "cli_SetNX (mem_redis flt) k v 0 w = (ok, w')"
  then show "(w_log w', w_out w') = (w_log w, w_out w) \<and>
      write_nx_outcome (world_db w k = None) ok (world_db w) ((world_db w)(k \<mapsto> wire v)) (world_db w')"
    by (auto simp: mem_redis_def world_db_def [of w] dest!: mem_write_nx_outcome [OF _ refl])
next
  fix m :: "iface gomap" and w w' :: world and ok
  assume "cli_MSetNX (mem_redis flt) m w = (ok, w')"
  moreover have "list_all (\<lambda>(k, v). map_of (w_db w) k = None) (wire_pairs m) \<longleftrightarrow>
      (\<forall>k \<in> fmdom' m. world_db w k = None)"
    unfolding set_wire_pairs [symmetric] world_db_def by (auto simp: list_all_iff)
  ultimately show "(w_log w', w_out w') = (w_log w, w_out w) \<and>
      write_nx_outcome (\<forall>k \<in> fmdom' m. world_db w k = None) ok (world_db w)
        (world_db w ++ wires m) (world_db w')"
    by (auto simp: mem_redis_def world_db_def [of w] map_of_wire_pairs
        dest!: mem_write_nx_outcome [OF _ refl])
next
  fix p :: string and w w' :: world and xk
  assume "cli_Keys (mem_redis flt) (p @ ''*'') w = (xk, w')"
  then show "(w_log w', w_out w') = (w_log w, w_out w) \<and> world_db w' = world_db w \<and>
      (\<forall>ks. xk = Inr ks \<longrightarrow> set ks = {k \<in> dom (world_db w). prefix p k})"
    by (auto simp: mem_redis_def mem_read_def world_db_def dom_map_of_conv_image_fst
        split: if_splits) (metis fst_conv image_eqI)
next
  fix k :: string and w w' :: world and x
  assume "cli_Get (mem_redis flt) k w = (x, w')"
  then show "(w_log w', w_out w') = (w_log w, w_out w) \<and> world_db w' = world_db w \<and> x \<noteq> Inl ErrNotFound \<and>
      (\<forall>b. x = Inr b \<longrightarrow> world_db w k = Some b) \<and> (x = Inl ErrRedisNil \<longrightarrow> world_db w k = None)"
    by (auto simp: mem_redis_def mem_read_def world_db_def split: if_splits option.splits)
next
  fix ks :: "string list" and w w' :: world and xm
  assume "cli_MGet (mem_redis flt) ks w = (xm, w')"
  then show "(w_log w', w_out w') = (w_log w, w_out w) \<and> world_db w' = world_db w \<and>
      (\<forall>vs. xm = Inr vs \<longrightarrow> vs = map (\<lambda>k. mget_reply (world_db w k)) ks)"
    by (auto simp: mem_redis_def mem_read_def world_db_def split: if_splits)
next
  fix ks :: "string list" and w w' :: world and e
  assume "cli_Del (mem_redis flt) ks w = (e, w')"
  moreover have "map_of (filter (\<lambda>(k, v). k \<notin> set ks) (w_db w)) = world_db w |` (- set ks)"
    unfolding world_db_def by (rule map_of_filter_keys)
  ultimately show "(w_log w', w_out w') = (w_log w, w_out w) \<and>
      write_outcome e (world_db w) (world_db w |` (- set ks)) (world_db w')"
    by (auto simp: mem_redis_def dest!: mem_write_outcome)
qed

definition set_w_subs :: "nat list \<Rightarrow> world \<Rightarrow> world" where
  "set_w_subs ss w = w\<lparr>w_subs := ss\<rparr>"

abbreviation mem_tables :: "world \<Rightarrow> table" where
  "mem_tables \<equiv> deployed_tables world_db ''rivalry''"

interpretation mem_nats: nats_connection "mem_nats flt" w_log "\<lambda>w. (mem_tables w, w_out w)"
  by unfold_locales
    (auto simp: mem_nats_def deployed_tables_def world_db_def split: if_splits)

interpretation mem_stream: nats_stream "mem_nats flt" w_log "\<lambda>w. (mem_tables w, w_out w)"
  "''group''" w_subs set_w_subs
  by unfold_locales (simp_all add: set_w_subs_def deployed_tables_def world_db_def)

interpretation mem_pubsub: nats_pubsub "mem_nats flt" w_log "\<lambda>w. (mem_tables w, w_out w)" mem_runtime
  by unfold_locales

interpretation mem_runtime: go_runtime mem_runtime "\<lambda>w. (mem_tables w, w_log w, w_out w)"
  by unfold_locales
    (auto simp: mem_runtime_def deployed_tables_def world_db_def enumerates_def
      intro: retry_times_runs unmarshal_marshal codec_StreamTicket codec_Accumulated
        codec_MatchRequest codec_Match)

interpretation mem_store: redis_store "mem_redis flt" world_db "\<lambda>w. (w_log w, w_out w)"
  "rt_order mem_runtime" "''rivalry''"
  by unfold_locales (simp_all add: mem_runtime.order glob_literal_def)

interpretation mem_deployment: deployment mem_runtime "mem_redis rf" world_db "mem_nats nf" w_log
  w_out "''rivalry''" "''group''" w_subs set_w_subs
  by unfold_locales

text \<open>The ticket manager on the platform.\<close>

definition mem_tickets :: "faults \<Rightarrow> faults \<Rightarrow> world tickets_manager" where
  "mem_tickets rf nf = deployed_tickets_manager mem_runtime (mem_redis rf) (mem_nats nf)
     ''rivalry'' ''group'' w_subs set_w_subs"

lemma mem_tickets_env:
  "tickets_env mem_runtime (mem_tickets rf nf) mem_tables w_log w_out plain_name"
  unfolding mem_tickets_def by (rule mem_deployment.tickets.tickets_env_axioms)

abbreviation all_works :: faults where
  "all_works \<equiv> (\<lambda>c. Works)"

lemma mem_redis_works:
  "cli_SetNX (mem_redis all_works) k v d w = (Inr b, w') \<longleftrightarrow>
    b = (world_db w k = None) \<and> w' = (if b then w\<lparr>w_db := (k, wire v) # w_db w\<rparr> else w)"
  "\<exists>b w'. cli_MSetNX (mem_redis all_works) m w = (Inr b, w')"
  "m \<noteq> fmempty \<Longrightarrow> \<exists>w'. cli_MSet (mem_redis all_works) m w = (None, w')"
  "cli_MGet (mem_redis all_works) ks w = (Inr (map (\<lambda>k. mget_reply (world_db w k)) ks), w)"
  "\<exists>w'. cli_Del (mem_redis all_works) ks w = (None, w')"
  "\<exists>w'. cli_Set (mem_redis all_works) k v d w = (None, w')"
  by (auto simp: mem_redis_def mem_write_def mem_write_nx_def mem_read_def world_db_def)

lemma mem_store_reliable: "store_reliable (tm_kvStore (mem_tickets all_works nf))"
  unfolding store_reliable_def mem_tickets_def deployed_tickets_manager_def NewRedis_def
    Redis_Store_def tickets_manager.select_convs Store.select_convs
proof (intro conjI allI impI)
  let ?r = "mem_store.impl all_works"
  show "\<exists>w'. Redis_Set ?r c k v 0 w = (Ret None, w')" for c k v w
    using mem_redis_works(6) [of "redis_key ''rivalry'' c k" v 0 w] by (auto simp: Redis_Set_def call_eq)
  show "\<exists>b w'. Redis_SetNX ?r c k v 0 w = (Ret (Inr b), w')" for c k v w
    by (auto simp: Redis_SetNX_def call_def mem_redis_works split: prod.splits
        intro: surjective_pairing)
      (metis mem_redis_works(1) prod.inject)
  show "\<exists>b w'. Redis_MSetNX ?r c m w = (Ret (Inr b), w')" for c m w
    using mem_redis_works(2) [of "redis_setValues ?r c m w" w] by (auto simp: Redis_MSetNX_def call_eq)
  show "\<exists>w'. Redis_MSet ?r c m w = (Ret None, w')" if "m \<noteq> fmempty" for c m w
  proof -
    have "redis_setValues ?r c m w \<noteq> fmempty"
      using that setValues_empty [OF mem_store.impl_order, where c = c and m = m] by simp
    from mem_redis_works(3) [OF this, of w] show ?thesis by (auto simp: Redis_MSet_def call_eq)
  qed
  show "\<exists>w'. Redis_Del ?r c ks w = (Ret None, w')" for c ks w
    using mem_redis_works(5) [of "map (redis_key ''rivalry'' c) ks" w]
    by (auto simp: Redis_Del_def Let_def call_eq)
  show "\<exists>m w'. Redis_MGet ?r c ks w = (Ret (Inr m), w')" for c ks w
  proof (cases "ks = []")
    case True
    then show ?thesis by (simp add: Redis_MGet_def)
  next
    case False
    obtain m where "redis_collect ks (map (\<lambda>k. mget_reply (world_db w (redis_key ''rivalry'' c k))) ks)
        fmempty w = (Ret m, w)"
      using redis_collect_replies [of ks "world_db w" "redis_key ''rivalry'' c" fmempty w] by blast
    with False show ?thesis
      by (simp add: Redis_MGet_def go_bind_call mem_redis_works(4) comp_def go_bind_Ret)
  qed
qed

lemma mem_stream_reliable: "stream_reliable mem_runtime (tm_streamClient (mem_tickets rf all_works))"
  by (simp add: stream_reliable_def mem_tickets_def deployed_tickets_manager_def stream_NATS_Client_def
      stream_NATS_SendMessage_def mem_nats_def call_def mem_runtime_def marshal_def)

lemma mem_pubsub_reliable: "pubsub_reliable (tm_pubsubClient (mem_tickets rf all_works))"
  by (simp add: pubsub_reliable_def mem_tickets_def deployed_tickets_manager_def pubsub_NATS_Client_def
      pubsub_NATS_Publish_def mem_nats_def call_def)

lemma mem_matches_env:
  "matches_env mem_runtime (mem_tickets rf nf) mem_tables w_log w_out plain_name"
  unfolding mem_tickets_def by (rule mem_deployment.matches.matches_env_axioms)

lemma mem_reads_reliable: "reads_reliable (tm_kvStore (mem_tickets all_works nf)) mem_tables"
  by (auto simp: reads_reliable_def mem_tickets_def deployed_tickets_manager_def NewRedis_def
      Redis_Store_def Redis_Get_def go_bind_call deployed_tables_def redis_table_def world_db_def
      mem_redis_def mem_read_def split: if_splits)

lemma mem_marshal:
  "\<forall>q. \<exists>b. rt_marshal_MatchRequest mem_runtime q = Inr b"
  "\<forall>mt. \<exists>b. rt_marshal_Match mem_runtime mt = Inr b"
  "\<forall>ast. \<exists>b. rt_marshal_Accumulated mem_runtime ast = Inr b"
  by (simp_all add: mem_runtime_def marshal_def)

end
