(* ===== verification/Ticket_Properties.thy ===== *)
theory Ticket_Properties
  imports Platform
begin

text \<open>
  The properties of the ticket manager, each over any clients that meet their contracts
  (\<open>tickets_env\<close>), with a run on the platform of \<open>Platform\<close> as its witness.
\<close>

section \<open>Concrete requests\<close>

definition sample_request :: "string \<Rightarrow> api_MatchRequest" where
  "sample_request i =
    \<lparr>req_Id = i, req_PlayerId = ''p1'', req_PartyData = Some \<lparr>party_PartyMembers = [''p2'', ''p1'']\<rparr>,
     req_MatchRequestData = None, req_MatchmakingQueue = ''q'',
     req_Rtts = [\<lparr>rtt_Host = ''h'', rtt_Milliseconds = 5\<rparr>]\<rparr>"

definition sample_match :: "string \<Rightarrow> string list \<Rightarrow> api_Match" where
  "sample_match i ks = \<lparr>match_MatchId = i, match_MatchmakingQueue = ''q'',
     match_MatchRequestIds = ks, match_PlayerIds = [], match_Rtts = []\<rparr>"

definition sample_server :: api_GameServer where
  "sample_server = \<lparr>gs_GameServerIp = ''10.0.0.1'',
     gs_GameServerPorts = [\<lparr>port_Name = ''game'', port_Port = 77\<rparr>]\<rparr>"

definition sample_ticket :: "string \<Rightarrow> StreamTicket" where
  "sample_ticket i = \<lparr>st_MatchmakingQueue = ''q'', st_MatchRequestId = i, st_NumberOfPlayers = 2\<rparr>"

text \<open>The world after the creation of two requests.\<close>

definition world2 :: world where
  "world2 = snd (CreateMatchRequest mem_runtime (mem_tickets all_works all_works) 0 (sample_request ''t2'')
     (snd (CreateMatchRequest mem_runtime (mem_tickets all_works all_works) 0 (sample_request ''t1'') world0)))"

text \<open>The world after \<open>t1\<close> went to the match \<open>M\<close>.\<close>

definition world3 :: world where
  "world3 = snd (AssignMatchRequestsToMatch (mem_tickets all_works all_works) (Some (sample_match ''M'' [''t1''])) world2)"

lemma world2_wf: "tickets_wf mem_runtime (mem_tables world2)"
proof -
  have "tickets_wf mem_runtime (mem_tables world0)"
    by (simp add: tickets_wf_def deployed_tables_def redis_table_def world_db_def world0_def)
  moreover have "tickets_wf mem_runtime (mem_tables (snd (CreateMatchRequest mem_runtime
      (mem_tickets all_works all_works) 0 req w)))" if "tickets_wf mem_runtime (mem_tables w)" for req w
    by (rule tickets_env.ticket_call_wf
        [OF mem_tickets_env ticket_call.create [OF prod.collapse [symmetric]] that])
  ultimately show ?thesis unfolding world2_def by blast
qed

section \<open>Creation\<close>

text \<open>C10: \<open>CreateMatchRequest\<close> reports success exactly when the request was not stored before, is now
  stored under its id as the document of its data, and is announced once on the stream of its
  queue. A failure announces nothing, and on a store that answers every command it leaves the store as it
  was; when the store fails (a reply is lost, or the command that takes the request back is refused), the
  request may be left stored, and nothing else.\<close>

theorem create_request_outcome:
  assumes "tickets_env rt m tab log rest plain"
    and "CreateMatchRequest rt m ctx req w = (r, w')"
    and "doc = request_document (rt_order rt w (request_members req)) (rt_now rt w) req"
  shows "rest w' = rest w \<and> (\<exists>e. r = Ret e \<and>
    (case e of
       None \<Rightarrow> req_Id req \<noteq> [] \<and> tab w collectionTickets (req_Id req) = None \<and>
         (\<exists>b. rt_marshal_MatchRequest rt doc = Inr b \<and>
            tab w' = tput collectionTickets (req_Id req) b (tab w)) \<and>
         log w' = log w @ [ticket_msg rt (StreamTicketFromDBRequest doc)]
     | Some _ \<Rightarrow> log w' = log w \<and> (store_reliable (tm_kvStore m) \<longrightarrow> tab w' = tab w) \<and>
         (tab w' = tab w \<or> req_Id req \<noteq> [] \<and> tab w collectionTickets (req_Id req) = None \<and>
            (\<exists>b. rt_marshal_MatchRequest rt doc = Inr b \<and>
               tab w' = tput collectionTickets (req_Id req) b (tab w)))))"
proof -
  note spec = tickets_env.CreateMatchRequest_spec [OF assms]
  then obtain e where e: "r = Ret e" by blast
  show ?thesis
  proof (cases e)
    case None
    with spec e show ?thesis by simp
  next
    case (Some err)
    with tickets_env.CreateMatchRequest_atomic [OF assms(1) _ assms(2) [unfolded e Some]] spec e
    show ?thesis by simp
  qed
qed

theorem create_request_outcome_witness:
  "length (w_log (snd (CreateMatchRequest mem_runtime (mem_tickets all_works all_works) 0
     (sample_request ''t1'') world0))) = 1"
proof -
  let ?run = "CreateMatchRequest mem_runtime (mem_tickets all_works all_works) 0 (sample_request ''t1'') world0"
  have "fst ?run = Ret None" by code_simp
  with create_request_outcome [OF mem_tickets_env prod.collapse [symmetric, of ?run] refl]
  have "w_log (snd ?run) = w_log world0 @ [ticket_msg mem_runtime (StreamTicketFromDBRequest
      (request_document (rt_order mem_runtime world0 (request_members (sample_request ''t1'')))
        (rt_now mem_runtime world0) (sample_request ''t1'')))]" by auto
  then show ?thesis by (simp add: world0_def)
qed

text \<open>With a store that answers every command, a failed creation leaves no trace: the rollback
  of \<open>CreateMatchRequest\<close> removes the request when its announcement fails.\<close>

theorem create_request_atomic:
  assumes "tickets_env rt m tab log rest plain" and "store_reliable (tm_kvStore m)"
    and "CreateMatchRequest rt m ctx req w = (Ret (Some e), w')"
  shows "tab w' = tab w \<and> log w' = log w"
  by (rule tickets_env.CreateMatchRequest_atomic [OF assms])

definition down :: faults where
  "down c = Refused"

theorem create_request_atomic_witness:
  "let run = CreateMatchRequest mem_runtime (mem_tickets all_works down) 0 (sample_request ''t1'') world0
   in (\<exists>e. fst run = Ret (Some e)) \<and> mem_tables (snd run) = mem_tables world0"
proof -
  let ?run = "CreateMatchRequest mem_runtime (mem_tickets all_works down) 0 (sample_request ''t1'') world0"
  have f: "fst ?run = Ret (Some (ErrWrap ''failed to add ticket to stream''
      (ErrExt ''nats: connection closed'')))" by code_simp
  with create_request_atomic [OF mem_tickets_env [of all_works down] _ prod.collapse [symmetric, of ?run, unfolded f]]
  show ?thesis by (simp add: mem_store_reliable Let_def)
qed

text \<open>With clients that do not fail, the answer of \<open>CreateMatchRequest\<close> is determined: a request
  without an id is refused, a stored id is a duplicate, and any other request is accepted.\<close>

theorem create_request_result:
  assumes "tickets_env rt m tab log rest plain"
    and "store_reliable (tm_kvStore m)" and "stream_reliable rt (tm_streamClient m)"
    and "\<forall>q. \<exists>b. rt_marshal_MatchRequest rt q = Inr b"
  shows "\<exists>w'. CreateMatchRequest rt m ctx req w =
    (Ret (if req_Id req = [] then Some ErrMissingID
       else if tab w collectionTickets (req_Id req) \<noteq> None then Some ErrDuplicateTicketID
       else None), w')"
  by (rule tickets_env.CreateMatchRequest_result [OF assms])

theorem create_request_result_witness:
  "fst (CreateMatchRequest mem_runtime (mem_tickets all_works all_works) 0 (sample_request ''t1'') world2) =
     Ret (Some ErrDuplicateTicketID)"
proof -
  have "mem_tables world2 collectionTickets ''t1'' \<noteq> None" by code_simp
  then show ?thesis
    using create_request_result [OF mem_tickets_env mem_store_reliable mem_stream_reliable mem_marshal(1),
        of 0 "sample_request ''t1''" world2]
    by (auto simp: sample_request_def)
qed

section \<open>Links to matches\<close>

text \<open>\<open>AssignMatchRequestsToMatch\<close> takes all the tickets of a match or none: it answers true and
  links every ticket exactly when none was linked, answers false and links none when some was, and
  an error stands for one of the two.\<close>

theorem assign_all_or_nothing:
  assumes "tickets_env rt m tab log rest plain"
    and "AssignMatchRequestsToMatch m (Some mt) w = (r, w')"
  shows "rest w' = rest w \<and> log w' = log w \<and> (\<exists>ok. r = Ret ok \<and>
    (if match_MatchRequestIds mt = [] then ok = Inr True \<and> tab w' = tab w
     else write_nx_outcome
       (\<forall>k \<in> set (match_MatchRequestIds mt). tab w collectionTicketAssignments k = None) ok (tab w)
       (tputs collectionTicketAssignments (links mt) (tab w)) (tab w')))"
  by (rule tickets_env.AssignMatchRequestsToMatch_spec [OF assms])

theorem assign_all_or_nothing_witness:
  "let run = AssignMatchRequestsToMatch (mem_tickets all_works all_works)
       (Some (sample_match ''N'' [''t2'', ''t1''])) world3
   in fst run = Ret (Inr False) \<and> mem_tables (snd run) = mem_tables world3"
proof -
  let ?run = "AssignMatchRequestsToMatch (mem_tickets all_works all_works)
       (Some (sample_match ''N'' [''t2'', ''t1''])) world3"
  have f: "fst ?run = Ret (Inr False)" by code_simp
  with assign_all_or_nothing [OF mem_tickets_env prod.collapse [symmetric, of ?run, unfolded f]]
  show ?thesis by (auto simp: Let_def sample_match_def)
qed

text \<open>C16: A link is exclusive: over any sequence of calls of the manager, whatever their outcome, that
  does not release a ticket, the ticket stays linked to the match that took it.\<close>

theorem link_until_release:
  assumes "tickets_env rt m tab log rest plain" and "ticket_calls rt m A w w'"
    and "tickets_wf rt (tab w)" and "k \<in> A"
    and "tab w collectionTicketAssignments k = Some b"
  shows "tab w' collectionTicketAssignments k = Some b"
  by (rule tickets_env.ticket_calls_link [OF assms])

lemma world3_calls: "ticket_calls mem_runtime (mem_tickets all_works all_works) {''t1''} world2
    (snd (AssignMatchRequestsToMatch (mem_tickets all_works all_works)
       (Some (sample_match ''N'' [''t2'', ''t1''])) world3))"
  unfolding world3_def
  by (rule ticket_calls.more [OF ticket_calls.more [OF ticket_calls.none
        ticket_call.assign [OF prod.collapse [symmetric]]] ticket_call.assign [OF prod.collapse [symmetric]]])
    simp_all

lemma world3_wf: "tickets_wf mem_runtime (mem_tables world3)"
  unfolding world3_def
  by (rule tickets_env.ticket_call_wf
      [OF mem_tickets_env ticket_call.assign [OF prod.collapse [symmetric]] world2_wf])

theorem link_until_release_witness:
  "mem_tables (snd (AssignMatchRequestsToMatch (mem_tickets all_works all_works)
       (Some (sample_match ''N'' [''t2'', ''t1''])) world3)) collectionTicketAssignments ''t1'' = Some ''M''"
proof (rule link_until_release [OF mem_tickets_env [of all_works all_works] _ world3_wf])
  show "ticket_calls mem_runtime (mem_tickets all_works all_works) {''t1''} world3
    (snd (AssignMatchRequestsToMatch (mem_tickets all_works all_works)
       (Some (sample_match ''N'' [''t2'', ''t1''])) world3))"
    by (rule ticket_calls.more [OF ticket_calls.none ticket_call.assign [OF prod.collapse [symmetric]]]) simp
  show "mem_tables world3 collectionTicketAssignments ''t1'' = Some ''M''" by code_simp
qed simp

text \<open>C29: Every document in the collection \<open>tickets\<close> parses and is stored under the id it carries:
  an invariant of all the calls of the manager, in any order and whatever their outcome.\<close>

theorem stored_tickets_wf:
  assumes "tickets_env rt m tab log rest plain" and "ticket_calls rt m A w w'"
    and "tickets_wf rt (tab w)"
  shows "tickets_wf rt (tab w')"
  by (rule tickets_env.ticket_calls_wf [OF assms])

theorem stored_tickets_wf_witness:
  "tickets_wf mem_runtime (mem_tables (snd (AssignMatchRequestsToMatch (mem_tickets all_works all_works)
       (Some (sample_match ''N'' [''t2'', ''t1''])) world3)))"
  by (rule stored_tickets_wf [OF mem_tickets_env world3_calls world2_wf])

section \<open>Assignments\<close>

text \<open>C27: \<open>AddAssignmentToMatchRequests\<close> writes the game server into the stored tickets of the
  match and into nothing else. It announces only after the write, only tickets of the match, and
  each at most as often as the match lists it; an error announces nothing. A match none of whose tickets is stored is an
  error.\<close>

theorem assignment_outcome:
  assumes "tickets_env rt m tab log rest plain" and "tickets_wf rt (tab w)"
    and "AddAssignmentToMatchRequests rt m ctx (Some gsv) (Some mt) w = (r, w')"
  shows "rest w' = rest w \<and> (\<exists>e. r = Ret e \<and>
    (let t1 = tputs collectionTickets
         (assigned_docs rt (db_GameServer_of gsv) (tab w) (match_MatchRequestIds mt)) (tab w) in
     case e of
       None \<Rightarrow>
         (if match_MatchRequestIds mt = [] then tab w' = tab w
          else tab w' = t1 \<and>
            set (match_MatchRequestIds mt) \<inter> dom (tab w collectionTickets) \<noteq> {}) \<and>
         (\<exists>ks. mset ks \<subseteq># mset (match_MatchRequestIds mt) \<and>
            log w' = log w @ map assigned_msg ks)
     | Some _ \<Rightarrow> log w' = log w \<and> (tab w' = tab w \<or> tab w' = t1)))"
  by (rule tickets_env.AddAssignment_spec [OF assms])

theorem assignment_outcome_witness:
  "w_log (snd (AddAssignmentToMatchRequests mem_runtime (mem_tickets all_works all_works) 0
     (Some sample_server) (Some (sample_match ''M'' [''gone''])) world3)) = w_log world3"
proof -
  let ?run = "AddAssignmentToMatchRequests mem_runtime (mem_tickets all_works all_works) 0
     (Some sample_server) (Some (sample_match ''M'' [''gone''])) world3"
  have "fst ?run = Ret (Some (ErrExt ''wrong number of arguments''))" by code_simp
  with assignment_outcome [OF mem_tickets_env world3_wf prod.collapse [symmetric, of ?run]]
  show ?thesis by (auto simp: Let_def)
qed

text \<open>With clients that do not fail, an assignment for a match with a stored ticket succeeds,
  every stored ticket of the match carries the game server afterwards, and every ticket of the match
  is announced, as often as the match lists it.\<close>

theorem assignment_complete:
  assumes "tickets_env rt m tab log rest plain" and "tickets_wf rt (tab w)"
    and "store_reliable (tm_kvStore m)" and "pubsub_reliable (tm_pubsubClient m)"
    and "set (match_MatchRequestIds mt) \<inter> dom (tab w collectionTickets) \<noteq> {}"
    and "\<forall>q. \<exists>b. rt_marshal_MatchRequest rt q = Inr b"
  shows "\<exists>w'. AddAssignmentToMatchRequests rt m ctx (Some gsv) (Some mt) w = (Ret None, w') \<and>
    tab w' = tputs collectionTickets
      (assigned_docs rt (db_GameServer_of gsv) (tab w) (match_MatchRequestIds mt)) (tab w) \<and>
    (\<exists>ks. mset ks = mset (match_MatchRequestIds mt) \<and> log w' = log w @ map assigned_msg ks)"
  by (rule tickets_env.AddAssignment_ok [OF assms])

theorem assignment_complete_witness:
  "\<exists>w'. AddAssignmentToMatchRequests mem_runtime (mem_tickets all_works all_works) 0
      (Some sample_server) (Some (sample_match ''M'' [''t1''])) world3 = (Ret None, w') \<and>
    w_log w' = w_log world3 @ [(''ticket_updates_t1'', ''assigned'')]"
proof -
  have "set (match_MatchRequestIds (sample_match ''M'' [''t1''])) \<inter>
      dom (mem_tables world3 collectionTickets) \<noteq> {}"
  proof -
    have "mem_tables world3 collectionTickets ''t1'' \<noteq> None" by code_simp
    then show ?thesis by (auto simp: sample_match_def)
  qed
  from assignment_complete [OF mem_tickets_env world3_wf mem_store_reliable mem_pubsub_reliable this
      mem_marshal(1), of 0 sample_server]
  obtain w' ks where "AddAssignmentToMatchRequests mem_runtime (mem_tickets all_works all_works) 0
      (Some sample_server) (Some (sample_match ''M'' [''t1''])) world3 = (Ret None, w')"
    "mset ks = mset [''t1'']" "w_log w' = w_log world3 @ map assigned_msg ks"
    by (auto simp: sample_match_def)
  moreover from \<open>mset ks = mset [''t1'']\<close> have "ks = [''t1'']" by simp
  ultimately show ?thesis
    by (simp add: assigned_msg_def GetMatchRequestSubject_def subjectTicketUpdatesPrefix_def)
qed

section \<open>Requeueing\<close>

text \<open>C28: \<open>RequeueMatchRequests\<close> never puts a ticket that is linked to a match back on a stream: what
  it sends are unlinked tickets, in their order, each at most as often as it was given; when the store and
  the stream do not fail, it sends exactly the unlinked tickets that it was given. The store is left alone.\<close>

theorem requeue_unlinked_only:
  assumes "tickets_env rt m tab log rest plain"
    and "RequeueMatchRequests rt m ctx (map Some ts) w = (r, w')"
  shows "r = Ret () \<and> tab w' = tab w \<and> rest w' = rest w \<and>
    (\<exists>ys. subseq ys (unallocated (tab w) ts) \<and> log w' = log w @ map (ticket_msg rt) ys \<and>
      (store_reliable (tm_kvStore m) \<longrightarrow> stream_reliable rt (tm_streamClient m) \<longrightarrow> ys = unallocated (tab w) ts))"
proof -
  from tickets_env.RequeueMatchRequests_spec [OF assms] obtain ys where
    ys: "r = Ret ()" "tab w' = tab w" "rest w' = rest w" "subseq ys (unallocated (tab w) ts)"
      "log w' = log w @ map (ticket_msg rt) ys" by blast
  show ?thesis
  proof (cases "store_reliable (tm_kvStore m) \<and> stream_reliable rt (tm_streamClient m)")
    case True
    with tickets_env.RequeueMatchRequests_ok [OF assms(1), of ctx ts w] assms(2)
    have "log w' = log w @ map (ticket_msg rt) (unallocated (tab w) ts)" by auto
    with ys(1-3) show ?thesis by (intro conjI exI [of _ "unallocated (tab w) ts"]) simp_all
  next
    case False
    with ys show ?thesis by blast
  qed
qed

theorem requeue_unlinked_only_witness:
  "w_log (snd (RequeueMatchRequests mem_runtime (mem_tickets all_works down) 0
     (map Some [sample_ticket ''t1''] ) world3)) = w_log world3"
proof -
  have "unallocated (mem_tables world3) [sample_ticket ''t1''] = []" by code_simp
  with requeue_unlinked_only [OF mem_tickets_env [of all_works down] prod.collapse [symmetric],
      where ts = "[sample_ticket ''t1'']" and w = world3 and ctx = 0]
  show ?thesis by auto
qed

text \<open>With clients that do not fail, exactly the unlinked tickets are sent again.\<close>

theorem requeue_complete:
  assumes "tickets_env rt m tab log rest plain"
    and "store_reliable (tm_kvStore m)" and "stream_reliable rt (tm_streamClient m)"
  shows "\<exists>w'. RequeueMatchRequests rt m ctx (map Some ts) w = (Ret (), w') \<and> tab w' = tab w \<and>
    log w' = log w @ map (ticket_msg rt) (unallocated (tab w) ts)"
  by (rule tickets_env.RequeueMatchRequests_ok [OF assms])

theorem requeue_complete_witness:
  "\<exists>w'. RequeueMatchRequests mem_runtime (mem_tickets all_works all_works) 0
      (map Some [sample_ticket ''t1'', sample_ticket ''t2'']) world3 = (Ret (), w') \<and>
    w_log w' = w_log world3 @ [ticket_msg mem_runtime (sample_ticket ''t2'')]"
proof -
  have "unallocated (mem_tables world3) [sample_ticket ''t1'', sample_ticket ''t2''] =
    [sample_ticket ''t2'']" by code_simp
  with requeue_complete [OF mem_tickets_env mem_store_reliable mem_stream_reliable,
      where ts = "[sample_ticket ''t1'', sample_ticket ''t2'']" and w = world3 and ctx = 0]
  show ?thesis by auto
qed

end
