(* ===== verification/Accumulator.thy ===== *)
theory Accumulator
  imports Tickets
begin

text \<open>
  \<open>internal/app/backend/accumulator.go\<close>: the accumulator of one queue. It collects the tickets
  that arrive on the stream of the queue, once each, and forwards them as a batch when the batch is
  full or when the ticker fires.

  The static fields of the struct are \<open>accumulator\<close>, the ones that change are \<open>acc_state\<close>; the
  mutex of the code makes an arrival and a tick atomic steps on it. A batch is forwarded by a
  goroutine of its own: \<open>acc_forwards\<close> holds the batches whose goroutine has not run yet, and the
  event \<open>Forwarding i\<close> runs one of them.
\<close>

section \<open>Configuration and state\<close>

record AccumulatorConfig =
  cfg_MaxTickets :: int64
  cfg_MaxDelay :: duration

record 'w accumulator =
  acc_matchmakingQueue :: string
  acc_ticketsManager :: "'w tickets_Manager"
  acc_config :: AccumulatorConfig
  acc_ctx :: ctx

record acc_state =
  acc_seen :: "string set"
  acc_slice :: "StreamTicket list"
  acc_forwards :: "StreamTicket list list"
  acc_timeout :: duration

text \<open>The configuration that the command builds of its flags, in milliseconds.\<close>

definition accumulator_config :: "int64 \<Rightarrow> int64 \<Rightarrow> AccumulatorConfig" where
  "accumulator_config maxTickets maxDelay =
    \<lparr>cfg_MaxTickets = maxTickets, cfg_MaxDelay = maxDelay * 1000000\<rparr>"

text \<open>\<open>time.NewTicker\<close> panics on an interval that is not positive.\<close>

definition NewTicker :: "duration \<Rightarrow> ('w, duration) proc" where
  "NewTicker d = (if d \<le>s 0 then go_panic NonPositiveInterval else go_return d)"

definition NewAccumulator :: "ctx \<Rightarrow> string \<Rightarrow> 'w tickets_Manager \<Rightarrow> AccumulatorConfig \<Rightarrow>
    ('w, 'w accumulator \<times> acc_state) proc" where
  "NewAccumulator ctx queue ticketsManager config =
    go_bind (NewTicker (cfg_MaxDelay config)) (\<lambda>timeout.
      go_return
        (\<lparr>acc_matchmakingQueue = queue, acc_ticketsManager = ticketsManager, acc_config = config,
          acc_ctx = ctx\<rparr>,
         \<lparr>acc_seen = {}, acc_slice = [], acc_forwards = [], acc_timeout = timeout\<rparr>))"

section \<open>Steps\<close>

definition resetRun :: "acc_state \<Rightarrow> acc_state" where
  "resetRun a = a\<lparr>acc_slice := [], acc_seen := {}\<rparr>"

text \<open>The callback of \<open>Run\<close>.\<close>

definition on_ticket :: "AccumulatorConfig \<Rightarrow> StreamTicket \<Rightarrow> acc_state \<Rightarrow> acc_state" where
  "on_ticket config st a =
    (if st_MatchRequestId st \<in> acc_seen a then a
     else
       let a1 = a\<lparr>acc_seen := insert (st_MatchRequestId st) (acc_seen a)\<rparr>;
           a2 = a1\<lparr>acc_slice := acc_slice a1 @ [st]\<rparr>
       in if cfg_MaxTickets config \<le>s word_of_nat (card (acc_seen a2))
          then resetRun (a2\<lparr>acc_timeout := cfg_MaxDelay config,
                 acc_forwards := acc_forwards a2 @ [acc_slice a2]\<rparr>)
          else a2)"

text \<open>One round of the loop of \<open>watchTimeout\<close>.\<close>

definition watchTimeout :: "acc_state \<Rightarrow> acc_state" where
  "watchTimeout a =
    (if length (acc_slice a) > 0
     then resetRun (a\<lparr>acc_forwards := acc_forwards a @ [acc_slice a]\<rparr>)
     else a)"

definition forwardAccumulatedRequests ::
  "'w accumulator \<Rightarrow> StreamTicket list \<Rightarrow> ('w, unit) proc" where
  "forwardAccumulatedRequests a matchRequestSlice =
    go_bind (TM_PublishAccumulatedMatchRequests (acc_ticketsManager a) (acc_ctx a)
        (acc_matchmakingQueue a) matchRequestSlice)
      (\<lambda>err. go_return ())"

text \<open>\<open>Run\<close>: the subscription, and the wait for the end of the context.\<close>

definition Accumulator_Run :: "'w runtime \<Rightarrow> 'w accumulator \<Rightarrow> ('w, error option) proc" where
  "Accumulator_Run rt a =
    go_bind (TM_StreamMatchRequests (acc_ticketsManager a) (acc_matchmakingQueue a)) (\<lambda>err.
      case err of
        Some e \<Rightarrow> go_return (Some e)
      | None \<Rightarrow> (\<lambda>w. if rt_done rt (acc_ctx a) w then (Ret None, w) else (Blocked, w)))"

section \<open>Runs\<close>

text \<open>
  What happens to a running accumulator: a message of the stream, a tick, or the turn of the
  goroutine that forwards the batch at a position of \<open>acc_forwards\<close>.
\<close>

datatype acc_event = Delivery bytes | Tick | Forwarding nat

fun acc_step :: "'w runtime \<Rightarrow> 'w accumulator \<Rightarrow> acc_event \<Rightarrow> acc_state \<Rightarrow> ('w, acc_state) proc" where
  "acc_step rt acc (Delivery b) a = (\<lambda>w.
     case StreamMatchRequests_callback rt (\<lambda>st a. (Ret (), on_ticket (acc_config acc) st a)) b a of
       (Ret _, a') \<Rightarrow> (Ret a', w) | (Panic p, a') \<Rightarrow> (Panic p, w) | (Blocked, a') \<Rightarrow> (Blocked, w))"
| "acc_step rt acc Tick a = go_return (watchTimeout a)"
| "acc_step rt acc (Forwarding i) a =
     (if i < length (acc_forwards a)
      then go_bind (forwardAccumulatedRequests acc (acc_forwards a ! i)) (\<lambda>_.
             go_return (a\<lparr>acc_forwards := take i (acc_forwards a) @ drop (Suc i) (acc_forwards a)\<rparr>))
      else go_return a)"

fun acc_run ::
  "'w runtime \<Rightarrow> 'w accumulator \<Rightarrow> acc_event list \<Rightarrow> acc_state \<Rightarrow> ('w, acc_state) proc" where
  "acc_run rt acc [] a = go_return a"
| "acc_run rt acc (ev # evs) a = go_bind (acc_step rt acc ev a) (acc_run rt acc evs)"

section \<open>The size of a batch\<close>

text \<open>A limit below one acts as one.\<close>

definition batch_limit :: "AccumulatorConfig \<Rightarrow> nat" where
  "batch_limit config = nat (max 1 (sint (cfg_MaxTickets config)))"

definition batch_ok :: "AccumulatorConfig \<Rightarrow> StreamTicket list \<Rightarrow> bool" where
  "batch_ok config b \<longleftrightarrow>
    b \<noteq> [] \<and> distinct (map st_MatchRequestId b) \<and> length b \<le> batch_limit config"

definition acc_inv :: "AccumulatorConfig \<Rightarrow> acc_state \<Rightarrow> bool" where
  "acc_inv config a \<longleftrightarrow>
    acc_seen a = st_MatchRequestId ` set (acc_slice a) \<and>
    distinct (map st_MatchRequestId (acc_slice a)) \<and>
    length (acc_slice a) < batch_limit config \<and>
    list_all (batch_ok config) (acc_forwards a)"

lemma sint_word_of_nat: "n < 2 ^ 63 \<Longrightarrow> sint (word_of_nat n :: int64) = int n"
  by (simp add: signed_of_nat signed_take_bit_int_eq_self)

lemma sint_int64_less: "sint (w :: int64) < 2 ^ 63"
  using sint_lt [of w] by simp

text \<open>The signed comparison of the code is the comparison with the limit.\<close>

lemma full_iff:
  assumes "0 < n" and "n \<le> batch_limit config"
  shows "cfg_MaxTickets config \<le>s word_of_nat n \<longleftrightarrow> n = batch_limit config"
proof -
  have "int n \<le> max 1 (sint (cfg_MaxTickets config))" using assms(2) by (simp add: batch_limit_def)
  moreover have "max 1 (sint (cfg_MaxTickets config)) < 2 ^ 63"
    using sint_int64_less [of "cfg_MaxTickets config"] by simp
  ultimately have "int n < int (2 ^ 63)" by simp
  then have "n < 2 ^ 63" by (rule of_nat_less_imp_less)
  with assms show ?thesis
    by (auto simp: word_sle_eq sint_word_of_nat batch_limit_def)
qed

lemma on_ticket_cases:
  assumes "acc_inv config a" and "st_MatchRequestId st \<notin> acc_seen a"
  shows "on_ticket config st a =
    (if Suc (length (acc_slice a)) = batch_limit config
     then \<lparr>acc_seen = {}, acc_slice = [], acc_forwards = acc_forwards a @ [acc_slice a @ [st]],
           acc_timeout = cfg_MaxDelay config\<rparr>
     else a\<lparr>acc_seen := insert (st_MatchRequestId st) (acc_seen a),
            acc_slice := acc_slice a @ [st]\<rparr>)"
proof -
  have "card (acc_seen a) = length (acc_slice a)"
    using assms(1) by (metis acc_inv_def distinct_card length_map list.set_map)
  moreover have "finite (acc_seen a)" using assms(1) by (simp add: acc_inv_def)
  ultimately have "card (insert (st_MatchRequestId st) (acc_seen a)) = Suc (length (acc_slice a))"
    using assms(2) by simp
  then show ?thesis
    using assms full_iff [of "Suc (length (acc_slice a))" config]
    by (simp add: on_ticket_def resetRun_def Let_def acc_inv_def)
qed

lemma on_ticket_inv: "acc_inv config a \<Longrightarrow> acc_inv config (on_ticket config st a)"
proof -
  assume inv: "acc_inv config a"
  show ?thesis
  proof (cases "st_MatchRequestId st \<in> acc_seen a")
    case True
    with inv show ?thesis by (simp add: on_ticket_def)
  next
    case False
    with inv show ?thesis unfolding on_ticket_cases [OF inv False]
      by (auto simp: acc_inv_def batch_ok_def batch_limit_def)
  qed
qed

lemma watchTimeout_inv: "acc_inv config a \<Longrightarrow> acc_inv config (watchTimeout a)"
  by (auto simp: acc_inv_def watchTimeout_def resetRun_def batch_ok_def)

end
