(* ===== verification/Accumulator_Laws.thy ===== *)
theory Accumulator_Laws
  imports Accumulator Tickets_Methods
begin

text \<open>
  What an accumulator does with the tickets that arrive, whatever the order of deliveries, ticks
  and turns of the forwarding goroutines: the arrivals fall into segments, and each segment without
  its repeated tickets is one batch, the last one still being collected.
\<close>

section \<open>Arrivals\<close>

definition event_arrivals :: "'w runtime \<Rightarrow> acc_event \<Rightarrow> StreamTicket list" where
  "event_arrivals rt ev =
    (case ev of
       Delivery b \<Rightarrow> (case rt_unmarshal_StreamTicket rt b of Inl _ \<Rightarrow> [] | Inr st \<Rightarrow> [st])
     | Tick \<Rightarrow> []
     | Forwarding i \<Rightarrow> [])"

definition arrivals :: "'w runtime \<Rightarrow> acc_event list \<Rightarrow> StreamTicket list" where
  "arrivals rt evs = concat (map (event_arrivals rt) evs)"

lemma arrivals_simps [simp]:
  "arrivals rt [] = []" "arrivals rt (ev # evs) = event_arrivals rt ev @ arrivals rt evs"
  by (simp_all add: arrivals_def)

text \<open>
  \<open>batched arr bs cur\<close>: the arrivals \<open>arr\<close> in segments, of which \<open>bs\<close> and the open \<open>cur\<close> are
  the tickets without repetition.
\<close>

definition batched :: "StreamTicket list \<Rightarrow> StreamTicket list list \<Rightarrow> StreamTicket list \<Rightarrow> bool" where
  "batched arr bs cur \<longleftrightarrow>
    (\<exists>segs. arr = concat segs \<and> map (first_by st_MatchRequestId) segs = bs @ [cur])"

lemma batched_Nil [simp]: "batched [] [] []"
  unfolding batched_def by (rule exI [of _ "[[]]"]) simp

lemma batched_split:
  assumes "batched arr bs cur"
  obtains segs seg where "arr = concat segs @ seg" "map (first_by st_MatchRequestId) segs = bs"
    "first_by st_MatchRequestId seg = cur"
proof -
  from assms obtain segs' where s: "arr = concat segs'"
    "map (first_by st_MatchRequestId) segs' = bs @ [cur]" by (auto simp: batched_def)
  then have "segs' \<noteq> []" by auto
  then obtain segs seg where "segs' = segs @ [seg]" by (metis rev_exhaust)
  with s show ?thesis by (intro that [of segs seg]) auto
qed

lemma batchedI: "first_by st_MatchRequestId seg = cur \<Longrightarrow>
    batched (concat segs @ seg) (map (first_by st_MatchRequestId) segs) cur"
  unfolding batched_def by (rule exI [of _ "segs @ [seg]"]) simp

lemma batched_close:
  assumes "batched arr bs cur"
  shows "batched arr (bs @ [cur]) []"
proof -
  from assms obtain segs where "arr = concat segs" "map (first_by st_MatchRequestId) segs = bs @ [cur]"
    by (auto simp: batched_def)
  with batchedI [of "[]" "[]" segs] show ?thesis by simp
qed

lemma batched_seen:
  assumes "batched arr bs cur" and "st_MatchRequestId st \<in> st_MatchRequestId ` set cur"
  shows "batched (arr @ [st]) bs cur"
proof -
  from assms(1) obtain segs seg where s: "arr = concat segs @ seg"
    "map (first_by st_MatchRequestId) segs = bs" "first_by st_MatchRequestId seg = cur"
    by (rule batched_split)
  with assms(2) have "st_MatchRequestId st \<in> st_MatchRequestId ` set seg" by (metis first_by_keys)
  with s(3) have "first_by st_MatchRequestId (seg @ [st]) = cur" by (simp add: first_by_snoc)
  from batchedI [OF this, of segs] s show ?thesis by simp
qed

lemma batched_new:
  assumes "batched arr bs cur" and "st_MatchRequestId st \<notin> st_MatchRequestId ` set cur"
  shows "batched (arr @ [st]) bs (cur @ [st])"
proof -
  from assms(1) obtain segs seg where s: "arr = concat segs @ seg"
    "map (first_by st_MatchRequestId) segs = bs" "first_by st_MatchRequestId seg = cur"
    by (rule batched_split)
  with assms(2) have "st_MatchRequestId st \<notin> st_MatchRequestId ` set seg" by (metis first_by_keys)
  with s(3) have "first_by st_MatchRequestId (seg @ [st]) = cur @ [st]" by (simp add: first_by_snoc)
  from batchedI [OF this, of segs] s show ?thesis by simp
qed

text \<open>When the last batch is closed, every ticket that arrived is in a batch.\<close>

lemma batched_covers:
  assumes "batched arr bs []"
  shows "\<forall>st \<in> set arr. \<exists>b \<in> set bs. st_MatchRequestId st \<in> st_MatchRequestId ` set b"
proof
  fix st
  assume "st \<in> set arr"
  moreover from assms obtain segs where s: "arr = concat segs"
    "map (first_by st_MatchRequestId) segs = bs @ [[]]" by (auto simp: batched_def)
  ultimately obtain seg where seg: "seg \<in> set segs" "st \<in> set seg" by auto
  then have id: "st_MatchRequestId st \<in> st_MatchRequestId ` set (first_by st_MatchRequestId seg)" by simp
  have "first_by st_MatchRequestId seg \<in> set (bs @ [[]])"
    unfolding s(2) [symmetric] using seg(1) by simp
  moreover have "first_by st_MatchRequestId seg \<noteq> []" using id by (metis empty_iff empty_set image_empty)
  ultimately have "first_by st_MatchRequestId seg \<in> set bs" by auto
  with id show "\<exists>b \<in> set bs. st_MatchRequestId st \<in> st_MatchRequestId ` set b" by blast
qed

text \<open>An arrival or a tick extends the batches by those it adds to \<open>acc_forwards\<close>.\<close>

lemma on_ticket_batched:
  assumes "acc_inv config a" and "batched arr bs (acc_slice a)"
  shows "\<exists>new. acc_forwards (on_ticket config st a) = acc_forwards a @ new \<and>
    batched (arr @ [st]) (bs @ new) (acc_slice (on_ticket config st a))"
proof (cases "st_MatchRequestId st \<in> acc_seen a")
  case True
  then have "on_ticket config st a = a" by (simp add: on_ticket_def)
  moreover from True assms have "batched (arr @ [st]) bs (acc_slice a)"
    by (intro batched_seen) (simp_all add: acc_inv_def)
  ultimately show ?thesis by auto
next
  case False
  with assms have new: "batched (arr @ [st]) bs (acc_slice a @ [st])"
    by (intro batched_new) (simp_all add: acc_inv_def)
  show ?thesis
    using new batched_close [OF new] unfolding on_ticket_cases [OF assms(1) False] by auto
qed

lemma watchTimeout_batched:
  assumes "batched arr bs (acc_slice a)"
  shows "\<exists>new. acc_forwards (watchTimeout a) = acc_forwards a @ new \<and>
    batched arr (bs @ new) (acc_slice (watchTimeout a))"
  using assms batched_close [OF assms] by (auto simp: watchTimeout_def resetRun_def)

section \<open>Runs\<close>

locale accumulator_env = tickets_env rt m tab log rest plain
  for rt :: "'w runtime" and m :: "'w tickets_manager" and tab :: "'w \<Rightarrow> table"
    and log :: "'w \<Rightarrow> message_log" and rest :: "'w \<Rightarrow> 'r" and plain :: "string \<Rightarrow> bool" +
  fixes acc :: "'w accumulator"
  assumes manager: "acc_ticketsManager acc = tickets_of rt m"
begin

abbreviation batch_of :: "StreamTicket list \<Rightarrow> string \<times> bytes" where
  "batch_of \<equiv> batch_msg rt (acc_matchmakingQueue acc)"

lemma forward_spec:
  assumes "forwardAccumulatedRequests acc b w = (r, w')"
  shows "r = Ret () \<and> tab w' = tab w \<and> rest w' = rest w \<and>
    (log w' = log w \<or> log w' = log w @ [batch_of b])"
proof -
  obtain q w1 where p: "PublishAccumulatedMatchRequests rt m (acc_ctx acc) (acc_matchmakingQueue acc) b w
      = (q, w1)" by force
  from PublishAccumulated_spec [OF p] obtain e where e: "q = Ret e" "tab w1 = tab w" "rest w1 = rest w"
    "log w1 = log w \<or> log w1 = log w @ [batch_of b]"
    by (force split: option.splits)
  moreover from assms p e(1) have "r = Ret ()" "w' = w1"
    by (simp_all add: forwardAccumulatedRequests_def manager go_bind_def)
  ultimately show ?thesis by simp
qed

lemma forward_ok:
  assumes "stream_reliable rt (tm_streamClient m)"
    and "\<forall>ast. \<exists>b. rt_marshal_Accumulated rt ast = Inr b"
    and "forwardAccumulatedRequests acc b w = (r, w')"
  shows "log w' = log w @ [batch_of b]"
proof -
  obtain bs where bs: "rt_marshal_Accumulated rt \<lparr>ast_StreamTickets = b\<rparr> = Inr bs"
    using assms(2) by blast
  obtain w1 where p: "PublishAccumulatedMatchRequests rt m (acc_ctx acc) (acc_matchmakingQueue acc) b w
      = (Ret None, w1)"
    using PublishAccumulated_ok [OF bs, of "acc_matchmakingQueue acc" w "acc_ctx acc"] assms(1)
    by (metis fst_conv stream_reliable_def)
  with assms(3) have "w' = w1" by (simp add: forwardAccumulatedRequests_def manager go_bind_def)
  with PublishAccumulated_spec [OF p] show ?thesis by simp
qed

text \<open>
  The state of a run: the arrivals so far are batched, and the batches are those handed to the
  stream (\<open>pub\<close>) and those still waiting for their goroutine.
\<close>

definition run_inv :: "StreamTicket list \<Rightarrow> StreamTicket list list \<Rightarrow> StreamTicket list list \<Rightarrow>
    acc_state \<Rightarrow> bool" where
  "run_inv arr bs pub a \<longleftrightarrow> acc_inv (acc_config acc) a \<and> batched arr bs (acc_slice a) \<and>
    mset bs = mset pub + mset (acc_forwards a) \<and> list_all (batch_ok (acc_config acc)) pub"

lemma delivery_state:
  "StreamMatchRequests_callback rt (\<lambda>st a. (Ret (), on_ticket config st a)) b a =
    (Ret (), fold (on_ticket config) (event_arrivals rt (Delivery b)) a)"
  by (simp add: StreamMatchRequests_callback_def event_arrivals_def split: sum.split)

lemma acc_step_inv:
  assumes "run_inv arr bs pub a" and "acc_step rt acc ev a w = (r, w')"
  shows "tab w' = tab w \<and> rest w' = rest w \<and> (\<exists>a' new out. r = Ret a' \<and>
    run_inv (arr @ event_arrivals rt ev) (bs @ new) (pub @ out) a' \<and>
    (log w' = log w \<or> log w' = log w @ map batch_of out) \<and> length out \<le> 1 \<and>
    (stream_reliable rt (tm_streamClient m) \<longrightarrow>
     (\<forall>ast. \<exists>b. rt_marshal_Accumulated rt ast = Inr b) \<longrightarrow> log w' = log w @ map batch_of out))"
proof (cases ev)
  case (Delivery b)
  let ?a = "fold (on_ticket (acc_config acc)) (event_arrivals rt ev) a"
  from assms(2) Delivery have r: "r = Ret ?a" "w' = w" by (simp_all add: delivery_state)
  have "\<exists>new. run_inv (arr @ event_arrivals rt ev) (bs @ new) pub ?a"
  proof (cases "rt_unmarshal_StreamTicket rt b")
    case (Inl err)
    with Delivery assms(1) show ?thesis by (auto simp: event_arrivals_def intro: exI [of _ "[]"])
  next
    case (Inr st)
    from assms(1) have "acc_inv (acc_config acc) a" "batched arr bs (acc_slice a)"
      and ms: "mset bs = mset pub + mset (acc_forwards a)" by (simp_all add: run_inv_def)
    from on_ticket_batched [OF this(1,2), of st] obtain new where
      "acc_forwards (on_ticket (acc_config acc) st a) = acc_forwards a @ new"
      "batched (arr @ [st]) (bs @ new) (acc_slice (on_ticket (acc_config acc) st a))" by blast
    with Delivery Inr assms(1) ms show ?thesis
      by (auto simp: run_inv_def event_arrivals_def on_ticket_inv intro!: exI [of _ new])
  qed
  then obtain new where "run_inv (arr @ event_arrivals rt ev) (bs @ new) pub ?a" by blast
  with r show ?thesis by (intro conjI exI [of _ ?a] exI [of _ new] exI [of _ "[]"]) simp_all
next
  case Tick
  with assms(2) have r: "r = Ret (watchTimeout a)" "w' = w" by simp_all
  from assms(1) have "acc_inv (acc_config acc) a" "batched arr bs (acc_slice a)"
    and ms: "mset bs = mset pub + mset (acc_forwards a)" by (simp_all add: run_inv_def)
  from watchTimeout_batched [OF this(2)] obtain new where
    "acc_forwards (watchTimeout a) = acc_forwards a @ new"
    "batched arr (bs @ new) (acc_slice (watchTimeout a))" by blast
  with assms(1) ms have "run_inv arr (bs @ new) pub (watchTimeout a)"
    by (simp add: run_inv_def watchTimeout_inv)
  with r Tick show ?thesis
    by (intro conjI exI [of _ "watchTimeout a"] exI [of _ new] exI [of _ "[]"])
      (simp_all add: event_arrivals_def)
next
  case (Forwarding i)
  show ?thesis
  proof (cases "i < length (acc_forwards a)")
    case False
    with Forwarding assms show ?thesis
      by (auto simp: event_arrivals_def intro!: exI [of _ "[]"])
  next
    case True
    let ?b = "acc_forwards a ! i"
    let ?a = "a\<lparr>acc_forwards := take i (acc_forwards a) @ drop (Suc i) (acc_forwards a)\<rparr>"
    obtain q w1 where f: "forwardAccumulatedRequests acc ?b w = (q, w1)" by force
    note s = forward_spec [OF f]
    from s f Forwarding True assms(2) have r: "r = Ret ?a" "w' = w1" by (simp_all add: go_bind_def)
    have split: "acc_forwards a = take i (acc_forwards a) @ ?b # drop (Suc i) (acc_forwards a)"
      by (rule id_take_nth_drop [OF True])
    have ok: "batch_ok (acc_config acc) ?b" if "list_all (batch_ok (acc_config acc)) (acc_forwards a)"
      using that True by (simp add: list_all_length)
    have "mset (acc_forwards a) = add_mset ?b (mset (acc_forwards ?a))"
      by (subst split) simp
    moreover have "list_all (batch_ok (acc_config acc)) (acc_forwards ?a)"
      if "list_all (batch_ok (acc_config acc)) (acc_forwards a)"
      using that by (subst (asm) split) simp
    ultimately have "run_inv arr bs (pub @ [?b]) ?a"
      using assms(1) ok by (auto simp: run_inv_def acc_inv_def)
    then have "run_inv (arr @ event_arrivals rt ev) (bs @ []) (pub @ [?b]) ?a"
      using Forwarding by (simp add: event_arrivals_def)
    moreover have "stream_reliable rt (tm_streamClient m) \<longrightarrow>
        (\<forall>ast. \<exists>b. rt_marshal_Accumulated rt ast = Inr b) \<longrightarrow> log w1 = log w @ map batch_of [?b]"
      using forward_ok [OF _ _ f] by simp
    ultimately show ?thesis using r s by (intro conjI exI [of _ ?a] exI [of _ "[]"] exI [of _ "[?b]"]) auto
  qed
qed

lemma acc_run_inv:
  assumes "run_inv arr bs pub a" and "acc_run rt acc evs a w = (r, w')"
  shows "tab w' = tab w \<and> rest w' = rest w \<and> (\<exists>a' new out. r = Ret a' \<and>
    run_inv (arr @ arrivals rt evs) (bs @ new) (pub @ out) a' \<and>
    (\<exists>ys. subseq ys out \<and> log w' = log w @ map batch_of ys \<and>
      (stream_reliable rt (tm_streamClient m) \<longrightarrow>
       (\<forall>ast. \<exists>b. rt_marshal_Accumulated rt ast = Inr b) \<longrightarrow> ys = out)))"
  using assms
proof (induction evs arbitrary: arr bs pub a w)
  case Nil
  then show ?case by (auto intro!: exI [of _ "[]"])
next
  case (Cons ev evs)
  obtain q w1 where st: "acc_step rt acc ev a w = (q, w1)" by force
  from acc_step_inv [OF Cons.prems(1) st] obtain a1 new1 out1 where
    one: "tab w1 = tab w" "rest w1 = rest w" "q = Ret a1"
      "run_inv (arr @ event_arrivals rt ev) (bs @ new1) (pub @ out1) a1"
      "log w1 = log w \<or> log w1 = log w @ map batch_of out1"
      "stream_reliable rt (tm_streamClient m) \<longrightarrow>
       (\<forall>ast. \<exists>b. rt_marshal_Accumulated rt ast = Inr b) \<longrightarrow> log w1 = log w @ map batch_of out1"
    by blast
  from Cons.prems(2) st one(3) have "acc_run rt acc evs a1 w1 = (r, w')" by (simp add: go_bind_def)
  from Cons.IH [OF one(4) this] obtain a' new out ys where
    two: "tab w' = tab w1" "rest w' = rest w1" "r = Ret a'"
      "run_inv ((arr @ event_arrivals rt ev) @ arrivals rt evs) ((bs @ new1) @ new) ((pub @ out1) @ out) a'"
      "subseq ys out" "log w' = log w1 @ map batch_of ys"
      "stream_reliable rt (tm_streamClient m) \<longrightarrow>
       (\<forall>ast. \<exists>b. rt_marshal_Accumulated rt ast = Inr b) \<longrightarrow> ys = out"
    by blast
  obtain zs where zs: "subseq zs out1" "log w1 = log w @ map batch_of zs"
    "stream_reliable rt (tm_streamClient m) \<longrightarrow>
       (\<forall>ast. \<exists>b. rt_marshal_Accumulated rt ast = Inr b) \<longrightarrow> zs = out1"
  proof (cases "log w1 = log w @ map batch_of out1")
    case True
    then show ?thesis by (intro that [of out1]) simp_all
  next
    case False
    with one(5,6) show ?thesis by (intro that [of "[]"]) auto
  qed
  have "subseq (zs @ ys) (out1 @ out)" using zs(1) two(5) by (rule list_emb_append_mono)
  moreover have "log w' = log w @ map batch_of (zs @ ys)" using zs(2) two(6) by simp
  moreover have "run_inv (arr @ arrivals rt (ev # evs)) (bs @ new1 @ new) (pub @ out1 @ out) a'"
    using two(4) by simp
  moreover have "tab w' = tab w" "rest w' = rest w" using one(1,2) two(1,2) by simp_all
  ultimately show ?case using two(3,7) zs(3) by blast
qed

text \<open>A run of a new accumulator.\<close>

lemma run_inv_new: "run_inv [] [] [] \<lparr>acc_seen = {}, acc_slice = [], acc_forwards = [], acc_timeout = d\<rparr>"
  by (simp add: run_inv_def acc_inv_def batch_limit_def)

lemma acc_run_new:
  assumes start: "NewAccumulator ctx queue tm (acc_config acc) w0 = (Ret (acc0, a), w0')"
    and run: "acc_run rt acc evs a w = (r, w')"
  shows "tab w' = tab w \<and> (\<exists>a' bs pub. r = Ret a' \<and>
    batched (arrivals rt evs) bs (acc_slice a') \<and>
    mset bs = mset pub + mset (acc_forwards a') \<and>
    list_all (batch_ok (acc_config acc)) bs \<and>
    length (acc_slice a') < batch_limit (acc_config acc) \<and>
    (\<exists>ys. subseq ys pub \<and> log w' = log w @ map batch_of ys \<and>
      (stream_reliable rt (tm_streamClient m) \<longrightarrow>
       (\<forall>ast. \<exists>b. rt_marshal_Accumulated rt ast = Inr b) \<longrightarrow> ys = pub)))"
proof -
  from start obtain d where a: "a = \<lparr>acc_seen = {}, acc_slice = [], acc_forwards = [], acc_timeout = d\<rparr>"
    by (auto simp: NewAccumulator_def NewTicker_def split: if_splits)
  from acc_run_inv [OF run_inv_new run [unfolded a], unfolded append_Nil]
  obtain a' bs pub where o: "r = Ret a'" "run_inv (arrivals rt evs) bs pub a'" "tab w' = tab w"
    "\<exists>ys. subseq ys pub \<and> log w' = log w @ map batch_of ys \<and>
      (stream_reliable rt (tm_streamClient m) \<longrightarrow>
       (\<forall>ast. \<exists>b. rt_marshal_Accumulated rt ast = Inr b) \<longrightarrow> ys = pub)"
    by blast
  from o(2) have inv: "acc_inv (acc_config acc) a'" "batched (arrivals rt evs) bs (acc_slice a')"
    "mset bs = mset pub + mset (acc_forwards a')" "list_all (batch_ok (acc_config acc)) pub"
    by (simp_all add: run_inv_def)
  from inv(3) have "set bs = set pub \<union> set (acc_forwards a')" by (metis set_mset_mset set_mset_union)
  with inv(1,4) have "list_all (batch_ok (acc_config acc)) bs" by (auto simp: acc_inv_def list_all_iff)
  with o(1,3,4) inv show ?thesis unfolding acc_inv_def by blast
qed

lemma acc_run_append:
  "acc_run rt acc (evs @ evs') a = go_bind (acc_run rt acc evs a) (acc_run rt acc evs')"
  by (induction evs arbitrary: a) (auto simp: go_bind_assoc fun_eq_iff go_bind_def split: prod.splits go.splits)

text \<open>A tick empties the slice, and the goroutines that it starts leave it alone.\<close>

lemma forwarding_slice:
  assumes "acc_step rt acc (Forwarding i) a w = (Ret a', w')"
  shows "acc_slice a' = acc_slice a"
  using assms by (auto simp: go_bind_def split: prod.splits go.splits if_splits)

lemma forwardings_slice:
  assumes "acc_run rt acc (map Forwarding is) a w = (Ret a', w')"
  shows "acc_slice a' = acc_slice a"
  using assms
proof (induction "is" arbitrary: a w)
  case (Cons i "is")
  then have "go_bind (acc_step rt acc (Forwarding i) a) (acc_run rt acc (map Forwarding is)) w = (Ret a', w')"
    by simp
  then show ?case
  proof (cases rule: go_bind_cases)
    case (ret a1 w1)
    with forwarding_slice [OF ret(1)] Cons.IH [OF ret(2)] show ?thesis by simp
  qed simp_all
qed simp

lemma tick_slice:
  assumes "acc_run rt acc (evs @ Tick # map Forwarding is) a w = (Ret a', w')"
  shows "acc_slice a' = []"
proof -
  from assms have "go_bind (acc_run rt acc evs a) (acc_run rt acc (Tick # map Forwarding is)) w = (Ret a', w')"
    by (simp add: acc_run_append)
  then show ?thesis
  proof (cases rule: go_bind_cases)
    case (ret a1 w1)
    then have "acc_run rt acc (map Forwarding is) (watchTimeout a1) w1 = (Ret a', w')" by (simp add: go_bind_def)
    from forwardings_slice [OF this] show ?thesis by (simp add: watchTimeout_def resetRun_def)
  qed simp_all
qed

lemma arrivals_tick: "arrivals rt (evs @ Tick # map Forwarding is) = arrivals rt evs"
proof -
  have "arrivals rt (map Forwarding is) = []" for "is" by (induction "is") (simp_all add: event_arrivals_def)
  then show ?thesis by (induction evs) (simp_all add: event_arrivals_def)
qed

text \<open>After a tick what arrived before it is in a batch, on the stream or in the hands of a goroutine.\<close>

lemma acc_run_tick:
  assumes start: "NewAccumulator ctx queue tm (acc_config acc) w0 = (Ret (acc0, a), w0')"
    and run: "acc_run rt acc (evs @ Tick # map Forwarding is) a w = (r, w')"
  shows "\<exists>a' bs ys. r = Ret a' \<and> acc_slice a' = [] \<and> batched (arrivals rt evs) bs [] \<and>
    log w' = log w @ map batch_of ys \<and> mset ys + mset (acc_forwards a') \<subseteq># mset bs \<and>
    (stream_reliable rt (tm_streamClient m) \<longrightarrow> (\<forall>ast. \<exists>b. rt_marshal_Accumulated rt ast = Inr b) \<longrightarrow>
       mset bs = mset ys + mset (acc_forwards a')) \<and>
    (\<forall>st \<in> set (arrivals rt evs). \<exists>b \<in> set bs. st_MatchRequestId st \<in> st_MatchRequestId ` set b)"
proof -
  from acc_run_new [OF start run] obtain a' bs pub ys where
    o: "r = Ret a'" "batched (arrivals rt evs) bs (acc_slice a')" "mset bs = mset pub + mset (acc_forwards a')"
    "subseq ys pub" "log w' = log w @ map batch_of ys"
    "stream_reliable rt (tm_streamClient m) \<longrightarrow> (\<forall>ast. \<exists>b. rt_marshal_Accumulated rt ast = Inr b) \<longrightarrow> ys = pub"
    unfolding arrivals_tick by blast
  have empty: "acc_slice a' = []" by (rule tick_slice [OF run [unfolded o(1)]])
  with o(2) have b: "batched (arrivals rt evs) bs []" by simp
  show ?thesis
    using o(1,3,5,6) empty b batched_covers [OF b] subseq_mset [OF o(4)]
    by (intro exI [of _ a'] exI [of _ bs] exI [of _ ys]) auto
qed

end

end
