(* ===== verification/CustomLogic.thy ===== *)
theory CustomLogic
  imports Runtime
begin

text \<open>
  \<open>internal/managers/customlogic/customlogic.go\<close>: the clients of the two services that an operator
  of the matchmaker provides, one that proposes matches and one that finds a game server. The gRPC
  clients are parameters. The stream of a \<open>MakeMatches\<close> call is the list of what its \<open>Recv\<close> returns,
  one element per call; after the last element \<open>Recv\<close> waits.
\<close>

section \<open>Proposing matches\<close>

datatype recv = RecvResponse api_MakeMatchesResponse | RecvError error

type_synonym 'w MatchMakerServiceClient =
  "ctx \<Rightarrow> api_MakeMatchesRequest \<Rightarrow> 'w \<Rightarrow> (error + recv list) \<times> 'w"

text \<open>A manager is a struct whose only field is its client: it is represented by the client.\<close>

type_synonym 'w matchmakerManager = "'w MatchMakerServiceClient"

definition NewMatchmakerManager :: "'w MatchMakerServiceClient \<Rightarrow> 'w matchmakerManager" where
  "NewMatchmakerManager matchMakerClient = matchMakerClient"

text \<open>
  The loop of \<open>MakeMatches\<close>. The callback runs on the world and on the variables \<open>'x\<close> that its
  closure captures.
\<close>

fun recv_loop ::
  "(api_Match option \<Rightarrow> ('s, unit) proc) \<Rightarrow> recv list \<Rightarrow> ('s, error option) proc" where
  "recv_loop f [] = go_block"
| "recv_loop f (RecvError err # rs) =
    (if err = ErrEOF then go_return None else go_return (Some err))"
| "recv_loop f (RecvResponse resp # rs) =
    go_bind (f (mmresp_Match resp)) (\<lambda>_. recv_loop f rs)"

definition MakeMatches ::
  "'w matchmakerManager \<Rightarrow> ctx \<Rightarrow> api_MakeMatchesRequest \<Rightarrow>
    (api_Match option \<Rightarrow> ('w \<times> 'x, unit) proc) \<Rightarrow> ('w \<times> 'x, error option) proc" where
  "MakeMatches client ctx req f = (\<lambda>(w, x).
    case client ctx req w of
      (Inl err, w') \<Rightarrow> (Ret (Some err), (w', x))
    | (Inr cli, w') \<Rightarrow> recv_loop f cli (w', x))"

section \<open>Finding a game server\<close>

type_synonym 'w AssignmentServiceClient =
  "ctx \<Rightarrow> api_MakeAssignmentRequest \<Rightarrow> 'w \<Rightarrow> (error + api_MakeAssignmentResponse) \<times> 'w"

type_synonym 'w assignmentManager = "'w AssignmentServiceClient"

definition NewAssignmentManager :: "'w AssignmentServiceClient \<Rightarrow> 'w assignmentManager" where
  "NewAssignmentManager assignmentClient = assignmentClient"

definition MakeAssignment ::
  "'w assignmentManager \<Rightarrow> ctx \<Rightarrow> api_Match option \<Rightarrow>
    ('w, error + api_GameServer option) proc" where
  "MakeAssignment client ctx match =
    go_bind (call (client ctx \<lparr>mareq_Match = match\<rparr>)) (\<lambda>res.
      case res of
        Inl err \<Rightarrow> go_return (Inl err)
      | Inr resp \<Rightarrow> go_return (Inr (maresp_GameServer resp)))"

section \<open>Facts\<close>

lemma new_managers [simp]: "NewMatchmakerManager c = c" "NewAssignmentManager c' = c'"
  by (simp_all add: NewMatchmakerManager_def NewAssignmentManager_def)

text \<open>What every callback keeps, the loop keeps.\<close>

lemma recv_loop_invariant:
  assumes step: "\<And>mt s r s'. I s \<Longrightarrow> f mt s = (r, s') \<Longrightarrow> I s'"
    and "I s" and "recv_loop f rs s = (r, s')"
  shows "I s'"
  using assms(2,3)
proof (induction rs arbitrary: s)
  case Nil
  then show ?case by simp
next
  case (Cons x rs)
  show ?case
  proof (cases x)
    case (RecvError err)
    with Cons.prems show ?thesis by (simp split: if_splits)
  next
    case (RecvResponse resp)
    with Cons.prems(2) have "go_bind (f (mmresp_Match resp)) (\<lambda>_. recv_loop f rs) s = (r, s')" by simp
    then show ?thesis
    proof (cases rule: go_bind_cases)
      case (ret a s1)
      from step [OF Cons.prems(1) ret(1)] ret(2) show ?thesis by (rule Cons.IH)
    next
      case (panic p)
      from step [OF Cons.prems(1) panic(1)] show ?thesis .
    next
      case blocked
      from step [OF Cons.prems(1) blocked(1)] show ?thesis .
    qed
  qed
qed

text \<open>The responses in front of the end of a stream.\<close>

definition eof_stream :: "api_Match list \<Rightarrow> recv list" where
  "eof_stream ms = map (\<lambda>mt. RecvResponse \<lparr>mmresp_Match = Some mt\<rparr>) ms @ [RecvError ErrEOF]"

lemma eof_stream_simps [simp]:
  "recv_loop f (eof_stream []) s = (Ret None, s)"
  "recv_loop f (eof_stream (mt # ms)) s =
    go_bind (f (Some mt)) (\<lambda>_. recv_loop f (eof_stream ms)) s"
  by (simp_all add: eof_stream_def)

end
