(* ===== verification/Matcher.thy ===== *)
theory Matcher
  imports Tickets Matches CustomLogic
begin

text \<open>
  \<open>internal/app/backend/matcher.go\<close>: the matcher of one queue. For every batch of the accumulator it
  reads the requests, lets the custom logic propose matches, creates the matches, and requeues the
  tickets that did not get one. The closure given to \<open>MakeMatches\<close> captures the map of the
  tickets that have not been matched yet: it is the second component of the state it runs on.
\<close>

record 'w matcher =
  mat_ctx :: ctx
  mat_matchmakingQueue :: string
  mat_customLogic :: "'w matchmakerManager"
  mat_ticketsManager :: "'w tickets_Manager"
  mat_matchesManager :: "'w matches_Manager"

definition NewMatcher :: "ctx \<Rightarrow> string \<Rightarrow> 'w tickets_Manager \<Rightarrow> 'w matches_Manager \<Rightarrow>
    'w matchmakerManager \<Rightarrow> 'w matcher" where
  "NewMatcher ctx queue tm mm customLogicManager =
    \<lparr>mat_ctx = ctx, mat_matchmakingQueue = queue, mat_customLogic = customLogicManager,
     mat_ticketsManager = tm, mat_matchesManager = mm\<rparr>"

definition requeueAll :: "'w matcher \<Rightarrow> ctx \<Rightarrow> db_MatchRequest list \<Rightarrow> ('w, unit) proc" where
  "requeueAll m ctx matchRequestSlice =
    (let q = map (\<lambda>v. Some (StreamTicketFromDBRequest v)) matchRequestSlice
     in TM_RequeueMatchRequests (mat_ticketsManager m) ctx q)"

text \<open>The closure that handles one proposed match.\<close>

definition on_match ::
  "'w matcher \<Rightarrow> ctx \<Rightarrow> api_Match option \<Rightarrow> ('w \<times> StreamTicket gomap, unit) proc" where
  "on_match m ctx match_ptr =
    go_bind (no_capture (MM_CreateMatch (mat_matchesManager m) match_ptr)) (\<lambda>res.
      if res \<noteq> Inr True
      then
        go_bind (deref match_ptr) (\<lambda>match.
        go_bind captured (\<lambda>matchRequestMap.
          let matchTickets = map (fmlookup matchRequestMap) (match_MatchRequestIds match)
          in no_capture (TM_RequeueMatchRequests (mat_ticketsManager m) ctx matchTickets)))
      else
        go_bind (deref match_ptr) (\<lambda>match.
        go_bind captured (\<lambda>matchRequestMap.
          set_captured (fold fmdrop (match_MatchRequestIds match) matchRequestMap))))"

definition request_map :: "db_MatchRequest list \<Rightarrow> StreamTicket gomap" where
  "request_map matchRequestSlice =
    fold (\<lambda>mr matchRequestMap. fmupd (dbreq_Id mr) (StreamTicketFromDBRequest mr) matchRequestMap)
      matchRequestSlice fmempty"

text \<open>The end of \<open>makeMatches\<close>: the tickets left in the map.\<close>

definition requeueUnmatched ::
  "'w runtime \<Rightarrow> 'w matcher \<Rightarrow> ctx \<Rightarrow> StreamTicket gomap \<Rightarrow> ('w, unit) proc" where
  "requeueUnmatched rt m ctx matchRequestMap =
    (if fmdom' matchRequestMap \<noteq> {}
     then (\<lambda>w.
       let requeue = map (\<lambda>(k, v). Some v) (range_map (rt_order rt w) matchRequestMap)
       in TM_RequeueMatchRequests (mat_ticketsManager m) ctx requeue w)
     else go_return ())"

definition makeMatches ::
  "'w runtime \<Rightarrow> 'w matcher \<Rightarrow> ctx \<Rightarrow> db_MatchRequest list \<Rightarrow> ('w, unit) proc" where
  "makeMatches rt m ctx matchRequestSlice w =
    (let subs = map SubmissionFromDBRequest matchRequestSlice;
         matchRequest = \<lparr>mmreq_Submissions = subs\<rparr>
     in case MakeMatches (mat_customLogic m) ctx matchRequest (on_match m ctx)
               (w, request_map matchRequestSlice) of
          (Ret err, (w1, matchRequestMap)) \<Rightarrow>
            go_bind (if err \<noteq> None then requeueAll m ctx matchRequestSlice else go_return ())
              (\<lambda>_. requeueUnmatched rt m ctx matchRequestMap) w1
        | (Panic p, (w1, matchRequestMap)) \<Rightarrow> (Panic p, w1)
        | (Blocked, (w1, matchRequestMap)) \<Rightarrow> (Blocked, w1))"

text \<open>The callback of \<open>Run\<close>, and \<open>Run\<close>.\<close>

definition on_batch ::
  "'w runtime \<Rightarrow> 'w matcher \<Rightarrow> ctx \<Rightarrow> StreamTicket list \<Rightarrow> ('w, unit) proc" where
  "on_batch rt m ctx sts =
    (let ids = map st_MatchRequestId sts in
     go_bind (TM_GetMatchRequests (mat_ticketsManager m) ids) (\<lambda>res.
       case res of
         Inl err \<Rightarrow>
           go_bind (TM_RequeueMatchRequests (mat_ticketsManager m) ctx (map Some sts))
             (\<lambda>_. makeMatches rt m ctx [])
       | Inr reqs \<Rightarrow> makeMatches rt m ctx reqs))"

definition Matcher_Run :: "'w runtime \<Rightarrow> 'w matcher \<Rightarrow> ('w, error option) proc" where
  "Matcher_Run rt m =
    go_bind (TM_StreamAccumulatedMatchRequests (mat_ticketsManager m) (mat_matchmakingQueue m))
      (\<lambda>err. case err of
         Some e \<Rightarrow> go_return (Some e)
       | None \<Rightarrow> (\<lambda>w. if rt_done rt (mat_ctx m) w then (Ret None, w) else (Blocked, w)))"

definition Matcher_delivery :: "'w runtime \<Rightarrow> 'w matcher \<Rightarrow> bytes \<Rightarrow> ('w, unit) proc" where
  "Matcher_delivery rt m =
    StreamAccumulatedMatchRequests_callback rt (on_batch rt m (mat_ctx m))"

end
