(* ===== verification/Matcher_Laws.thy ===== *)
theory Matcher_Laws
  imports Matcher Matches_Laws
begin

text \<open>
  The matcher over the managers that the service builds: no ticket of a batch is lost when the
  clients do not fail, whatever matches the custom logic proposes and however its stream ends; and
  the proposals that make the matcher panic.
\<close>

text \<open>A ticket is looked after: it is linked to a match, or it has been announced again.\<close>

definition looked_after ::
  "'w runtime \<Rightarrow> table \<Rightarrow> message_log \<Rightarrow> message_log \<Rightarrow> db_MatchRequest \<Rightarrow> bool" where
  "looked_after rt t l l' mr \<longleftrightarrow>
    t collectionTicketAssignments (dbreq_Id mr) \<noteq> None \<or>
    ticket_msg rt (StreamTicketFromDBRequest mr) \<in> set (drop (length l) l')"

lemma request_map_lookup:
  assumes "distinct (map dbreq_Id mrs)"
  shows "mr \<in> set mrs \<Longrightarrow>
      fmlookup (request_map mrs) (dbreq_Id mr) = Some (StreamTicketFromDBRequest mr)"
    and "fmlookup (request_map mrs) k = Some st \<Longrightarrow>
      \<exists>mr \<in> set mrs. dbreq_Id mr = k \<and> st = StreamTicketFromDBRequest mr"
    and "k \<notin> dbreq_Id ` set mrs \<Longrightarrow> fmlookup (request_map mrs) k = None"
proof -
  have *: "fmlookup (fold (\<lambda>mr acc. fmupd (dbreq_Id mr) (StreamTicketFromDBRequest mr) acc) mrs acc0) k =
    (case map_of (map (\<lambda>mr. (dbreq_Id mr, StreamTicketFromDBRequest mr)) mrs) k of
       None \<Rightarrow> fmlookup acc0 k | Some st \<Rightarrow> Some st)" for acc0 k
    using assms
  proof (induction mrs arbitrary: acc0)
    case (Cons mr mrs)
    have "map_of (map (\<lambda>mr. (dbreq_Id mr, StreamTicketFromDBRequest mr)) mrs) (dbreq_Id mr) = None"
      using Cons.prems by (auto simp: map_of_eq_None_iff comp_def)
    with Cons show ?case by (auto split: option.splits)
  qed simp
  then have lookup: "fmlookup (request_map mrs) k =
      map_of (map (\<lambda>mr. (dbreq_Id mr, StreamTicketFromDBRequest mr)) mrs) k" for k
    by (simp add: request_map_def split: option.splits)
  show "mr \<in> set mrs \<Longrightarrow>
      fmlookup (request_map mrs) (dbreq_Id mr) = Some (StreamTicketFromDBRequest mr)"
    unfolding lookup using assms by (intro map_of_is_SomeI) (auto simp: comp_def)
  show "fmlookup (request_map mrs) k = Some st \<Longrightarrow>
      \<exists>mr \<in> set mrs. dbreq_Id mr = k \<and> st = StreamTicketFromDBRequest mr"
    unfolding lookup by (drule map_of_SomeD) auto
  show "k \<notin> dbreq_Id ` set mrs \<Longrightarrow> fmlookup (request_map mrs) k = None"
    unfolding lookup by (auto simp: map_of_eq_None_iff image_iff)
qed

lemma StreamTicket_id: "st_MatchRequestId (StreamTicketFromDBRequest mr) = dbreq_Id mr"
  by (simp add: StreamTicketFromDBRequest_def)

lemma fold_fmdrop_lookup: "fmlookup (fold fmdrop ks mm) k = (if k \<in> set ks then None else fmlookup mm k)"
  by (induction ks arbitrary: mm) auto

text \<open>
  Proposals that the matcher can take: no match is \<open>nil\<close>, every ticket named is in the batch, and no
  ticket is named by two matches.
\<close>

fun sane_proposals :: "string set \<Rightarrow> recv list \<Rightarrow> bool" where
  "sane_proposals A [] = False"
| "sane_proposals A (RecvError e # rs) = True"
| "sane_proposals A (RecvResponse resp # rs) =
    (case mmresp_Match resp of None \<Rightarrow> False
     | Some mt \<Rightarrow> set (match_MatchRequestIds mt) \<subseteq> A \<and>
         sane_proposals (A - set (match_MatchRequestIds mt)) rs)"

locale matcher_env = matches_env rt m tab log rest plain
  for rt :: "'w runtime" and m :: "'w tickets_manager" and tab :: "'w \<Rightarrow> table"
    and log :: "'w \<Rightarrow> message_log" and rest :: "'w \<Rightarrow> 'r" and plain :: "string \<Rightarrow> bool" +
  fixes mat :: "'w matcher"
  assumes mat_tickets: "mat_ticketsManager mat = tickets_of rt m"
    and mat_matches: "mat_matchesManager mat = matches_of rt m"
    and client_frame: "mat_customLogic mat ctx req w = (res, w') \<Longrightarrow>
      tab w' = tab w \<and> log w' = log w \<and> rest w' = rest w"
begin

text \<open>
  The invariant of the proposals: a ticket that left the map is linked, and the map holds tickets of
  the batch only. The log only grows.
\<close>

definition batch_inv :: "db_MatchRequest list \<Rightarrow> message_log \<Rightarrow> 'w \<times> StreamTicket gomap \<Rightarrow> bool" where
  "batch_inv reqs l = (\<lambda>(w, mm). prefix l (log w) \<and>
    (\<forall>k st. fmlookup mm k = Some st \<longrightarrow> st_MatchRequestId st = k) \<and>
    (\<forall>mr \<in> set reqs. fmlookup mm (dbreq_Id mr) = Some (StreamTicketFromDBRequest mr) \<or>
       tab w collectionTicketAssignments (dbreq_Id mr) \<noteq> None))"

lemma batch_inv_grow:
  assumes "batch_inv reqs l (w, mm)" and "tab w' = tab w" and "log w' = log w @ out"
  shows "batch_inv reqs l (w', mm)"
  using assms by (auto simp: batch_inv_def)

text \<open>A proposal that does not become a match only requeues.\<close>

lemma requeue_grow:
  assumes "RequeueMatchRequests rt m ctx ts w = (r, w')"
  shows "tab w' = tab w \<and> (\<exists>out. log w' = log w @ out)"
proof (cases "None \<in> set ts")
  case True
  with assms show ?thesis by (simp add: RequeueMatchRequests_nil)
next
  case False
  with assms RequeueMatchRequests_spec [of ctx "map the ts" w r w'] show ?thesis
    unfolding map_Some_the [OF False] by auto
qed

lemma on_match_inv:
  assumes store: "store_reliable (tm_kvStore m)"
    and stream: "stream_reliable rt (tm_streamClient m)"
    and marshal: "\<forall>mt. \<exists>b. rt_marshal_Match rt mt = Inr b"
    and inv: "batch_inv reqs l s" and run: "on_match mat ctx mp s = (r, s')"
  shows "batch_inv reqs l s'"
proof -
  obtain w mm where s: "s = (w, mm)" by force
  show ?thesis
  proof (cases mp)
    case None
    with run s inv show ?thesis
      by (simp add: on_match_def mat_matches CreateMatch_None no_capture_def go_bind_def)
  next
    case (Some mt)
    obtain w1 where c: "CreateMatch rt (matches_manager_of rt m) (Some mt) w =
        (Ret (Inr (links_free (tab w) mt)), w1)"
      using CreateMatch_result [OF store stream marshal] by blast
    note l = CreateMatch_links [OF c]
    show ?thesis
    proof (cases "links_free (tab w) mt")
      case True
      with run s Some c have s': "s' = (w1, fold fmdrop (match_MatchRequestIds mt) mm)"
        by (simp add: on_match_def mat_matches no_capture_def go_bind_def)
      from l(2) have "prefix (log w) (log w1)" by (auto simp: prefix_def)
      moreover from inv s have "prefix l (log w)" by (simp add: batch_inv_def)
      ultimately have "prefix l (log w1)" using prefix_order.trans by blast
      with inv s s' True l(3) show ?thesis by (auto simp: batch_inv_def fold_fmdrop_lookup)
    next
      case False
      obtain q w2 where q: "RequeueMatchRequests rt m ctx
          (map (fmlookup mm) (match_MatchRequestIds mt)) w1 = (q, w2)" by force
      from requeue_grow [OF q] obtain out where out: "tab w2 = tab w1" "log w2 = log w1 @ out" by blast
      from run s Some c False q have s': "s' = (w2, mm)"
        by (simp add: on_match_def mat_matches mat_tickets no_capture_def go_bind_def)
      from l(2) obtain out0 where "log w1 = log w @ out0" by blast
      with inv s s' False l(3) out show ?thesis by (auto simp: batch_inv_def)
    qed
  qed
qed

text \<open>What the requeue at the end does for the tickets left in the map.\<close>

lemma requeueUnmatched_ok:
  assumes store: "store_reliable (tm_kvStore m)"
    and stream: "stream_reliable rt (tm_streamClient m)"
    and only: "\<forall>k st. fmlookup mm k = Some st \<longrightarrow> st_MatchRequestId st = k"
  shows "\<exists>w'. requeueUnmatched rt mat ctx mm w = (Ret (), w') \<and> tab w' = tab w \<and>
    (\<exists>out. log w' = log w @ out \<and>
      (\<forall>k st. fmlookup mm k = Some st \<longrightarrow> tab w collectionTicketAssignments k = None \<longrightarrow>
         ticket_msg rt st \<in> set out))"
proof (cases "fmdom' mm = {}")
  case True
  then have "fmlookup mm k = None" for k by (metis empty_iff fmdom'_notI fmdom'I option.exhaust)
  with True show ?thesis by (simp add: requeueUnmatched_def)
next
  case False
  let ?sts = "map snd (range_map (rt_order rt w) mm)"
  have eq: "map (\<lambda>(k, v). Some v) (range_map (rt_order rt w) mm) = map Some ?sts" by (auto split: prod.splits)
  obtain w' where r: "RequeueMatchRequests rt m ctx (map Some ?sts) w = (Ret (), w')" "tab w' = tab w"
    "log w' = log w @ map (ticket_msg rt) (unallocated (tab w) ?sts)"
    using RequeueMatchRequests_ok [OF store stream] by blast
  have "ticket_msg rt st \<in> set (map (ticket_msg rt) (unallocated (tab w) ?sts))"
    if k: "fmlookup mm k = Some st" and free: "tab w collectionTicketAssignments k = None" for k st
  proof -
    from k have "(k, st) \<in> set (range_map (rt_order rt w) mm)" by (simp add: set_range_map [OF order])
    then have "st \<in> set ?sts" by force
    moreover from only k have "st_MatchRequestId st = k" by blast
    ultimately show ?thesis using free by (auto simp: unallocated_def)
  qed
  moreover have "requeueUnmatched rt mat ctx mm w = (Ret (), w')"
    using False r(1) by (simp add: requeueUnmatched_def mat_tickets eq Let_def)
  ultimately show ?thesis using r by blast
qed

lemma batch_inv_start:
  assumes "distinct (map dbreq_Id reqs)" and "log w1 = log w"
  shows "batch_inv reqs (log w) (w1, request_map reqs)"
  using request_map_lookup(1,2) [OF assms(1)] assms(2) unfolding batch_inv_def
  by (force simp: StreamTicket_id)

text \<open>The end of a batch, from the state in which the custom logic leaves it.\<close>

lemma finish_ok:
  assumes store: "store_reliable (tm_kvStore m)"
    and stream: "stream_reliable rt (tm_streamClient m)"
    and inv: "batch_inv reqs l (w, mm)"
  shows "\<exists>w'. go_bind (if err \<noteq> None then requeueAll mat ctx reqs else go_return ())
      (\<lambda>_. requeueUnmatched rt mat ctx mm) w = (Ret (), w') \<and>
    (\<forall>mr \<in> set reqs. looked_after rt (tab w') l (log w') mr)"
proof -
  obtain w1 out1 where one: "(if err \<noteq> None then requeueAll mat ctx reqs else go_return ()) w = (Ret (), w1)"
    "tab w1 = tab w" "log w1 = log w @ out1"
  proof (cases "err = None")
    case True
    then show ?thesis by (intro that [of w "[]"]) simp_all
  next
    case False
    have eq: "map (\<lambda>v. Some (StreamTicketFromDBRequest v)) reqs = map Some (map StreamTicketFromDBRequest reqs)"
      by simp
    from RequeueMatchRequests_ok [OF store stream, of ctx "map StreamTicketFromDBRequest reqs" w]
    obtain w1 where "RequeueMatchRequests rt m ctx (map Some (map StreamTicketFromDBRequest reqs)) w =
        (Ret (), w1)" "tab w1 = tab w"
      "log w1 = log w @ map (ticket_msg rt) (unallocated (tab w) (map StreamTicketFromDBRequest reqs))"
      by blast
    with False show ?thesis
      by (intro that) (auto simp: requeueAll_def mat_tickets eq Let_def simp del: map_map)
  qed
  from inv have only: "\<forall>k st. fmlookup mm k = Some st \<longrightarrow> st_MatchRequestId st = k"
    by (simp add: batch_inv_def)
  from requeueUnmatched_ok [OF store stream only] obtain w' out where
    two: "requeueUnmatched rt mat ctx mm w1 = (Ret (), w')" "tab w' = tab w1" "log w' = log w1 @ out"
    "\<forall>k st. fmlookup mm k = Some st \<longrightarrow> tab w1 collectionTicketAssignments k = None \<longrightarrow>
       ticket_msg rt st \<in> set out"
    by blast
  from inv obtain out0 where "log w = l @ out0" by (auto simp: batch_inv_def prefix_def)
  with one(3) two(3) have log: "log w' = l @ out0 @ out1 @ out" by simp
  have "looked_after rt (tab w') l (log w') mr" if mr: "mr \<in> set reqs" for mr
  proof (cases "tab w' collectionTicketAssignments (dbreq_Id mr) = None")
    case True
    with inv mr one(2) two(2) have "fmlookup mm (dbreq_Id mr) = Some (StreamTicketFromDBRequest mr)"
      by (auto simp: batch_inv_def)
    with True two(2,4) have "ticket_msg rt (StreamTicketFromDBRequest mr) \<in> set out" by auto
    then show ?thesis by (simp add: looked_after_def log)
  next
    case False
    then show ?thesis by (simp add: looked_after_def)
  qed
  with one(1) two(1) show ?thesis by (auto simp: go_bind_Ret)
qed

lemma makeMatches_keeps:
  assumes store: "store_reliable (tm_kvStore m)"
    and stream: "stream_reliable rt (tm_streamClient m)"
    and marshal: "\<forall>mt. \<exists>b. rt_marshal_Match rt mt = Inr b"
    and dist: "distinct (map dbreq_Id reqs)"
    and run: "makeMatches rt mat ctx reqs w = (Ret (), w')"
  shows "\<forall>mr \<in> set reqs. looked_after rt (tab w') (log w) (log w') mr"
proof -
  let ?req = "\<lparr>mmreq_Submissions = map SubmissionFromDBRequest reqs\<rparr>"
  obtain r w2 mm where mk: "MakeMatches (mat_customLogic mat) ctx ?req (on_match mat ctx)
      (w, request_map reqs) = (r, (w2, mm))" by (metis prod.exhaust)
  obtain res w1 where cl: "mat_customLogic mat ctx ?req w = (res, w1)" by force
  from client_frame [OF cl] have start: "batch_inv reqs (log w) (w1, request_map reqs)"
    by (intro batch_inv_start [OF dist]) simp
  have inv: "batch_inv reqs (log w) (w2, mm)"
  proof (cases res)
    case (Inl err)
    with mk cl start show ?thesis by (simp add: MakeMatches_def)
  next
    case (Inr rs)
    with mk cl have "recv_loop (on_match mat ctx) rs (w1, request_map reqs) = (r, (w2, mm))"
      by (simp add: MakeMatches_def)
    from recv_loop_invariant [where I = "batch_inv reqs (log w)", OF _ start this]
      on_match_inv [OF store stream marshal] show ?thesis by blast
  qed
  from run mk obtain err where "r = Ret err"
    by (cases r) (auto simp: makeMatches_def Let_def)
  with run mk have "go_bind (if err \<noteq> None then requeueAll mat ctx reqs else go_return ())
      (\<lambda>_. requeueUnmatched rt mat ctx mm) w2 = (Ret (), w')"
    by (simp add: makeMatches_def Let_def)
  with finish_ok [OF store stream inv, of err ctx] show ?thesis by auto
qed

lemma recv_loop_sane:
  assumes store: "store_reliable (tm_kvStore m)"
    and stream: "stream_reliable rt (tm_streamClient m)"
    and marshal: "\<forall>mt. \<exists>b. rt_marshal_Match rt mt = Inr b"
    and "sane_proposals A rs" and "A \<subseteq> fmdom' mm"
  shows "\<exists>err s'. recv_loop (on_match mat ctx) rs (w, mm) = (Ret err, s')"
  using assms(4,5)
proof (induction A rs arbitrary: w mm rule: sane_proposals.induct)
  case (3 A resp rs)
  then obtain mt where mt: "mmresp_Match resp = Some mt" "set (match_MatchRequestIds mt) \<subseteq> A"
    "sane_proposals (A - set (match_MatchRequestIds mt)) rs" by (auto split: option.splits)
  obtain w1 where c: "CreateMatch rt (matches_manager_of rt m) (Some mt) w =
      (Ret (Inr (links_free (tab w) mt)), w1)"
    using CreateMatch_result [OF store stream marshal] by blast
  show ?case
  proof (cases "links_free (tab w) mt")
    case True
    let ?mm = "fold fmdrop (match_MatchRequestIds mt) mm"
    from c True have f: "on_match mat ctx (Some mt) (w, mm) = (Ret (), (w1, ?mm))"
      by (simp add: on_match_def mat_matches no_capture_def go_bind_def)
    have "A - set (match_MatchRequestIds mt) \<subseteq> fmdom' ?mm"
      using "3.prems"(2) by (force simp: fmlookup_dom'_iff fold_fmdrop_lookup)
    from "3.IH" [OF mt(1,3) this, of w1] f mt(1) show ?thesis by (simp add: go_bind_Ret)
  next
    case False
    let ?ts = "map (fmlookup mm) (match_MatchRequestIds mt)"
    have "None \<notin> set ?ts" using mt(2) "3.prems"(2) by (force simp: fmlookup_dom'_iff)
    then obtain w2 where q: "RequeueMatchRequests rt m ctx ?ts w1 = (Ret (), w2)"
      using RequeueMatchRequests_ok [OF store stream, of ctx "map the ?ts" w1] map_Some_the by metis
    from c False q have f: "on_match mat ctx (Some mt) (w, mm) = (Ret (), (w2, mm))"
      by (simp add: on_match_def mat_matches mat_tickets no_capture_def go_bind_def)
    have "A - set (match_MatchRequestIds mt) \<subseteq> fmdom' mm" using "3.prems"(2) by blast
    from "3.IH" [OF mt(1,3) this, of w2] f mt(1) show ?thesis by (simp add: go_bind_Ret)
  qed
qed auto

lemma makeMatches_returns:
  assumes store: "store_reliable (tm_kvStore m)"
    and stream: "stream_reliable rt (tm_streamClient m)"
    and marshal: "\<forall>mt. \<exists>b. rt_marshal_Match rt mt = Inr b"
    and dist: "distinct (map dbreq_Id reqs)"
    and client: "\<And>rs w1. mat_customLogic mat ctx \<lparr>mmreq_Submissions = map SubmissionFromDBRequest reqs\<rparr> w =
      (Inr rs, w1) \<Longrightarrow> sane_proposals (dbreq_Id ` set reqs) rs"
  shows "\<exists>w'. makeMatches rt mat ctx reqs w = (Ret (), w')"
proof -
  let ?req = "\<lparr>mmreq_Submissions = map SubmissionFromDBRequest reqs\<rparr>"
  obtain res w1 where cl: "mat_customLogic mat ctx ?req w = (res, w1)" by force
  from client_frame [OF cl] have start: "batch_inv reqs (log w) (w1, request_map reqs)"
    by (intro batch_inv_start [OF dist]) simp
  have "\<exists>err w2 mm. MakeMatches (mat_customLogic mat) ctx ?req (on_match mat ctx)
      (w, request_map reqs) = (Ret err, (w2, mm)) \<and> batch_inv reqs (log w) (w2, mm)"
  proof (cases res)
    case (Inl err)
    with cl start show ?thesis by (simp add: MakeMatches_def)
  next
    case (Inr rs)
    have "dbreq_Id ` set reqs \<subseteq> fmdom' (request_map reqs)"
      using request_map_lookup(1) [OF dist] by (auto simp: fmlookup_dom'_iff)
    from recv_loop_sane [OF store stream marshal client [OF cl [unfolded Inr]] this, of ctx w1]
    obtain err w2 mm where
      l: "recv_loop (on_match mat ctx) rs (w1, request_map reqs) = (Ret err, (w2, mm))" by auto
    from recv_loop_invariant [where I = "batch_inv reqs (log w)", OF _ start l]
      on_match_inv [OF store stream marshal] have "batch_inv reqs (log w) (w2, mm)" by blast
    with l cl Inr show ?thesis by (simp add: MakeMatches_def)
  qed
  then obtain err w2 mm where mk: "MakeMatches (mat_customLogic mat) ctx ?req (on_match mat ctx)
      (w, request_map reqs) = (Ret err, (w2, mm))" and inv: "batch_inv reqs (log w) (w2, mm)" by blast
  from finish_ok [OF store stream inv, of err ctx] mk show ?thesis
    by (auto simp: makeMatches_def Let_def)
qed

text \<open>A refused proposal that names a ticket outside the map stops the matcher.\<close>

lemma on_match_unknown:
  assumes "CreateMatch rt (matches_manager_of rt m) (Some mt) w = (Ret res, w1)" and "res \<noteq> Inr True"
    and "k \<in> set (match_MatchRequestIds mt)" and "fmlookup mm k = None"
  shows "on_match mat ctx (Some mt) (w, mm) = (Panic NilDereference, (w1, mm))"
proof -
  have "None \<in> set (map (fmlookup mm) (match_MatchRequestIds mt))"
    using assms(3,4) by (metis image_eqI list.set_map)
  from RequeueMatchRequests_nil [OF this] assms(1,2) show ?thesis
    by (simp add: on_match_def mat_matches mat_tickets no_capture_def go_bind_def)
qed

text \<open>Two proposals that share a ticket: the second stops the matcher.\<close>

lemma makeMatches_overlap:
  assumes store: "store_reliable (tm_kvStore m)"
    and stream: "stream_reliable rt (tm_streamClient m)"
    and marshal: "\<forall>mt. \<exists>b. rt_marshal_Match rt mt = Inr b"
    and proposals: "mat_customLogic mat ctx \<lparr>mmreq_Submissions = map SubmissionFromDBRequest reqs\<rparr> w =
      (Inr (RecvResponse \<lparr>mmresp_Match = Some m1\<rparr> # RecvResponse \<lparr>mmresp_Match = Some m2\<rparr> # rs), w1)"
    and free: "links_free (tab w) m1"
    and shared: "k \<in> set (match_MatchRequestIds m1)" "k \<in> set (match_MatchRequestIds m2)"
  shows "\<exists>w'. makeMatches rt mat ctx reqs w = (Panic NilDereference, w')"
proof -
  from client_frame [OF proposals] free have free1: "links_free (tab w1) m1" by simp
  obtain w2 where c1: "CreateMatch rt (matches_manager_of rt m) (Some m1) w1 = (Ret (Inr True), w2)"
    using CreateMatch_result [OF store stream marshal, of m1 w1] free1 by auto
  let ?mm = "fold fmdrop (match_MatchRequestIds m1) (request_map reqs)"
  from c1 have f1: "on_match mat ctx (Some m1) (w1, request_map reqs) = (Ret (), (w2, ?mm))"
    by (simp add: on_match_def mat_matches no_capture_def go_bind_def)
  from CreateMatch_links(3) [OF c1, of k] shared(1)
  have "tab w2 collectionTicketAssignments k \<noteq> None" by simp
  with shared(2) have "\<not> links_free (tab w2) m2" by (auto simp: links_free_def)
  then obtain w3 where c2: "CreateMatch rt (matches_manager_of rt m) (Some m2) w2 = (Ret (Inr False), w3)"
    using CreateMatch_result [OF store stream marshal, of m2 w2] by auto
  have "fmlookup ?mm k = None" using shared(1) by (simp add: fold_fmdrop_lookup)
  from on_match_unknown [OF c2 _ shared(2) this]
  have f2: "on_match mat ctx (Some m2) (w2, ?mm) = (Panic NilDereference, (w3, ?mm))" by simp
  show ?thesis using proposals f1 f2
    by (simp add: makeMatches_def MakeMatches_def go_bind_def Let_def)
qed

text \<open>What the callback of the service reads: the stored tickets of the message, each once.\<close>

lemma batch_read:
  assumes store: "store_reliable (tm_kvStore m)" and wf: "tickets_wf rt (tab w)"
  obtains reqs w1 where "GetMatchRequests rt m (map st_MatchRequestId sts) w = (Ret (Inr reqs), w1)"
    "tab w1 = tab w" "log w1 = log w" "distinct (map dbreq_Id reqs)"
    "\<And>st q. st \<in> set sts \<Longrightarrow> ticket_at rt (tab w) (st_MatchRequestId st) = Some q \<Longrightarrow> q \<in> set reqs"
    "\<And>q. q \<in> set reqs \<Longrightarrow> dbreq_Members q \<noteq> []"
proof -
  let ?ids = "map st_MatchRequestId sts"
  obtain d w1 where mg: "Store_MGet (tm_kvStore m) collectionTickets ?ids w = (Ret (Inr d), w1)"
    using store by (metis store_reliable_def)
  from GetMatchRequests_wf [OF wf mg] obtain reqs where
    g: "GetMatchRequests rt m ?ids w = (Ret (Inr reqs), w1)" by blast
  from GetMatchRequests_spec [OF g] obtain keys where k: "tab w1 = tab w" "log w1 = log w"
    "distinct keys" "set keys = set ?ids \<inter> dom (tab w collectionTickets)"
    "map Some reqs = map (ticket_at rt (tab w)) keys" by auto
  have doc: "dbreq_Id p = key \<and> dbreq_Members p \<noteq> []" if "ticket_at rt (tab w) key = Some p" for key p
    using that tickets_wfD [OF wf] by (force simp: ticket_at_Some)
  have "list_all2 (=) (map Some reqs) (map (ticket_at rt (tab w)) keys)"
    using k(5) by (simp add: list.rel_eq)
  then have pairs: "list_all2 (\<lambda>p key. ticket_at rt (tab w) key = Some p) reqs keys"
    unfolding list_all2_map1 list_all2_map2 by (rule list.rel_mono_strong) simp
  then have "list_all2 (=) (map dbreq_Id reqs) keys"
    unfolding list_all2_map1 by (rule list.rel_mono_strong) (use doc in blast)
  then have ids: "map dbreq_Id reqs = keys" by (simp add: list.rel_eq)
  have all: "q \<in> set reqs" if "st \<in> set sts" "ticket_at rt (tab w) (st_MatchRequestId st) = Some q" for st q
  proof -
    from that k(4) have "st_MatchRequestId st \<in> set keys" by (auto simp: ticket_at_Some)
    with that(2) have "Some q \<in> set (map (ticket_at rt (tab w)) keys)" by force
    then show ?thesis unfolding k(5) [symmetric] by auto
  qed
  have "dbreq_Members q \<noteq> []" if "q \<in> set reqs" for q
  proof -
    from that have "Some q \<in> set (map Some reqs)" by simp
    then obtain key where "ticket_at rt (tab w) key = Some q" unfolding k(5) by auto
    with doc show ?thesis by blast
  qed
  with that [of reqs w1] g k(1-3) ids all show thesis by blast
qed

text \<open>The callback of the service: from the tickets of a message to the batch that was read.\<close>

lemma on_batch_keeps:
  assumes store: "store_reliable (tm_kvStore m)"
    and stream: "stream_reliable rt (tm_streamClient m)"
    and marshal: "\<forall>mt. \<exists>b. rt_marshal_Match rt mt = Inr b"
    and wf: "tickets_wf rt (tab w)"
    and run: "on_batch rt mat ctx sts w = (Ret (), w')"
    and st: "st \<in> set sts" and at: "ticket_at rt (tab w) (st_MatchRequestId st) = Some q"
  shows "looked_after rt (tab w') (log w) (log w') q"
proof (rule batch_read [OF store wf, of sts])
  fix reqs w1
  assume r: "GetMatchRequests rt m (map st_MatchRequestId sts) w = (Ret (Inr reqs), w1)"
    "tab w1 = tab w" "log w1 = log w" "distinct (map dbreq_Id reqs)"
    and all: "\<And>st q. st \<in> set sts \<Longrightarrow> ticket_at rt (tab w) (st_MatchRequestId st) = Some q \<Longrightarrow> q \<in> set reqs"
  from run r(1) have "makeMatches rt mat ctx reqs w1 = (Ret (), w')"
    by (simp add: on_batch_def mat_tickets go_bind_def)
  from makeMatches_keeps [OF store stream marshal r(4) this] all [OF st at] r(3) show ?thesis by simp
qed

text \<open>It returns when the custom logic proposes matches that can be taken.\<close>

lemma on_batch_returns:
  assumes store: "store_reliable (tm_kvStore m)"
    and stream: "stream_reliable rt (tm_streamClient m)"
    and marshal: "\<forall>mt. \<exists>b. rt_marshal_Match rt mt = Inr b"
    and wf: "tickets_wf rt (tab w)"
    and client: "\<And>reqs v rs v'. distinct (map dbreq_Id reqs) \<Longrightarrow> \<forall>q \<in> set reqs. dbreq_Members q \<noteq> [] \<Longrightarrow>
      mat_customLogic mat ctx \<lparr>mmreq_Submissions = map SubmissionFromDBRequest reqs\<rparr> v = (Inr rs, v') \<Longrightarrow>
      sane_proposals (dbreq_Id ` set reqs) rs"
  shows "\<exists>w'. on_batch rt mat ctx sts w = (Ret (), w')"
proof (rule batch_read [OF store wf, of sts])
  fix reqs w1
  assume r: "GetMatchRequests rt m (map st_MatchRequestId sts) w = (Ret (Inr reqs), w1)"
    "distinct (map dbreq_Id reqs)" and members: "\<And>q. q \<in> set reqs \<Longrightarrow> dbreq_Members q \<noteq> []"
  have "\<exists>w'. makeMatches rt mat ctx reqs w1 = (Ret (), w')"
    by (rule makeMatches_returns [OF store stream marshal r(2)]) (use client r(2) members in blast)
  with r(1) show ?thesis by (simp add: on_batch_def mat_tickets go_bind_def)
qed

end

end
