(* ===== verification/Dispenser.thy ===== *)
theory Dispenser
  imports Tickets Matches CustomLogic
begin

text \<open>
  \<open>internal/app/backend/dispenser.go\<close>: the dispenser reads unassigned matches from their stream,
  asks the assignment service for a game server, and hands the server to the tickets of the match;
  a match without a server goes back on the stream.
\<close>

record 'w dispenser =
  dis_matchesManager :: "'w matches_Manager"
  dis_ticketsManager :: "'w tickets_Manager"
  dis_customLogic :: "'w assignmentManager"

definition NewDispenser :: "'w matches_Manager \<Rightarrow> 'w tickets_Manager \<Rightarrow>
    'w assignmentManager \<Rightarrow> 'w dispenser" where
  "NewDispenser mm tm customLogicManager =
    \<lparr>dis_matchesManager = mm, dis_ticketsManager = tm, dis_customLogic = customLogicManager\<rparr>"

text \<open>\<open>makeAssignment\<close> returns the captured assignment beside the error of the retry.\<close>

definition makeAssignment ::
  "'w runtime \<Rightarrow> 'w dispenser \<Rightarrow> ctx \<Rightarrow> api_Match option \<Rightarrow>
    ('w, api_GameServer option \<times> error option) proc" where
  "makeAssignment rt d ctx match =
    go_bind (RetryCapture rt ctx
        (\<lambda>(w, fr). case MakeAssignment (dis_customLogic d) ctx match w of
            (Ret (Inl err), w') \<Rightarrow> (Ret (Some err), (w', fr\<lparr>fr_assignment := None\<rparr>))
          | (Ret (Inr assignment), w') \<Rightarrow> (Ret None, (w', fr\<lparr>fr_assignment := assignment\<rparr>))
          | (Panic p, w') \<Rightarrow> (Panic p, (w', fr))
          | (Blocked, w') \<Rightarrow> (Blocked, (w', fr)))
        [Exponential])
      (\<lambda>(err, fr). go_return (fr_assignment fr, err))"

definition requeueMatch ::
  "'w runtime \<Rightarrow> 'w dispenser \<Rightarrow> ctx \<Rightarrow> api_Match option \<Rightarrow> ('w, unit) proc" where
  "requeueMatch rt d ctx match_ptr =
    go_bind (RetryOp rt ctx
        (go_bind (deref match_ptr) (\<lambda>match. MM_Requeue (dis_matchesManager d) (match_MatchId match)))
        [Exponential])
      (\<lambda>err. if err \<noteq> None then go_bind (deref match_ptr) (\<lambda>match. go_return ()) else go_return ())"

definition addAssignmentToTickets ::
  "'w runtime \<Rightarrow> 'w dispenser \<Rightarrow> ctx \<Rightarrow> api_Match option \<Rightarrow> api_GameServer option \<Rightarrow>
    ('w, unit) proc" where
  "addAssignmentToTickets rt d ctx match_ptr assignment =
    go_bind (RetryOp rt ctx
        (TM_AddAssignmentToMatchRequests (dis_ticketsManager d) ctx assignment match_ptr)
        [Exponential])
      (\<lambda>err. if err \<noteq> None then go_bind (deref match_ptr) (\<lambda>match. go_return ()) else go_return ())"

text \<open>The callback of \<open>Run\<close>, and \<open>Run\<close>. The log line of a failed assignment reads the match id.\<close>

definition on_unassigned ::
  "'w runtime \<Rightarrow> 'w dispenser \<Rightarrow> ctx \<Rightarrow> api_Match option \<Rightarrow> ('w, unit) proc" where
  "on_unassigned rt d ctx match =
    go_bind (makeAssignment rt d ctx match) (\<lambda>(assignment, err).
      if err \<noteq> None
      then go_bind (deref match) (\<lambda>_. requeueMatch rt d ctx match)
      else addAssignmentToTickets rt d ctx match assignment)"

definition Dispenser_Run :: "'w runtime \<Rightarrow> 'w dispenser \<Rightarrow> ctx \<Rightarrow> ('w, error option) proc" where
  "Dispenser_Run rt d ctx =
    go_bind (MM_StreamMatches (dis_matchesManager d)) (\<lambda>err.
      case err of
        Some e \<Rightarrow> go_return (Some e)
      | None \<Rightarrow> (\<lambda>w. if rt_done rt ctx w then (Ret None, w) else (Blocked, w)))"

definition Dispenser_delivery ::
  "'w runtime \<Rightarrow> 'w dispenser \<Rightarrow> ctx \<Rightarrow> bytes \<Rightarrow> ('w, unit) proc" where
  "Dispenser_delivery rt d ctx =
    MM_StreamMatches_callback (dis_matchesManager d) ctx (on_unassigned rt d ctx)"

end
