(* ===== verification/Dispenser_Laws.thy ===== *)
theory Dispenser_Laws
  imports Dispenser Matches_Laws
begin

text \<open>
  The dispenser over the managers that the service builds: when its clients answer, a match with a game
  server reaches its tickets and a match without one goes back on the stream; and the inputs that make the dispenser
  panic (a match that cannot be read, an assignment without a server).
\<close>

locale dispenser_env = matches_env rt m tab log rest plain
  for rt :: "'w runtime" and m :: "'w tickets_manager" and tab :: "'w \<Rightarrow> table"
    and log :: "'w \<Rightarrow> message_log" and rest :: "'w \<Rightarrow> 'r" and plain :: "string \<Rightarrow> bool" +
  fixes dis :: "'w dispenser"
  assumes dis_tickets: "dis_ticketsManager dis = tickets_of rt m"
    and dis_matches: "dis_matchesManager dis = matches_of rt m"
    and service_frame: "dis_customLogic dis ctx req w = (res, w') \<Longrightarrow>
      tab w' = tab w \<and> log w' = log w \<and> rest w' = rest w"
begin

definition ask_server ::
  "ctx \<Rightarrow> api_Match option \<Rightarrow> ('w \<times> frame, error option) proc" where
  "ask_server ctx match = (\<lambda>(w, fr). case MakeAssignment (dis_customLogic dis) ctx match w of
            (Ret (Inl err), w') \<Rightarrow> (Ret (Some err), (w', fr\<lparr>fr_assignment := None\<rparr>))
          | (Ret (Inr assignment), w') \<Rightarrow> (Ret None, (w', fr\<lparr>fr_assignment := assignment\<rparr>))
          | (Panic p, w') \<Rightarrow> (Panic p, (w', fr))
          | (Blocked, w') \<Rightarrow> (Blocked, (w', fr)))"

lemma MakeAssignment_eq:
  "MakeAssignment client ctx match w =
    (Ret (case fst (client ctx \<lparr>mareq_Match = match\<rparr> w) of
        Inl err \<Rightarrow> Inl err | Inr resp \<Rightarrow> Inr (maresp_GameServer resp)),
     snd (client ctx \<lparr>mareq_Match = match\<rparr> w))"
  by (simp add: MakeAssignment_def go_bind_call split: sum.split)

lemma ask_server_eq:
  assumes "dis_customLogic dis ctx \<lparr>mareq_Match = match\<rparr> w = (res, w1)"
  shows "ask_server ctx match (w, fr) = (case res of
      Inl err \<Rightarrow> (Ret (Some err), (w1, fr\<lparr>fr_assignment := None\<rparr>))
    | Inr resp \<Rightarrow> (Ret None, (w1, fr\<lparr>fr_assignment := maresp_GameServer resp\<rparr>)))"
  using assms by (simp add: ask_server_def MakeAssignment_eq split: sum.split)

text \<open>The service changes nothing of the store and the messages, and the retry always returns.\<close>

lemma RetryCapture_ask_server:
  assumes "RetryCapture rt ctx (ask_server ctx' match) config w = (r, w')"
  shows "tab w' = tab w \<and> log w' = log w \<and> rest w' = rest w \<and> (\<exists>e fr. r = Ret (e, fr) \<and>
    (e = None \<longrightarrow> (\<exists>v resp. dis_customLogic dis ctx' \<lparr>mareq_Match = match\<rparr> v = (Inr resp, w') \<and>
       fr_assignment fr = maresp_GameServer resp)))"
proof -
  let ?f = "ask_server ctx' match"
  let ?I = "\<lambda>v fr. tab v = tab w \<and> log v = log w \<and> rest v = rest w"
  have f: "tab v' = tab v \<and> log v' = log v \<and> rest v' = rest v \<and> (\<exists>e. q = Ret e \<and>
      (e = None \<longrightarrow> (\<exists>resp. dis_customLogic dis ctx' \<lparr>mareq_Match = match\<rparr> v = (Inr resp, v') \<and>
         fr_assignment fr' = maresp_GameServer resp)))" if "?f (v, fr) = (q, (v', fr'))" for v fr q v' fr'
  proof -
    obtain res v1 where c: "dis_customLogic dis ctx' \<lparr>mareq_Match = match\<rparr> v = (res, v1)" by force
    from that ask_server_eq [OF c] have eq: "(q, (v', fr')) = (case res of
      Inl err \<Rightarrow> (Ret (Some err), (v1, fr\<lparr>fr_assignment := None\<rparr>))
    | Inr resp \<Rightarrow> (Ret None, (v1, fr\<lparr>fr_assignment := maresp_GameServer resp\<rparr>)))" by (metis (no_types))
    show ?thesis
    proof (cases res)
      case (Inl err)
      with eq service_frame [OF c] show ?thesis by simp
    next
      case (Inr resp)
      with eq c service_frame [OF c] show ?thesis by simp
    qed
  qed
  have "\<exists>w1 fr1 fr. ?I w1 fr1 \<and>
    (r = Ret (None, fr) \<and> ?f (w1, fr1) = (Ret None, (w', fr)) \<or>
     (\<exists>e e'. r = Ret (Some e', fr) \<and> ?f (w1, fr1) = (Ret (Some e), (w', fr))) \<or>
     (\<exists>p. r = Panic p \<and> ?f (w1, fr1) = (Panic p, (w', fr))) \<or>
     r = Blocked \<and> ?f (w1, fr1) = (Blocked, (w', fr)))"
    by (rule RetryCapture_last [where I = ?I, OF assms]) (auto dest!: f)
  then obtain w1 fr1 fr where I: "?I w1 fr1" and
    c: "r = Ret (None, fr) \<and> ?f (w1, fr1) = (Ret None, (w', fr)) \<or>
     (\<exists>e e'. r = Ret (Some e', fr) \<and> ?f (w1, fr1) = (Ret (Some e), (w', fr))) \<or>
     (\<exists>p. r = Panic p \<and> ?f (w1, fr1) = (Panic p, (w', fr))) \<or>
     r = Blocked \<and> ?f (w1, fr1) = (Blocked, (w', fr))"
    by blast
  from c I show ?thesis by (elim disjE conjE exE) (drule f, force)+
qed

lemma makeAssignment_spec:
  assumes "makeAssignment rt dis ctx match w = (r, w')"
  shows "tab w' = tab w \<and> log w' = log w \<and> rest w' = rest w \<and> (\<exists>gs e. r = Ret (gs, e) \<and>
    (e = None \<longrightarrow> (\<exists>v resp. dis_customLogic dis ctx \<lparr>mareq_Match = match\<rparr> v = (Inr resp, w') \<and>
       gs = maresp_GameServer resp)))"
proof -
  obtain q w1 where c: "RetryCapture rt ctx (ask_server ctx match) [Exponential] w = (q, w1)" by force
  from RetryCapture_ask_server [OF c] obtain e fr where q: "q = Ret (e, fr)" by blast
  with assms c have "r = Ret (fr_assignment fr, e)" "w' = w1"
    unfolding makeAssignment_def ask_server_def [symmetric] by (simp_all add: go_bind_def)
  with RetryCapture_ask_server [OF c] q show ?thesis by auto
qed

lemma makeAssignment_first:
  assumes "dis_customLogic dis ctx \<lparr>mareq_Match = match\<rparr> w = (Inr resp, w')"
  shows "makeAssignment rt dis ctx match w = (Ret (maresp_GameServer resp, None), w')"
proof -
  from ask_server_eq [OF assms, of frame0] have
    "ask_server ctx match (w, frame0) = (Ret None, (w', frame0\<lparr>fr_assignment := maresp_GameServer resp\<rparr>))"
    by simp
  from RetryCapture_first [where f = "ask_server ctx match", OF this] show ?thesis
    unfolding makeAssignment_def ask_server_def [symmetric] by (simp add: go_bind_def frame0_def)
qed

text \<open>A service that never answers makes the retry end with an error.\<close>

lemma makeAssignment_failed:
  assumes "\<And>v. \<exists>e v'. dis_customLogic dis ctx \<lparr>mareq_Match = match\<rparr> v = (Inl e, v')"
    and "makeAssignment rt dis ctx match w = (r, w')"
  shows "\<exists>gs e. r = Ret (gs, Some e)"
proof -
  from makeAssignment_spec [OF assms(2)] obtain gs e where r: "r = Ret (gs, e)"
    "e = None \<longrightarrow> (\<exists>v resp. dis_customLogic dis ctx \<lparr>mareq_Match = match\<rparr> v = (Inr resp, w'))" by blast
  have "e \<noteq> None"
  proof
    assume "e = None"
    with r(2) obtain v resp where "dis_customLogic dis ctx \<lparr>mareq_Match = match\<rparr> v = (Inr resp, w')" by blast
    with assms(1) [of v] show False by auto
  qed
  with r(1) show ?thesis by auto
qed

section \<open>A match that is served\<close>

lemma on_unassigned_served:
  assumes wf: "tickets_wf rt (tab w)" and store: "store_reliable (tm_kvStore m)"
    and pubsub: "pubsub_reliable (tm_pubsubClient m)"
    and some: "set (match_MatchRequestIds mt) \<inter> dom (tab w collectionTickets) \<noteq> {}"
    and marshal: "\<forall>q. \<exists>b. rt_marshal_MatchRequest rt q = Inr b"
    and served: "dis_customLogic dis ctx \<lparr>mareq_Match = Some mt\<rparr> w =
      (Inr \<lparr>maresp_GameServer = Some gsv\<rparr>, w1)"
  shows "\<exists>w'. on_unassigned rt dis ctx (Some mt) w = (Ret (), w') \<and>
    tab w' = tputs collectionTickets
      (assigned_docs rt (db_GameServer_of gsv) (tab w) (match_MatchRequestIds mt)) (tab w) \<and>
    (\<exists>ks. mset ks = mset (match_MatchRequestIds mt) \<and> log w' = log w @ map assigned_msg ks) \<and>
    rest w' = rest w"
proof -
  from service_frame [OF served] have k: "tab w1 = tab w" "log w1 = log w" "rest w1 = rest w" by simp_all
  from AddAssignment_ok [of w1 mt ctx gsv] wf store pubsub some marshal k obtain w' ks where
    a: "AddAssignmentToMatchRequests rt m ctx (Some gsv) (Some mt) w1 = (Ret None, w')"
    "tab w' = tputs collectionTickets
      (assigned_docs rt (db_GameServer_of gsv) (tab w) (match_MatchRequestIds mt)) (tab w)"
    "mset ks = mset (match_MatchRequestIds mt)" "log w' = log w @ map assigned_msg ks" by auto
  from RetryOp_first [where f = "AddAssignmentToMatchRequests rt m ctx (Some gsv) (Some mt)", OF a(1)]
  have "on_unassigned rt dis ctx (Some mt) w = (Ret (), w')"
    by (simp add: on_unassigned_def go_bind_def makeAssignment_first [OF served]
        addAssignmentToTickets_def dis_tickets)
  moreover have "tickets_wf rt (tab w1)" using wf k(1) by simp
  from AddAssignment_spec [OF this a(1)] k(3) have "rest w' = rest w" by simp
  ultimately show ?thesis using a by blast
qed

text \<open>The same from the message on: the match is read, and its server is asked for.\<close>

lemma delivery_served:
  assumes wf: "tickets_wf rt (tab w)" and store: "store_reliable (tm_kvStore m)"
    and reads: "reads_reliable (tm_kvStore m) tab"
    and pubsub: "pubsub_reliable (tm_pubsubClient m)"
    and at: "match_at rt (tab w) data = Some mt"
    and some: "set (match_MatchRequestIds mt) \<inter> dom (tab w collectionTickets) \<noteq> {}"
    and marshal: "\<forall>q. \<exists>b. rt_marshal_MatchRequest rt q = Inr b"
    and served: "\<forall>v. tab v = tab w \<longrightarrow> (\<exists>v'. dis_customLogic dis ctx \<lparr>mareq_Match = Some mt\<rparr> v =
      (Inr \<lparr>maresp_GameServer = Some gsv\<rparr>, v'))"
  shows "\<exists>w'. Dispenser_delivery rt dis ctx data w = (Ret (), w') \<and>
    tab w' = tputs collectionTickets
      (assigned_docs rt (db_GameServer_of gsv) (tab w) (match_MatchRequestIds mt)) (tab w) \<and>
    (\<exists>ks. mset ks = mset (match_MatchRequestIds mt) \<and> log w' = log w @ map assigned_msg ks) \<and>
    rest w' = rest w"
proof -
  from StreamMatches_callback_ok [OF reads at] obtain w1 where
    c: "StreamMatches_callback rt (matches_manager_of rt m) ctx (on_unassigned rt dis ctx) data w =
      on_unassigned rt dis ctx (Some mt) w1" "tab w1 = tab w" "log w1 = log w" "rest w1 = rest w" by blast
  with served obtain w2 where "dis_customLogic dis ctx \<lparr>mareq_Match = Some mt\<rparr> w1 =
      (Inr \<lparr>maresp_GameServer = Some gsv\<rparr>, w2)" by blast
  from on_unassigned_served [OF _ store pubsub _ marshal this] wf some c show ?thesis
    by (simp add: Dispenser_delivery_def dis_matches)
qed

text \<open>A match that is not served goes back on its stream.\<close>

lemma on_unassigned_requeued:
  assumes stream: "stream_reliable rt (tm_streamClient m)"
    and failing: "\<And>v. \<exists>e v'. dis_customLogic dis ctx \<lparr>mareq_Match = Some mt\<rparr> v = (Inl e, v')"
  shows "\<exists>w'. on_unassigned rt dis ctx (Some mt) w = (Ret (), w') \<and> tab w' = tab w \<and>
    log w' = log w @ [match_msg mt]"
proof -
  obtain r w1 where mk: "makeAssignment rt dis ctx (Some mt) w = (r, w1)" by force
  from makeAssignment_spec [OF mk] have k: "tab w1 = tab w" "log w1 = log w" by auto
  from makeAssignment_failed [OF failing mk] obtain gs e where r: "r = Ret (gs, Some e)" by blast
  obtain w2 where s: "SendMessage (tm_streamClient m) GetUnassignedMatchesTopic (match_MatchId mt) w1 =
      (Ret None, w2)" using stream by (metis stream_reliable_def)
  from send_message [OF s] have l: "tab w2 = tab w1" "log w2 = log w1 @ [match_msg mt]"
    by (auto simp: match_msg_def)
  have "go_bind (deref (Some mt)) (\<lambda>match. matches_Requeue (matches_manager_of rt m) (match_MatchId match)) w1 =
      (Ret None, w2)" using s by (simp add: matches_Requeue_def)
  from RetryOp_first [where f = "go_bind (deref (Some mt))
      (\<lambda>match. matches_Requeue (matches_manager_of rt m) (match_MatchId match))", OF this]
  have "on_unassigned rt dis ctx (Some mt) w = (Ret (), w2)"
    using mk r by (simp add: on_unassigned_def go_bind_def requeueMatch_def dis_matches)
  with k l show ?thesis by auto
qed

section \<open>What stops the dispenser\<close>

text \<open>A match that could not be read: \<open>f\<close> is called with \<open>nil\<close>.\<close>

lemma on_unassigned_nil:
  "\<exists>w'. on_unassigned rt dis ctx None w = (Panic NilDereference, w') \<and> tab w' = tab w \<and> log w' = log w"
proof -
  obtain r w1 where mk: "makeAssignment rt dis ctx None w = (r, w1)" by force
  from makeAssignment_spec [OF mk] obtain gs e where r: "r = Ret (gs, e)"
    and k: "tab w1 = tab w" "log w1 = log w" by blast
  show ?thesis
  proof (cases e)
    case (Some err)
    with mk r k show ?thesis by (simp add: on_unassigned_def go_bind_def)
  next
    case None
    have "AddAssignmentToMatchRequests rt m ctx gs None w1 = (Panic NilDereference, w1)"
      by (simp add: AddAssignmentToMatchRequests_def)
    from RetryOp_first_panic [where f = "AddAssignmentToMatchRequests rt m ctx gs None", OF this]
    show ?thesis using mk r k None
      by (simp add: on_unassigned_def go_bind_def addAssignmentToTickets_def dis_tickets)
  qed
qed

lemma Dispenser_delivery_unreadable:
  assumes "match_at rt (tab w) data = None"
  shows "\<exists>w'. Dispenser_delivery rt dis ctx data w = (Panic NilDereference, w')"
proof -
  obtain x w1 where c: "StreamMatches_callback rt (matches_manager_of rt m) ctx
      (on_unassigned rt dis ctx) data w = on_unassigned rt dis ctx x w1"
    "\<forall>mt. x = Some mt \<longrightarrow> match_at rt (tab w) data = Some mt"
    using StreamMatches_callback_spec by blast
  from c(2) assms have "x = None" by (cases x) auto
  with c(1) on_unassigned_nil show ?thesis by (auto simp: Dispenser_delivery_def dis_matches)
qed

text \<open>A response without a game server.\<close>

lemma on_unassigned_no_server:
  assumes "match_MatchRequestIds mt \<noteq> []" and "tickets_wf rt (tab w)"
    and "store_reliable (tm_kvStore m)"
    and served: "dis_customLogic dis ctx \<lparr>mareq_Match = Some mt\<rparr> w =
      (Inr \<lparr>maresp_GameServer = None\<rparr>, w1)"
  shows "\<exists>w'. on_unassigned rt dis ctx (Some mt) w = (Panic NilDereference, w')"
proof -
  from service_frame [OF served] assms(2) have wf: "tickets_wf rt (tab w1)" by simp
  obtain d w2 where mg: "Store_MGet (tm_kvStore m) collectionTickets (match_MatchRequestIds mt) w1 =
      (Ret (Inr d), w2)" using assms(3) by (metis store_reliable_def)
  from GetMatchRequests_wf [OF wf mg] obtain ts where
    "GetMatchRequests rt m (match_MatchRequestIds mt) w1 = (Ret (Inr ts), w2)" by blast
  from AddAssignment_nil [OF assms(1) this, of ctx]
  have "AddAssignmentToMatchRequests rt m ctx None (Some mt) w1 = (Panic NilDereference, w2)" .
  from RetryOp_first_panic [where f = "AddAssignmentToMatchRequests rt m ctx None (Some mt)", OF this]
  show ?thesis
    by (simp add: on_unassigned_def go_bind_def makeAssignment_first [OF served]
        addAssignmentToTickets_def dis_tickets)
qed

end

end
