(* ===== verification/Backend_Properties.thy ===== *)
theory Backend_Properties
  imports Ticket_Properties Accumulator_Laws Matcher_Laws Dispenser_Laws
begin

text \<open>
  The properties of the match manager, the accumulator, the matcher and the dispenser, with their
  runs on the platform of \<open>Platform\<close>.
\<close>

section \<open>Matches\<close>

abbreviation mem_matches :: "faults \<Rightarrow> faults \<Rightarrow> world matches_manager" where
  "mem_matches rf nf \<equiv> matches_manager_of mem_runtime (mem_tickets rf nf)"

text \<open>C9: \<open>CreateMatch\<close> answers true exactly when it linked every ticket of the match, stored the match
  under its id (one drawn from the library, not empty, when it had none) and announced it; it answers
  false, changing nothing, when some ticket was linked already; an error announces nothing and leaves
  nothing but links of its own tickets and something under its own id.\<close>

theorem create_match_outcome:
  assumes "matches_env rt m tab log rest plain"
    and "CreateMatch rt (matches_manager_of rt m) (Some mt0) w = (r, w')"
  shows "\<exists>mt. (match_MatchId mt0 \<noteq> [] \<longrightarrow> mt = mt0) \<and> mt = mt0\<lparr>match_MatchId := match_MatchId mt\<rparr> \<and>
    match_MatchId mt \<noteq> [] \<and> rest w' = rest w \<and> (\<exists>ok. r = Ret ok \<and>
    (case ok of
       Inl _ \<Rightarrow> log w' = log w \<and> match_residue mt (tab w) (tab w')
     | Inr True \<Rightarrow> links_free (tab w) mt \<and> (\<exists>bs. rt_marshal_Match rt mt = Inr bs \<and>
         tab w' = tput collectionMatch (match_MatchId mt) bs
           (tputs collectionTicketAssignments (links mt) (tab w))) \<and>
         log w' = log w @ [match_msg mt]
     | Inr False \<Rightarrow> \<not> links_free (tab w) mt \<and> tab w' = tab w \<and> log w' = log w))"
  by (rule matches_env.CreateMatch_spec [OF assms])

theorem create_match_outcome_witness:
  "w_log (snd (CreateMatch mem_runtime (mem_matches all_works all_works)
     (Some (sample_match ''M'' [''t1'', ''t2''])) world2)) = w_log world2 @ [(''match'', ''M'')]"
proof -
  let ?run = "CreateMatch mem_runtime (mem_matches all_works all_works)
     (Some (sample_match ''M'' [''t1'', ''t2''])) world2"
  have "fst ?run = Ret (Inr True)" by code_simp
  with create_match_outcome [OF mem_matches_env prod.collapse [symmetric, of ?run]]
  have "w_log (snd ?run) = w_log world2 @ [match_msg (sample_match ''M'' [''t1'', ''t2''])]"
    by (auto simp: sample_match_def)
  then show ?thesis
    by (simp add: match_msg_def sample_match_def GetUnassignedMatchesTopic_def
        topicUnassignedMatches_def)
qed

text \<open>C26: With a store that answers every command, a match whose creation failed holds no
  ticket: the rollback of \<open>CreateMatch\<close> restores the links.\<close>

theorem create_match_rollback:
  assumes "matches_env rt m tab log rest plain" and "store_reliable (tm_kvStore m)"
    and "CreateMatch rt (matches_manager_of rt m) (Some mt0) w = (Ret (Inl e), w')"
  shows "tab w' collectionTicketAssignments = tab w collectionTicketAssignments"
  by (rule matches_env.CreateMatch_rollback [OF assms])

theorem create_match_rollback_witness:
  "mem_tables (snd (CreateMatch mem_runtime (mem_matches all_works down)
     (Some (sample_match ''M'' [''t1'', ''t2''])) world2)) collectionTicketAssignments =
   mem_tables world2 collectionTicketAssignments"
proof -
  let ?run = "CreateMatch mem_runtime (mem_matches all_works down)
     (Some (sample_match ''M'' [''t1'', ''t2''])) world2"
  have f: "fst ?run = Ret (Inl (ErrExt ''nats: connection closed''))" by code_simp
  show ?thesis
    by (rule create_match_rollback [OF mem_matches_env [of all_works down] mem_store_reliable
          prod.collapse [symmetric, of ?run, unfolded f]])
qed

text \<open>With clients that do not fail, \<open>CreateMatch\<close> answers whether the tickets of the match
  were free.\<close>

theorem create_match_result:
  assumes "matches_env rt m tab log rest plain"
    and "store_reliable (tm_kvStore m)" and "stream_reliable rt (tm_streamClient m)"
    and "\<forall>mt. \<exists>b. rt_marshal_Match rt mt = Inr b"
  shows "\<exists>w'. CreateMatch rt (matches_manager_of rt m) (Some mt0) w =
    (Ret (Inr (links_free (tab w) mt0)), w')"
  by (rule matches_env.CreateMatch_result [OF assms])

theorem create_match_result_witness:
  "fst (CreateMatch mem_runtime (mem_matches all_works all_works)
     (Some (sample_match ''N'' [''t2'', ''t1''])) world3) = Ret (Inr False)"
proof -
  have "mem_tables world3 collectionTicketAssignments ''t1'' \<noteq> None" by code_simp
  then have "\<not> links_free (mem_tables world3) (sample_match ''N'' [''t2'', ''t1''])"
    by (simp add: links_free_def sample_match_def)
  with create_match_result [OF mem_matches_env mem_store_reliable mem_stream_reliable mem_marshal(2),
      of "sample_match ''N'' [''t2'', ''t1'']" world3]
  show ?thesis by auto
qed

section \<open>The accumulator\<close>

definition mem_accumulator :: "faults \<Rightarrow> faults \<Rightarrow> world accumulator" where
  "mem_accumulator rf nf = \<lparr>acc_matchmakingQueue = ''q'',
     acc_ticketsManager = tickets_of mem_runtime (mem_tickets rf nf),
     acc_config = accumulator_config 2 1000, acc_ctx = 0\<rparr>"

interpretation mem_accumulator: accumulator_env mem_runtime "mem_tickets rf nf" mem_tables w_log w_out
  plain_name "mem_accumulator rf nf"
  unfolding accumulator_env_def accumulator_env_axioms_def
  by (simp add: mem_tickets_env mem_accumulator_def)

definition fresh_acc :: acc_state where
  "fresh_acc = \<lparr>acc_seen = {}, acc_slice = [], acc_forwards = [], acc_timeout = 1000000000\<rparr>"

text \<open>A ticket as it arrives on the stream.\<close>

definition arrival :: "string \<Rightarrow> acc_event" where
  "arrival i = Delivery (fst StreamTicket_codec (sample_ticket i))"

text \<open>C8: The accumulator neither loses nor repeats a ticket. Over any sequence of deliveries, ticks and
  turns of the forwarding goroutines, the arrivals fall into consecutive segments; each segment
  without the tickets whose id it already has is a batch; every batch is handed to the stream by
  exactly one goroutine, and every batch handed over has at least one ticket, no id twice, and at
  most the configured number of tickets. What the stream accepts are these batches, all of them when
  it does not fail.\<close>

theorem accumulator_batches:
  assumes env: "accumulator_env rt m tab log rest plain acc"
    and start: "NewAccumulator ctx queue tm (acc_config acc) w0 = (Ret (acc0, a), w0')"
    and run: "acc_run rt acc evs a w = (r, w')"
  shows "tab w' = tab w \<and> (\<exists>a' bs pub. r = Ret a' \<and>
    batched (arrivals rt evs) bs (acc_slice a') \<and>
    mset bs = mset pub + mset (acc_forwards a') \<and>
    list_all (batch_ok (acc_config acc)) bs \<and>
    length (acc_slice a') < batch_limit (acc_config acc) \<and>
    (\<exists>ys. subseq ys pub \<and> log w' = log w @ map (batch_msg rt (acc_matchmakingQueue acc)) ys \<and>
      (stream_reliable rt (tm_streamClient m) \<longrightarrow>
       (\<forall>ast. \<exists>b. rt_marshal_Accumulated rt ast = Inr b) \<longrightarrow> ys = pub)))"
  by (rule accumulator_env.acc_run_new [OF assms])

lemma fresh_acc_new: "NewAccumulator 0 ''q'' (acc_ticketsManager (mem_accumulator rf nf))
    (acc_config (mem_accumulator rf nf)) world0 = (Ret (mem_accumulator rf nf, fresh_acc), world0)"
  by (simp add: NewAccumulator_def NewTicker_def mem_accumulator_def accumulator_config_def
      fresh_acc_def word_sle_eq)

theorem accumulator_batches_witness:
  "\<exists>bs. batched [sample_ticket ''t1'', sample_ticket ''t1'', sample_ticket ''t2'', sample_ticket ''t3'']
       bs [sample_ticket ''t3''] \<and>
     w_log (snd (acc_run mem_runtime (mem_accumulator all_works all_works)
       [arrival ''t1'', arrival ''t1'', arrival ''t2'', arrival ''t3'', Forwarding 0] fresh_acc world0)) =
     map (batch_msg mem_runtime ''q'') bs"
proof -
  let ?acc = "mem_accumulator all_works all_works"
  let ?evs = "[arrival ''t1'', arrival ''t1'', arrival ''t2'', arrival ''t3'', Forwarding 0]"
  let ?run = "acc_run mem_runtime ?acc ?evs fresh_acc world0"
  have e: "fst ?run = Ret \<lparr>acc_seen = {''t3''}, acc_slice = [sample_ticket ''t3''], acc_forwards = [],
      acc_timeout = 1000000000\<rparr>" by code_simp
  have arr: "arrivals mem_runtime ?evs =
      [sample_ticket ''t1'', sample_ticket ''t1'', sample_ticket ''t2'', sample_ticket ''t3'']"
    by code_simp
  have len: "length (w_log (snd ?run)) = 1" by code_simp
  from accumulator_batches [OF mem_accumulator.accumulator_env_axioms fresh_acc_new
      prod.collapse [symmetric, of ?run]]
  obtain bs pub where b: "mset bs = mset pub" "w_log (snd ?run) = map (batch_msg mem_runtime ''q'') pub"
      "batched (arrivals mem_runtime ?evs) bs [sample_ticket ''t3'']"
    unfolding e using mem_stream_reliable mem_marshal(3)
    by (auto simp: world0_def mem_accumulator_def)
  from len b(2) obtain p where p: "pub = [p]" by (cases pub) auto
  with b(1) have "bs = [p]" by simp
  with b p show ?thesis unfolding arr by auto
qed

text \<open>C30: A tick leaves no ticket behind. After any events, a tick and any turns of the forwarding goroutines, the
  accumulator collects nothing: everything that arrived before the tick lies in closed batches, and each
  arrived ticket is in one of them. What is on the stream and what waits for its goroutine are batches of
  these, none twice, and all of them when the stream does not fail and every batch can be marshalled; so
  once no goroutine waits, every ticket has been sent on.\<close>

theorem accumulator_tick_flushes:
  assumes "accumulator_env rt m tab log rest plain acc"
    and "NewAccumulator ctx queue tm (acc_config acc) w0 = (Ret (acc0, a), w0')"
    and "acc_run rt acc (evs @ Tick # map Forwarding is) a w = (r, w')"
  shows "\<exists>a' bs ys. r = Ret a' \<and> acc_slice a' = [] \<and> batched (arrivals rt evs) bs [] \<and>
    log w' = log w @ map (batch_msg rt (acc_matchmakingQueue acc)) ys \<and>
    mset ys + mset (acc_forwards a') \<subseteq># mset bs \<and>
    (stream_reliable rt (tm_streamClient m) \<longrightarrow> (\<forall>ast. \<exists>b. rt_marshal_Accumulated rt ast = Inr b) \<longrightarrow>
       mset bs = mset ys + mset (acc_forwards a')) \<and>
    (\<forall>st \<in> set (arrivals rt evs). \<exists>b \<in> set bs. st_MatchRequestId st \<in> st_MatchRequestId ` set b)"
  by (rule accumulator_env.acc_run_tick [OF assms])

theorem accumulator_tick_flushes_witness:
  "\<exists>b. st_MatchRequestId ` set b = {''t1''} \<and>
    w_log (snd (acc_run mem_runtime (mem_accumulator all_works all_works)
      ([arrival ''t1''] @ Tick # map Forwarding [0]) fresh_acc world0)) = [batch_msg mem_runtime ''q'' b]"
proof -
  let ?acc = "mem_accumulator all_works all_works"
  let ?run = "acc_run mem_runtime ?acc ([arrival ''t1''] @ Tick # map Forwarding [0]) fresh_acc world0"
  have e: "fst ?run = Ret \<lparr>acc_seen = {}, acc_slice = [], acc_forwards = [], acc_timeout = 1000000000\<rparr>"
    by code_simp
  have arr: "arrivals mem_runtime [arrival ''t1''] = [sample_ticket ''t1'']" by code_simp
  have len: "length (w_log (snd ?run)) = 1" by code_simp
  from accumulator_tick_flushes [OF mem_accumulator.accumulator_env_axioms fresh_acc_new
      prod.collapse [symmetric, of ?run]]
  obtain bs ys where b: "batched (arrivals mem_runtime [arrival ''t1'']) bs []" "mset bs = mset ys"
    "w_log (snd ?run) = map (batch_msg mem_runtime ''q'') ys"
    unfolding e using mem_stream_reliable mem_marshal(3) by (auto simp: world0_def mem_accumulator_def)
  from len b(3) obtain y where y: "ys = [y]" by (cases ys) auto
  with b(2) have "bs = [y]" by simp
  with b(1) have "batched [sample_ticket ''t1''] [y] []" unfolding arr by simp
  then obtain segs seg where s: "[sample_ticket ''t1''] = concat segs @ seg"
    "map (first_by st_MatchRequestId) segs = [y]" "first_by st_MatchRequestId seg = []" by (rule batched_split)
  from s(2) obtain z where z: "segs = [z]" "first_by st_MatchRequestId z = y" by auto
  from first_by_keys [of st_MatchRequestId seg] s(3) have "seg = []" by simp
  with s(1) z(1) have "z = [sample_ticket ''t1'']" by simp
  with z(2) first_by_keys [of st_MatchRequestId z]
  have "st_MatchRequestId ` set y = {st_MatchRequestId (sample_ticket ''t1'')}" by auto
  then show ?thesis using b(3) y by (intro exI [of _ y]) (simp add: sample_ticket_def)
qed

text \<open>C36: The interval of the ticker in nanoseconds: it is the configured number of milliseconds, and the
  accumulator starts, when that number is positive and at most 9223372036854; the next number
  overflows the interval, and the accumulator panics.\<close>

theorem accumulator_delay_bounds:
  assumes "0 < sint maxDelay" and "sint maxDelay \<le> 9223372036854"
  shows "(\<exists>r. NewAccumulator ctx queue tm (accumulator_config maxTickets maxDelay) w = (Ret r, w) \<and>
      sint (acc_timeout (snd r)) = sint maxDelay * 1000000) \<and>
    NewAccumulator ctx queue tm (accumulator_config maxTickets 9223372036855) w =
      (Panic NonPositiveInterval, w)"
proof (rule conjI)
  note s = milliseconds_sint [OF assms]
  with assms have "\<not> maxDelay * 1000000 \<le>s 0" by (simp add: word_sle_eq)
  with s show "\<exists>r. NewAccumulator ctx queue tm (accumulator_config maxTickets maxDelay) w = (Ret r, w) \<and>
      sint (acc_timeout (snd r)) = sint maxDelay * 1000000"
    by (simp add: NewAccumulator_def NewTicker_def accumulator_config_def)
qed (simp add: NewAccumulator_def NewTicker_def accumulator_config_def word_sle_eq)

theorem accumulator_delay_bounds_witness:
  "(\<exists>r. NewAccumulator 0 ''q'' (tickets_of mem_runtime (mem_tickets all_works all_works))
       (accumulator_config 1000 1000) world0 = (Ret r, world0) \<and> sint (acc_timeout (snd r)) = 1000000000) \<and>
   NewAccumulator 0 ''q'' (tickets_of mem_runtime (mem_tickets all_works all_works))
     (accumulator_config 1000 9223372036855) world0 = (Panic NonPositiveInterval, world0)"
proof -
  have d: "0 < sint (1000 :: int64)" "sint (1000 :: int64) \<le> 9223372036854" by simp_all
  from accumulator_delay_bounds [OF d, of 0 "''q''"
      "tickets_of mem_runtime (mem_tickets all_works all_works)" 1000 world0] show ?thesis by simp
qed

section \<open>The matcher\<close>

text \<open>A custom logic that proposes the given matches, and the matcher that uses it.\<close>

definition mem_matcher :: "faults \<Rightarrow> faults \<Rightarrow> api_Match list \<Rightarrow> world matcher" where
  "mem_matcher rf nf ms = NewMatcher 0 ''q'' (tickets_of mem_runtime (mem_tickets rf nf))
     (matches_of mem_runtime (mem_tickets rf nf)) (\<lambda>ctx req w. (Inr (eof_stream ms), w))"

interpretation mem_matcher: matcher_env mem_runtime "mem_tickets rf nf" mem_tables w_log w_out
  plain_name "mem_matcher rf nf ms"
  unfolding matcher_env_def matcher_env_axioms_def
  by (simp add: mem_matches_env mem_matcher_def NewMatcher_def)

text \<open>C5: The matcher loses no ticket while its clients answer. Suppose that the store and the stream do not
  fail, that every match can be marshalled and that the stored tickets are well formed. Then, whatever
  matches the custom logic proposes and however its stream ends, when the handling of a batch returns,
  every stored ticket of the batch is linked to a match or has been announced again.\<close>

theorem matcher_keeps_tickets:
  assumes "matcher_env rt m tab log rest plain mat"
    and "store_reliable (tm_kvStore m)" and "stream_reliable rt (tm_streamClient m)"
    and "\<forall>mt. \<exists>b. rt_marshal_Match rt mt = Inr b"
    and "tickets_wf rt (tab w)"
    and "on_batch rt mat ctx sts w = (Ret (), w')"
    and "st \<in> set sts" and "ticket_at rt (tab w) (st_MatchRequestId st) = Some q"
  shows "looked_after rt (tab w') (log w) (log w') q"
  by (rule matcher_env.on_batch_keeps [OF assms])

theorem matcher_keeps_tickets_witness:
  "\<exists>q. ticket_at mem_runtime (mem_tables world2) ''t2'' = Some q \<and>
    looked_after mem_runtime
      (mem_tables (snd (on_batch mem_runtime (mem_matcher all_works all_works [sample_match ''M'' [''t1'']]) 0
         [sample_ticket ''t1'', sample_ticket ''t2''] world2)))
      (w_log world2)
      (w_log (snd (on_batch mem_runtime (mem_matcher all_works all_works [sample_match ''M'' [''t1'']]) 0
         [sample_ticket ''t1'', sample_ticket ''t2''] world2))) q"
proof -
  let ?mat = "mem_matcher all_works all_works [sample_match ''M'' [''t1'']]"
  let ?run = "on_batch mem_runtime ?mat 0 [sample_ticket ''t1'', sample_ticket ''t2''] world2"
  have f: "fst ?run = Ret ()" by code_simp
  have "ticket_at mem_runtime (mem_tables world2) ''t2'' \<noteq> None" by code_simp
  then obtain q where q: "ticket_at mem_runtime (mem_tables world2) (st_MatchRequestId (sample_ticket ''t2'')) = Some q"
    by (auto simp: sample_ticket_def)
  from matcher_keeps_tickets [OF mem_matcher.matcher_env_axioms mem_store_reliable mem_stream_reliable
      mem_marshal(2) world2_wf prod.collapse [symmetric, of ?run, unfolded f] _ q]
  show ?thesis using q by (auto simp: sample_ticket_def)
qed

text \<open>The handling of a batch returns when every proposal names tickets of the batch that no
  earlier proposal of the stream named.\<close>

theorem matcher_returns:
  assumes "matcher_env rt m tab log rest plain mat"
    and "store_reliable (tm_kvStore m)" and "stream_reliable rt (tm_streamClient m)"
    and "\<forall>mt. \<exists>b. rt_marshal_Match rt mt = Inr b"
    and "distinct (map dbreq_Id reqs)"
    and "\<And>rs w1. mat_customLogic mat ctx \<lparr>mmreq_Submissions = map SubmissionFromDBRequest reqs\<rparr> w =
      (Inr rs, w1) \<Longrightarrow> sane_proposals (dbreq_Id ` set reqs) rs"
  shows "\<exists>w'. makeMatches rt mat ctx reqs w = (Ret (), w')"
  by (rule matcher_env.makeMatches_returns [OF assms])

definition stored_request :: "string \<Rightarrow> db_MatchRequest" where
  "stored_request i = request_document [''p1'', ''p2''] 0 (sample_request i)"

theorem matcher_returns_witness:
  "\<exists>w'. makeMatches mem_runtime (mem_matcher all_works all_works
       [sample_match ''M'' [''t1''], sample_match ''N'' [''t2'']]) 0
     [stored_request ''t1'', stored_request ''t2''] world2 = (Ret (), w')"
proof (rule matcher_returns [OF mem_matcher.matcher_env_axioms mem_store_reliable mem_stream_reliable
      mem_marshal(2)])
  show "distinct (map dbreq_Id [stored_request ''t1'', stored_request ''t2''])" by code_simp
  have "sane_proposals (dbreq_Id ` set [stored_request ''t1'', stored_request ''t2''])
      (eof_stream [sample_match ''M'' [''t1''], sample_match ''N'' [''t2'']])" by code_simp
  then show "sane_proposals (dbreq_Id ` set [stored_request ''t1'', stored_request ''t2'']) rs"
    if "mat_customLogic (mem_matcher all_works all_works
         [sample_match ''M'' [''t1''], sample_match ''N'' [''t2'']]) 0
       \<lparr>mmreq_Submissions = map SubmissionFromDBRequest [stored_request ''t1'', stored_request ''t2'']\<rparr> world2 =
       (Inr rs, w1)" for rs w1
    using that by (simp add: mem_matcher_def NewMatcher_def)
qed

text \<open>C33: Two proposals that share a ticket stop the matcher. When the custom logic answers with two matches that
  share a ticket, the tickets of the first are free, and the store and the stream do not fail, then the
  first takes the ticket out of the map, the second is refused, and its requeue dereferences the missing
  entry, whatever the stream would have sent after it.\<close>

theorem matcher_overlap_panics:
  assumes "matcher_env rt m tab log rest plain mat"
    and "store_reliable (tm_kvStore m)" and "stream_reliable rt (tm_streamClient m)"
    and "\<forall>mt. \<exists>b. rt_marshal_Match rt mt = Inr b"
    and "mat_customLogic mat ctx \<lparr>mmreq_Submissions = map SubmissionFromDBRequest reqs\<rparr> w =
      (Inr (RecvResponse \<lparr>mmresp_Match = Some m1\<rparr> # RecvResponse \<lparr>mmresp_Match = Some m2\<rparr> # rs), w1)"
    and "links_free (tab w) m1"
    and "k \<in> set (match_MatchRequestIds m1)" and "k \<in> set (match_MatchRequestIds m2)"
  shows "\<exists>w'. makeMatches rt mat ctx reqs w = (Panic NilDereference, w')"
  by (rule matcher_env.makeMatches_overlap [OF assms])

theorem matcher_overlap_panics_witness:
  "\<exists>w'. makeMatches mem_runtime (mem_matcher all_works all_works
       [sample_match ''M'' [''t1''], sample_match ''N'' [''t2'', ''t1'']]) 0
     [stored_request ''t1'', stored_request ''t2''] world2 = (Panic NilDereference, w')"
proof (rule matcher_overlap_panics [OF mem_matcher.matcher_env_axioms mem_store_reliable
      mem_stream_reliable mem_marshal(2), where k = "''t1''"])
  show "mat_customLogic (mem_matcher all_works all_works
       [sample_match ''M'' [''t1''], sample_match ''N'' [''t2'', ''t1'']]) 0
      \<lparr>mmreq_Submissions = map SubmissionFromDBRequest [stored_request ''t1'', stored_request ''t2'']\<rparr> world2 =
    (Inr (RecvResponse \<lparr>mmresp_Match = Some (sample_match ''M'' [''t1''])\<rparr> #
       RecvResponse \<lparr>mmresp_Match = Some (sample_match ''N'' [''t2'', ''t1''])\<rparr> # [RecvError ErrEOF]), world2)"
    by (simp add: mem_matcher_def NewMatcher_def eof_stream_def)
  have "mem_tables world2 collectionTicketAssignments ''t1'' = None" by code_simp
  then show "links_free (mem_tables world2) (sample_match ''M'' [''t1''])"
    by (simp add: links_free_def sample_match_def)
qed (simp_all add: sample_match_def)

section \<open>The dispenser\<close>

text \<open>The dispenser with an assignment service that always gives the same answer.\<close>

definition mem_dispenser ::
  "faults \<Rightarrow> faults \<Rightarrow> error + api_MakeAssignmentResponse \<Rightarrow> world dispenser" where
  "mem_dispenser rf nf resp = NewDispenser (matches_of mem_runtime (mem_tickets rf nf))
     (tickets_of mem_runtime (mem_tickets rf nf)) (\<lambda>ctx req w. (resp, w))"

interpretation mem_dispenser: dispenser_env mem_runtime "mem_tickets rf nf" mem_tables w_log w_out
  plain_name "mem_dispenser rf nf resp"
  unfolding dispenser_env_def dispenser_env_axioms_def
  by (simp add: mem_matches_env mem_dispenser_def NewDispenser_def)

text \<open>The world after the match \<open>M\<close> of two tickets was created.\<close>

definition world4 :: world where
  "world4 = snd (CreateMatch mem_runtime (mem_matches all_works all_works)
     (Some (sample_match ''M'' [''t1'', ''t2''])) world2)"

lemma world4_match:
  "match_at mem_runtime (mem_tables world4) ''M'' = Some (sample_match ''M'' [''t1'', ''t2''])"
  by code_simp

lemma world4_wf: "tickets_wf mem_runtime (mem_tables world4)"
  unfolding world4_def
  by (rule matches_env.CreateMatch_wf [OF mem_matches_env prod.collapse [symmetric] world2_wf])

text \<open>C12: A match announced on the stream of unassigned matches is served while the clients of the dispenser
  answer. Suppose that the store, its reads and the publish and subscribe client do not fail, that every
  request can be marshalled, that the stored tickets are well formed, that at least one ticket of the match
  is stored, and that the assignment service has a game server for the match. Then the handling returns,
  the stored document of each ticket of the match carries that server and is otherwise unchanged, and every
  ticket of the match is announced as assigned.\<close>

theorem dispenser_serves:
  assumes "dispenser_env rt m tab log rest plain dis"
    and "tickets_wf rt (tab w)" and "store_reliable (tm_kvStore m)"
    and "reads_reliable (tm_kvStore m) tab" and "pubsub_reliable (tm_pubsubClient m)"
    and "match_at rt (tab w) data = Some mt"
    and "set (match_MatchRequestIds mt) \<inter> dom (tab w collectionTickets) \<noteq> {}"
    and "\<forall>q. \<exists>b. rt_marshal_MatchRequest rt q = Inr b"
    and "\<forall>v. tab v = tab w \<longrightarrow> (\<exists>v'. dis_customLogic dis ctx \<lparr>mareq_Match = Some mt\<rparr> v =
      (Inr \<lparr>maresp_GameServer = Some gsv\<rparr>, v'))"
  shows "\<exists>w'. Dispenser_delivery rt dis ctx data w = (Ret (), w') \<and>
    tab w' = tputs collectionTickets
      (assigned_docs rt (db_GameServer_of gsv) (tab w) (match_MatchRequestIds mt)) (tab w) \<and>
    (\<exists>ks. mset ks = mset (match_MatchRequestIds mt) \<and> log w' = log w @ map assigned_msg ks)"
  using dispenser_env.delivery_served [OF assms] by blast

theorem dispenser_serves_witness:
  "\<exists>ks. mset ks = {#''t1'', ''t2''#} \<and>
    w_log (snd (Dispenser_delivery mem_runtime
      (mem_dispenser all_works all_works (Inr \<lparr>maresp_GameServer = Some sample_server\<rparr>)) 0 ''M'' world4)) =
    w_log world4 @ map assigned_msg ks"
proof -
  let ?dis = "mem_dispenser all_works all_works (Inr \<lparr>maresp_GameServer = Some sample_server\<rparr>)"
  have "mem_tables world4 collectionTickets ''t1'' \<noteq> None" by code_simp
  then have some: "set (match_MatchRequestIds (sample_match ''M'' [''t1'', ''t2''])) \<inter>
      dom (mem_tables world4 collectionTickets) \<noteq> {}" by (auto simp: sample_match_def)
  have serve: "\<forall>v. mem_tables v = mem_tables world4 \<longrightarrow>
      (\<exists>v'. dis_customLogic ?dis 0 \<lparr>mareq_Match = Some (sample_match ''M'' [''t1'', ''t2''])\<rparr> v =
        (Inr \<lparr>maresp_GameServer = Some sample_server\<rparr>, v'))"
    by (simp add: mem_dispenser_def NewDispenser_def)
  from dispenser_serves [OF mem_dispenser.dispenser_env_axioms world4_wf mem_store_reliable
      mem_reads_reliable mem_pubsub_reliable world4_match some mem_marshal(1) serve]
  show ?thesis by (auto simp: sample_match_def)
qed

text \<open>C35: When the assignment service answers every request for a match with an error, however often it is
  asked, and the stream does not fail, the match goes back on the stream of unassigned matches, once, and no
  ticket is changed.\<close>

theorem dispenser_requeues:
  assumes "dispenser_env rt m tab log rest plain dis"
    and "stream_reliable rt (tm_streamClient m)"
    and "\<And>v. \<exists>e v'. dis_customLogic dis ctx \<lparr>mareq_Match = Some mt\<rparr> v = (Inl e, v')"
  shows "\<exists>w'. on_unassigned rt dis ctx (Some mt) w = (Ret (), w') \<and> tab w' = tab w \<and>
    log w' = log w @ [match_msg mt]"
  by (rule dispenser_env.on_unassigned_requeued [OF assms])

theorem dispenser_requeues_witness:
  "\<exists>w'. on_unassigned mem_runtime (mem_dispenser all_works all_works (Inl (ErrExt ''no server''))) 0
      (Some (sample_match ''M'' [''t1'', ''t2''])) world4 = (Ret (), w') \<and>
    mem_tables w' = mem_tables world4 \<and>
    w_log w' = w_log world4 @ [match_msg (sample_match ''M'' [''t1'', ''t2''])]"
  by (rule dispenser_requeues [OF mem_dispenser.dispenser_env_axioms mem_stream_reliable])
    (simp add: mem_dispenser_def NewDispenser_def)

text \<open>A message that names no readable match stops the dispenser: the callback is called with a
  nil match, which it dereferences.\<close>

theorem dispenser_unreadable_match:
  assumes "dispenser_env rt m tab log rest plain dis" and "match_at rt (tab w) data = None"
  shows "\<exists>w'. Dispenser_delivery rt dis ctx data w = (Panic NilDereference, w')"
  by (rule dispenser_env.Dispenser_delivery_unreadable [OF assms])

theorem dispenser_unreadable_match_witness:
  "\<exists>w'. Dispenser_delivery mem_runtime
     (mem_dispenser all_works all_works (Inr \<lparr>maresp_GameServer = Some sample_server\<rparr>)) 0 ''N'' world4 =
    (Panic NilDereference, w')"
proof (rule dispenser_unreadable_match [OF mem_dispenser.dispenser_env_axioms])
  show "match_at mem_runtime (mem_tables world4) ''N'' = None" by code_simp
qed

text \<open>An answer of the assignment service that carries no game server, and no error, stops the
  dispenser: the conversion of the server dereferences it.\<close>

theorem dispenser_no_server:
  assumes "dispenser_env rt m tab log rest plain dis"
    and "match_MatchRequestIds mt \<noteq> []" and "tickets_wf rt (tab w)"
    and "store_reliable (tm_kvStore m)"
    and "dis_customLogic dis ctx \<lparr>mareq_Match = Some mt\<rparr> w = (Inr \<lparr>maresp_GameServer = None\<rparr>, w1)"
  shows "\<exists>w'. on_unassigned rt dis ctx (Some mt) w = (Panic NilDereference, w')"
  by (rule dispenser_env.on_unassigned_no_server [OF assms])

theorem dispenser_no_server_witness:
  "\<exists>w'. on_unassigned mem_runtime (mem_dispenser all_works all_works (Inr \<lparr>maresp_GameServer = None\<rparr>)) 0
     (Some (sample_match ''M'' [''t1'', ''t2''])) world4 = (Panic NilDereference, w')"
  by (rule dispenser_no_server [OF mem_dispenser.dispenser_env_axioms _ world4_wf mem_store_reliable,
        where ?w1.0 = world4])
    (simp_all add: mem_dispenser_def NewDispenser_def sample_match_def)

end
