(* ===== verification/Frontend.thy ===== *)
theory Frontend
  imports Tickets
begin

text \<open>
  \<open>internal/app/frontend/frontend.go\<close>: the service the players' clients call. \<open>Match\<close> stores the
  request and waits until the ticket carries a game server, which it sends to the caller. The
  server stream of the call is a parameter: its context and its \<open>Send\<close>. What other processes
  do meanwhile is an argument.
\<close>

record 'w Service =
  svc_queues :: "string set"
  svc_ticketsManager :: "'w tickets_Manager"

record 'w MatchServer =
  svr_Context :: ctx
  svr_Send :: "api_MatchResponse \<Rightarrow> 'w \<Rightarrow> error option \<times> 'w"

definition NewService :: "string list \<Rightarrow> 'w tickets_Manager \<Rightarrow> 'w Service" where
  "NewService queues ticketsManager =
    \<lparr>svc_queues = set queues, svc_ticketsManager = ticketsManager\<rparr>"

definition Service_Close :: "'w Service \<Rightarrow> ('w, unit) proc" where
  "Service_Close s = TM_Close (svc_ticketsManager s)"

text \<open>The response of an assigned ticket.\<close>

definition match_response :: "db_GameServer \<Rightarrow> api_MatchResponse" where
  "match_response gs =
    (let ports = map (\<lambda>p. \<lparr>port_Name = dbport_Name p, port_Port = dbport_Port p\<rparr>)
           (dbgs_GameServerPorts gs)
     in \<lparr>mresp_GameServer = Some \<lparr>gs_GameServerIp = dbgs_GameServerIp gs,
           gs_GameServerPorts = ports\<rparr>\<rparr>)"

text \<open>
  The closure \<open>processTicket\<close>: \<open>cancel\<close> ends the context \<open>cctx\<close>; the result is what the call
  makes of the captured variable \<open>done\<close>, \<open>True\<close> when it sets it.
\<close>

definition processTicket ::
  "'w runtime \<Rightarrow> 'w MatchServer \<Rightarrow> ctx \<Rightarrow> ctx \<Rightarrow> db_MatchRequest \<Rightarrow> ('w, bool) proc" where
  "processTicket rt svr cctx ctx t =
    (case dbreq_GameServer t of
       None \<Rightarrow> go_return False
     | Some gs \<Rightarrow>
         go_bind (RetryOp rt ctx (call (svr_Send svr (match_response gs))) [Constant 100000000])
           (\<lambda>_. \<lambda>w. (Ret True, rt_cancel rt cctx w)))"

definition AlreadyExists :: string where
  "AlreadyExists = ''AlreadyExists''"

definition InvalidArgument :: string where
  "InvalidArgument = ''InvalidArgument''"

text \<open>
  \<open>Match\<close> after the request has been stored: the check and the wait. Between the two other
  processes run: \<open>gap\<close> is what they do to the world after the ticket was read and before the
  subscription, and \<open>evs\<close> is what happens from the subscription on.
\<close>

definition Match_wait ::
  "'w runtime \<Rightarrow> 'w Service \<Rightarrow> string \<Rightarrow> 'w MatchServer \<Rightarrow> ('w \<Rightarrow> 'w) \<Rightarrow>
    'w sub_event list \<Rightarrow> ('w, error option) proc" where
  "Match_wait rt s ticketID svr gap evs =
    go_bind (call (rt_WithCancel rt)) (\<lambda>cctx.
    go_bind (TM_GetMatchRequest (svc_ticketsManager s) ticketID) (\<lambda>res.
      case res of
        Inl err \<Rightarrow> go_return (Some err)
      | Inr t \<Rightarrow>
          go_bind (processTicket rt svr cctx (svr_Context svr) t) (\<lambda>is_done.
            if is_done then go_return None
            else (\<lambda>w. TM_WatchMatchRequest (svc_ticketsManager s) cctx ticketID
                   (\<lambda>t. go_bind (processTicket rt svr cctx cctx t) (\<lambda>_. go_return ())) evs (gap w)))))"

definition Service_Match ::
  "'w runtime \<Rightarrow> 'w Service \<Rightarrow> api_MatchRequest \<Rightarrow> 'w MatchServer \<Rightarrow> ('w \<Rightarrow> 'w) \<Rightarrow>
    'w sub_event list \<Rightarrow> ('w, error option) proc" where
  "Service_Match rt s req0 svr gap evs =
    go_bind (if length (req_Id req0) = 0
             then go_bind (call (rt_xid rt)) (\<lambda>i. go_return (req0\<lparr>req_Id := i\<rparr>))
             else go_return req0) (\<lambda>req.
      if req_MatchmakingQueue req \<notin> svc_queues s
      then go_return (Some (ErrStatus InvalidArgument ''invalid matchmaking queue''))
      else
        go_bind (TM_CreateMatchRequest (svc_ticketsManager s) (svr_Context svr) req) (\<lambda>err.
          case err of
            Some e \<Rightarrow>
              if errors_Is e ErrDuplicateTicketID
              then go_return (Some (ErrStatus AlreadyExists (error_Error e)))
              else go_return (Some e)
          | None \<Rightarrow> Match_wait rt s (req_Id req) svr gap evs))"

end
