(* ===== verification/Frontend_Laws.thy ===== *)
theory Frontend_Laws
  imports Frontend Deployment
begin

text \<open>
  The frontend over the deployed clients: what a call of \<open>Match\<close> answers, the response that a
  player receives when the ticket is assigned during the wait, and the assignment that the wait
  misses. \<open>outbox\<close> observes the responses sent to the caller.
\<close>

section \<open>The game server on its way to the player\<close>

text \<open>The conversions to the stored document and back.\<close>

lemma match_response_of: "match_response (db_GameServer_of g) = \<lparr>mresp_GameServer = Some g\<rparr>"
proof -
  have "(\<lambda>p. \<lparr>port_Name = port_Name p, port_Port = port_Port p\<rparr>) = (\<lambda>p. p)" by auto
  then show ?thesis by (simp add: match_response_def db_GameServer_of_def comp_def)
qed

section \<open>A call\<close>

locale frontend_env = deployment rt R db nc log rest pfx grp subs set_subs
  for rt :: "'w runtime" and R :: "'w redis_cli" and db :: "'w \<Rightarrow> string \<rightharpoonup> bytes"
    and nc :: "'w nats_Conn" and log :: "'w \<Rightarrow> message_log" and rest :: "'w \<Rightarrow> 'r"
    and pfx grp :: string and subs :: "'w \<Rightarrow> nat list" and set_subs :: "nat list \<Rightarrow> 'w \<Rightarrow> 'w" +
  fixes svc :: "'w Service" and svr :: "'w MatchServer" and outbox :: "'r \<Rightarrow> api_MatchResponse list"
  assumes svc_manager: "svc_ticketsManager svc =
      tickets_of rt (deployed_tickets_manager rt R nc pfx grp subs set_subs)"
    and send_frame: "svr_Send svr resp w = (e, w') \<Longrightarrow>
      deployed_tables db pfx w' = deployed_tables db pfx w \<and> log w' = log w \<and>
      outbox (rest w') = (if e = None then outbox (rest w) @ [resp] else outbox (rest w))"
begin

abbreviation tm :: "'w tickets_manager" where
  "tm \<equiv> deployed_tickets_manager rt R nc pfx grp subs set_subs"

abbreviation tab :: "'w \<Rightarrow> table" where
  "tab \<equiv> deployed_tables db pfx"

lemma Match_invalid_queue:
  assumes "req_MatchmakingQueue req \<notin> svc_queues svc"
  shows "\<exists>w'. Service_Match rt svc req svr gap evs w =
      (Ret (Some (ErrStatus InvalidArgument ''invalid matchmaking queue'')), w') \<and>
    tab w' = tab w \<and> log w' = log w \<and> rest w' = rest w"
proof (cases "req_Id req = []")
  case False
  with assms show ?thesis by (simp add: Service_Match_def)
next
  case True
  obtain i w1 where x: "rt_xid rt w = (i, w1)" by force
  with assms True tickets.rt_keeps [OF x] show ?thesis
    by (simp add: Service_Match_def go_bind_def call_def)
qed

lemma Match_duplicate:
  assumes store: "store_reliable (tm_kvStore tm)"
    and stream: "stream_reliable rt (tm_streamClient tm)"
    and marshal: "\<forall>q. \<exists>b. rt_marshal_MatchRequest rt q = Inr b"
    and queue: "req_MatchmakingQueue req \<in> svc_queues svc" and id: "req_Id req \<noteq> []"
    and stored: "tab w collectionTickets (req_Id req) \<noteq> None"
  shows "\<exists>w'. Service_Match rt svc req svr gap evs w =
      (Ret (Some (ErrStatus AlreadyExists ''duplicate ticket id'')), w') \<and>
    tab w' = tab w \<and> log w' = log w \<and> rest w' = rest w"
proof -
  obtain w' where c: "CreateMatchRequest rt tm (svr_Context svr) req w =
      (Ret (Some ErrDuplicateTicketID), w')"
    using tickets.CreateMatchRequest_result [OF store stream marshal, of "svr_Context svr" req w] id stored
    by auto
  from tickets.CreateMatchRequest_atomic [OF store c] tickets.CreateMatchRequest_spec [OF c refl]
  have "tab w' = tab w" "log w' = log w" "rest w' = rest w" by simp_all
  moreover from c queue id have "Service_Match rt svc req svr gap evs w =
      (Ret (Some (ErrStatus AlreadyExists ''duplicate ticket id'')), w')"
    by (simp add: Service_Match_def svc_manager go_bind_def)
  ultimately show ?thesis by blast
qed

text \<open>What a message makes of the wait.\<close>

definition on_message :: "ctx \<Rightarrow> string \<Rightarrow> bytes \<Rightarrow> ('w, unit) proc" where
  "on_message cctx k = (\<lambda>b. go_bind (GetMatchRequest rt tm k) (\<lambda>res.
     case res of Inl err \<Rightarrow> go_return ()
     | Inr t \<Rightarrow> go_bind (processTicket rt svr cctx cctx t) (\<lambda>_. go_return ())))"

text \<open>A new request gets as far as the wait.\<close>

lemma Match_waits:
  assumes store: "store_reliable (tm_kvStore tm)" and reads: "reads_reliable (tm_kvStore tm) tab"
    and stream: "stream_reliable rt (tm_streamClient tm)"
    and marshal: "\<forall>q. \<exists>b. rt_marshal_MatchRequest rt q = Inr b"
    and sub: "\<forall>t w. \<exists>n w'. nc_Subscribe nc t w = (Inr n, w')"
    and queue: "req_MatchmakingQueue req \<in> svc_queues svc" and id: "req_Id req \<noteq> []"
    and fresh: "tab w collectionTickets (req_Id req) = None"
    and wf: "tickets_wf rt (tab w)"
  obtains cctx n u v where "Service_Match rt svc req svr gap evs w =
      go_bind (nats_wait rt cctx (on_message cctx (req_Id req)) evs)
        (\<lambda>_. go_bind (call (sub_Unsubscribe nc n)) (\<lambda>_. go_return None)) v"
    "tab v = tab (gap u)" "rest v = rest (gap u)"
    "tab u collectionTickets (req_Id req) \<noteq> None" "tickets_wf rt (tab u)" "rest u = rest w"
    "\<exists>w1. CreateMatchRequest rt tm (svr_Context svr) req w = (Ret None, w1) \<and> tab u = tab w1 \<and> log u = log w1"
    "log v = log (gap u)"
proof -
  let ?k = "req_Id req"
  let ?doc = "request_document (rt_order rt w (request_members req)) (rt_now rt w) req"
  obtain w1 where c: "CreateMatchRequest rt tm (svr_Context svr) req w = (Ret None, w1)"
    using tickets.CreateMatchRequest_result [OF store stream marshal, of "svr_Context svr" req w] id fresh
    by auto
  from tickets.CreateMatchRequest_spec [OF c refl] obtain b where
    b: "rt_marshal_MatchRequest rt ?doc = Inr b" "tab w1 = tput collectionTickets ?k b (tab w)"
      "rest w1 = rest w" by auto
  have wf1: "tickets_wf rt (tab w1)"
    by (rule tickets.ticket_call_wf [OF ticket_call.create [OF c] wf])
  obtain cctx w2 where x: "rt_WithCancel rt w1 = (cctx, w2)" by force
  from WithCancel_view [OF x] have k2: "tab w2 = tab w1" "log w2 = log w1" "rest w2 = rest w1" by auto
  have at: "ticket_at rt (tab w2) ?k = Some ?doc"
    using b k2 codec_MatchRequest [OF b(1)] by (simp add: ticket_at_Some)
  obtain w3 where g: "GetMatchRequest rt tm ?k w2 = (Ret (Inr ?doc), w3)" "tab w3 = tab w2" "rest w3 = rest w2"
      "log w3 = log w2"
    using tickets.GetMatchRequest_ok [OF reads at] by blast
  have none: "dbreq_GameServer ?doc = None" by (simp add: request_document_def Let_def)
  obtain n v where s: "nc_Subscribe nc (GetMatchRequestSubject ?k) (gap w3) = (Inr n, v)" using sub by blast
  from nc_subscribe [OF s] have kv: "tab v = tab (gap w3)" "rest v = rest (gap w3)" "log v = log (gap w3)" by auto
  have "Service_Match rt svc req svr gap evs w = Match_wait rt svc ?k svr gap evs w1"
    using c queue id by (simp add: Service_Match_def svc_manager go_bind_def)
  also have "\<dots> = WatchMatchRequest rt tm cctx ?k
      (\<lambda>t. go_bind (processTicket rt svr cctx cctx t) (\<lambda>_. go_return ())) evs (gap w3)"
    using x g(1) none by (simp add: Match_wait_def svc_manager go_bind_def call_def processTicket_def)
  also have "\<dots> = go_bind (nats_wait rt cctx (on_message cctx ?k) evs)
        (\<lambda>_. go_bind (call (sub_Unsubscribe nc n)) (\<lambda>_. go_return None)) v"
    using s by (simp add: WatchMatchRequest_def deployed_tickets_manager_def pubsub_NATS_Client_def
        pubsub_NATS_Subscribe_def on_message_def go_bind_call)
  finally show ?thesis
    using b(2,3) k2 g kv wf1 c by (intro that [of cctx n v w3]) simp_all
qed

text \<open>A message for an assigned ticket: the response is sent and the wait's context ends.\<close>

lemma on_message_assigned:
  assumes reads: "reads_reliable (tm_kvStore tm) tab"
    and send: "\<forall>r w. \<exists>w'. svr_Send svr r w = (None, w')"
    and at: "ticket_at rt (tab w) k = Some q" "dbreq_GameServer q = Some gs"
  shows "\<exists>w'. on_message cctx k b w = (Ret (), w') \<and> rt_done rt cctx w' \<and> tab w' = tab w \<and>
    outbox (rest w') = outbox (rest w) @ [match_response gs]"
proof -
  obtain w1 where g: "GetMatchRequest rt tm k w = (Ret (Inr q), w1)" "tab w1 = tab w" "rest w1 = rest w"
    using tickets.GetMatchRequest_ok [OF reads at(1)] by blast
  obtain w2 where s: "svr_Send svr (match_response gs) w1 = (None, w2)" using send by blast
  from send_frame [OF s] have o: "tab w2 = tab w1" "outbox (rest w2) = outbox (rest w1) @ [match_response gs]"
    by auto
  have "RetryOp rt cctx (call (svr_Send svr (match_response gs))) [Constant 100000000] w1 = (Ret None, w2)"
    by (rule RetryOp_first) (simp add: call_def s)
  then have "on_message cctx k b w = (Ret (), rt_cancel rt cctx w2)"
    using g(1) at(2) by (simp add: on_message_def go_bind_def processTicket_def)
  with o g(2,3) cancel_view [of cctx w2] cancel_done [of cctx w2] show ?thesis by auto
qed

text \<open>
  The ticket is assigned during the wait by a step \<open>g\<close> of another process, and its announcement
  arrives: the caller gets the response, once, and the call ends. What happened before the
  subscription only has to leave the ticket stored.
\<close>

lemma Match_served:
  assumes store: "store_reliable (tm_kvStore tm)" and reads: "reads_reliable (tm_kvStore tm) tab"
    and stream: "stream_reliable rt (tm_streamClient tm)"
    and marshal: "\<forall>q. \<exists>b. rt_marshal_MatchRequest rt q = Inr b"
    and sub: "\<forall>t w. \<exists>n w'. nc_Subscribe nc t w = (Inr n, w')"
    and send: "\<forall>r w. \<exists>w'. svr_Send svr r w = (None, w')"
    and queue: "req_MatchmakingQueue req \<in> svc_queues svc" and id: "req_Id req \<noteq> []"
    and fresh: "tab w collectionTickets (req_Id req) = None"
    and wf: "tickets_wf rt (tab w)"
    and before: "\<And>v. tickets_wf rt (tab v) \<Longrightarrow> tab v collectionTickets (req_Id req) \<noteq> None \<Longrightarrow>
      tickets_wf rt (tab (gap v)) \<and> tab (gap v) collectionTickets (req_Id req) \<noteq> None \<and>
      outbox (rest (gap v)) = outbox (rest v)"
    and other: "\<And>v. tickets_wf rt (tab v) \<Longrightarrow> tab v collectionTickets (req_Id req) \<noteq> None \<Longrightarrow>
      outbox (rest (g v)) = outbox (rest v) \<and>
      (\<exists>q. ticket_at rt (tab (g v)) (req_Id req) = Some q \<and> dbreq_GameServer q = Some gs)"
  shows "\<exists>w'. Service_Match rt svc req svr gap [SubStep g, SubMsg b, SubDone] w = (Ret None, w') \<and>
    outbox (rest w') = outbox (rest w) @ [match_response gs]"
proof -
  let ?k = "req_Id req"
  obtain cctx n u v where m: "Service_Match rt svc req svr gap [SubStep g, SubMsg b, SubDone] w =
      go_bind (nats_wait rt cctx (on_message cctx ?k) [SubStep g, SubMsg b, SubDone])
        (\<lambda>_. go_bind (call (sub_Unsubscribe nc n)) (\<lambda>_. go_return None)) v"
    "tab v = tab (gap u)" "rest v = rest (gap u)"
    "tab u collectionTickets ?k \<noteq> None" "tickets_wf rt (tab u)" "rest u = rest w"
    by (rule Match_waits [OF store reads stream marshal sub queue id fresh wf]) (rule that)
  from before [OF m(5,4)] m(2,3,6) have v: "tickets_wf rt (tab v)" "tab v collectionTickets ?k \<noteq> None"
    "outbox (rest v) = outbox (rest w)" by simp_all
  from other [OF v(1,2)] obtain q where q: "outbox (rest (g v)) = outbox (rest v)"
    "ticket_at rt (tab (g v)) ?k = Some q" "dbreq_GameServer q = Some gs" by blast
  from on_message_assigned [OF reads send q(2,3)] obtain v2 where
    v2: "on_message cctx ?k b (g v) = (Ret (), v2)" "rt_done rt cctx v2"
      "outbox (rest v2) = outbox (rest (g v)) @ [match_response gs]" by blast
  obtain e v3 where u: "sub_Unsubscribe nc n v2 = (e, v3)" by force
  from unsubscribe [OF u] have "rest v3 = rest v2" by simp
  with m(1) q(1) v(3) v2 u show ?thesis by (simp add: go_bind_def call_def)
qed

text \<open>
  The same step between the check and the subscription: no announcement arrives, and the caller
  waits although the ticket carries its game server.
\<close>

lemma Match_missed:
  assumes store: "store_reliable (tm_kvStore tm)" and reads: "reads_reliable (tm_kvStore tm) tab"
    and stream: "stream_reliable rt (tm_streamClient tm)"
    and marshal: "\<forall>q. \<exists>b. rt_marshal_MatchRequest rt q = Inr b"
    and sub: "\<forall>t w. \<exists>n w'. nc_Subscribe nc t w = (Inr n, w')"
    and queue: "req_MatchmakingQueue req \<in> svc_queues svc" and id: "req_Id req \<noteq> []"
    and fresh: "tab w collectionTickets (req_Id req) = None"
    and wf: "tickets_wf rt (tab w)"
    and other: "\<And>v. tickets_wf rt (tab v) \<Longrightarrow> tab v collectionTickets (req_Id req) \<noteq> None \<Longrightarrow>
      outbox (rest (g v)) = outbox (rest v) \<and>
      (\<exists>q. ticket_at rt (tab (g v)) (req_Id req) = Some q \<and> dbreq_GameServer q = Some gs)"
  shows "\<exists>w' q. Service_Match rt svc req svr g [] w = (Blocked, w') \<and>
    ticket_at rt (tab w') (req_Id req) = Some q \<and> dbreq_GameServer q = Some gs \<and>
    outbox (rest w') = outbox (rest w)"
proof -
  let ?k = "req_Id req"
  obtain cctx n u v where m: "Service_Match rt svc req svr g [] w =
      go_bind (nats_wait rt cctx (on_message cctx ?k) [])
        (\<lambda>_. go_bind (call (sub_Unsubscribe nc n)) (\<lambda>_. go_return None)) v"
    "tab v = tab (g u)" "rest v = rest (g u)"
    "tab u collectionTickets ?k \<noteq> None" "tickets_wf rt (tab u)" "rest u = rest w"
    by (rule Match_waits [OF store reads stream marshal sub queue id fresh wf]) (rule that)
  from other [OF m(5,4)] m show ?thesis by (auto simp: go_bind_def)
qed

end

end
