(* ===== verification/Frontend_Properties.thy ===== *)
theory Frontend_Properties
  imports Ticket_Properties Frontend_Laws
begin

text \<open>
  The properties of the frontend, with its runs on the platform of \<open>Platform\<close>: a service with one
  queue, and a caller whose responses are collected in \<open>w_out\<close>.
\<close>

definition mem_service :: "faults \<Rightarrow> faults \<Rightarrow> world Service" where
  "mem_service rf nf = NewService [''q'', ''default''] (tickets_of mem_runtime (mem_tickets rf nf))"

definition mem_caller :: "world MatchServer" where
  "mem_caller = \<lparr>svr_Context = 0, svr_Send = (\<lambda>resp w. (None, w\<lparr>w_out := w_out w @ [resp]\<rparr>))\<rparr>"

interpretation mem_frontend: frontend_env mem_runtime "mem_redis rf" world_db "mem_nats nf" w_log
  w_out "''rivalry''" "''group''" w_subs set_w_subs "mem_service rf nf" mem_caller "\<lambda>out. out"
  by unfold_locales
    (auto simp: mem_service_def NewService_def mem_tickets_def mem_caller_def deployed_tables_def
      world_db_def)

text \<open>The step of another process that assigns a server to the ticket \<open>t3\<close>.\<close>

definition assign_t3 :: "world \<Rightarrow> world" where
  "assign_t3 w = snd (AddAssignmentToMatchRequests mem_runtime (mem_tickets all_works all_works) 0
     (Some sample_server) (Some (sample_match ''M'' [''t3''])) w)"

lemma assign_t3_assigns:
  assumes "tickets_wf mem_runtime (mem_tables v)" and "mem_tables v collectionTickets ''t3'' \<noteq> None"
  shows "w_out (assign_t3 v) = w_out v \<and>
    (\<exists>q. ticket_at mem_runtime (mem_tables (assign_t3 v)) ''t3'' = Some q \<and>
      dbreq_GameServer q = Some (db_GameServer_of sample_server))"
proof -
  let ?mt = "sample_match ''M'' [''t3'']"
  let ?m = "mem_tickets all_works all_works"
  have ids: "match_MatchRequestIds ?mt = [''t3'']" by (simp add: sample_match_def)
  from assms(2) have some: "set (match_MatchRequestIds ?mt) \<inter> dom (mem_tables v collectionTickets) \<noteq> {}"
    by (auto simp: ids)
  from tickets_env.AddAssignment_ok [OF mem_tickets_env assms(1) mem_store_reliable mem_pubsub_reliable
      some mem_marshal(1)]
  obtain w' where r: "AddAssignmentToMatchRequests mem_runtime ?m 0 (Some sample_server) (Some ?mt) v =
      (Ret None, w')"
    "mem_tables w' = tputs collectionTickets (assigned_docs mem_runtime (db_GameServer_of sample_server)
       (mem_tables v) [''t3'']) (mem_tables v)" unfolding ids by blast
  from r(1) have a: "assign_t3 v = w'" by (simp add: assign_t3_def)
  from tickets_env.AddAssignment_spec [OF mem_tickets_env assms(1) r(1)] have "w_out w' = w_out v"
    by simp
  moreover from tickets_env.ticket_at_assigned [OF mem_tickets_env assms(1) _ assms(2) mem_marshal(1),
      where ks = "[''t3'']" and gs = "db_GameServer_of sample_server"]
  have "\<exists>q. ticket_at mem_runtime (mem_tables w') ''t3'' = Some q \<and>
      dbreq_GameServer q = Some (db_GameServer_of sample_server)"
    unfolding r(2) by auto
  ultimately show ?thesis unfolding a by blast
qed

section \<open>Refusals\<close>

text \<open>A request for a queue the service does not know is refused as an invalid argument, and
  changes nothing.\<close>

theorem match_invalid_queue:
  assumes "frontend_env rt R db nc log rest pfx grp subs set_subs svc svr outbox"
    and "req_MatchmakingQueue req \<notin> svc_queues svc"
  shows "\<exists>w'. Service_Match rt svc req svr gap evs w =
      (Ret (Some (ErrStatus InvalidArgument ''invalid matchmaking queue'')), w') \<and>
    deployed_tables db pfx w' = deployed_tables db pfx w \<and> log w' = log w \<and> rest w' = rest w"
  by (rule frontend_env.Match_invalid_queue [OF assms])

theorem match_invalid_queue_witness:
  "\<exists>w'. Service_Match mem_runtime (mem_service all_works all_works)
      ((sample_request ''t3'')\<lparr>req_MatchmakingQueue := ''other''\<rparr>) mem_caller (\<lambda>w. w) [] world2 =
      (Ret (Some (ErrStatus InvalidArgument ''invalid matchmaking queue'')), w') \<and>
    mem_tables w' = mem_tables world2 \<and> w_log w' = w_log world2 \<and> w_out w' = w_out world2"
  by (rule match_invalid_queue [OF mem_frontend.frontend_env_axioms])
    (simp add: mem_service_def NewService_def)

text \<open>A request under the id of a stored one is refused as already existing, and changes
  nothing.\<close>

theorem match_duplicate:
  assumes "frontend_env rt R db nc log rest pfx grp subs set_subs svc svr outbox"
    and "store_reliable (tm_kvStore (deployed_tickets_manager rt R nc pfx grp subs set_subs))"
    and "stream_reliable rt (tm_streamClient (deployed_tickets_manager rt R nc pfx grp subs set_subs))"
    and "\<forall>q. \<exists>b. rt_marshal_MatchRequest rt q = Inr b"
    and "req_MatchmakingQueue req \<in> svc_queues svc" and "req_Id req \<noteq> []"
    and "deployed_tables db pfx w collectionTickets (req_Id req) \<noteq> None"
  shows "\<exists>w'. Service_Match rt svc req svr gap evs w =
      (Ret (Some (ErrStatus AlreadyExists ''duplicate ticket id'')), w') \<and>
    deployed_tables db pfx w' = deployed_tables db pfx w \<and> log w' = log w \<and> rest w' = rest w"
  by (rule frontend_env.Match_duplicate [OF assms])

theorem match_duplicate_witness:
  "\<exists>w'. Service_Match mem_runtime (mem_service all_works all_works) (sample_request ''t1'') mem_caller
      (\<lambda>w. w) [] world2 = (Ret (Some (ErrStatus AlreadyExists ''duplicate ticket id'')), w') \<and>
    mem_tables w' = mem_tables world2 \<and> w_log w' = w_log world2 \<and> w_out w' = w_out world2"
proof (rule match_duplicate [OF mem_frontend.frontend_env_axioms mem_store_reliable [unfolded mem_tickets_def]
      mem_stream_reliable [unfolded mem_tickets_def] mem_marshal(1)])
  show "mem_tables world2 collectionTickets (req_Id (sample_request ''t1'')) \<noteq> None" by code_simp
qed (simp_all add: mem_service_def NewService_def sample_request_def)

section \<open>The wait for a game server\<close>

text \<open>C11: A new request whose ticket is assigned while the call waits is answered, while the clients of the
  frontend answer. Suppose that the store, its reads and the stream do not fail, that every request can be
  marshalled, that each Subscribe and each Send to the caller succeeds, that the queue is served and that the
  request has an id that is not stored yet. Suppose that what other processes do between the check and the
  subscription leaves the ticket stored, the tickets well formed and the caller without a response, and that
  what they do while the call waits puts a game server into the ticket. Then, when the announcement of the
  assignment arrives, the caller receives that game server, once, and the call ends without an error.\<close>

theorem match_served:
  assumes "frontend_env rt R db nc log rest pfx grp subs set_subs svc svr outbox"
    and "store_reliable (tm_kvStore (deployed_tickets_manager rt R nc pfx grp subs set_subs))"
    and "reads_reliable (tm_kvStore (deployed_tickets_manager rt R nc pfx grp subs set_subs))
      (deployed_tables db pfx)"
    and "stream_reliable rt (tm_streamClient (deployed_tickets_manager rt R nc pfx grp subs set_subs))"
    and "\<forall>q. \<exists>b. rt_marshal_MatchRequest rt q = Inr b"
    and "\<forall>t w. \<exists>n w'. nc_Subscribe nc t w = (Inr n, w')"
    and "\<forall>r w. \<exists>w'. svr_Send svr r w = (None, w')"
    and "req_MatchmakingQueue req \<in> svc_queues svc" and "req_Id req \<noteq> []"
    and "deployed_tables db pfx w collectionTickets (req_Id req) = None"
    and "tickets_wf rt (deployed_tables db pfx w)"
    and "\<And>v. tickets_wf rt (deployed_tables db pfx v) \<Longrightarrow>
      deployed_tables db pfx v collectionTickets (req_Id req) \<noteq> None \<Longrightarrow>
      tickets_wf rt (deployed_tables db pfx (gap v)) \<and>
      deployed_tables db pfx (gap v) collectionTickets (req_Id req) \<noteq> None \<and>
      outbox (rest (gap v)) = outbox (rest v)"
    and "\<And>v. tickets_wf rt (deployed_tables db pfx v) \<Longrightarrow>
      deployed_tables db pfx v collectionTickets (req_Id req) \<noteq> None \<Longrightarrow>
      outbox (rest (g v)) = outbox (rest v) \<and>
      (\<exists>q. ticket_at rt (deployed_tables db pfx (g v)) (req_Id req) = Some q \<and>
        dbreq_GameServer q = Some (db_GameServer_of gsv))"
  shows "\<exists>w'. Service_Match rt svc req svr gap [SubStep g, SubMsg b, SubDone] w = (Ret None, w') \<and>
    outbox (rest w') = outbox (rest w) @ [\<lparr>mresp_GameServer = Some gsv\<rparr>]"
  using frontend_env.Match_served [where gap = gap and g = g and outbox = outbox and rest = rest
      and db = db and pfx = pfx and req = req and w = w and b = b, OF assms]
  unfolding match_response_of .

lemma t3_is_new: "mem_tables world2 collectionTickets (req_Id (sample_request ''t3'')) = None"
  by code_simp

lemma mem_nats_subscribes: "\<forall>t w. \<exists>n w'. nc_Subscribe (mem_nats nf) t w = (Inr n, w')"
  by (simp add: mem_nats_def)

theorem match_served_witness:
  "\<exists>w'. Service_Match mem_runtime (mem_service all_works all_works) (sample_request ''t3'') mem_caller
      (\<lambda>w. w) [SubStep assign_t3, SubMsg ''assigned'', SubDone] world2 = (Ret None, w') \<and>
    w_out w' = w_out world2 @ [\<lparr>mresp_GameServer = Some sample_server\<rparr>]"
proof (rule match_served [OF mem_frontend.frontend_env_axioms mem_store_reliable [unfolded mem_tickets_def]
      mem_reads_reliable [unfolded mem_tickets_def] mem_stream_reliable [unfolded mem_tickets_def]
      mem_marshal(1) mem_nats_subscribes _ _ _ t3_is_new world2_wf])
  show "w_out (assign_t3 v) = w_out v \<and>
      (\<exists>q. ticket_at mem_runtime (mem_tables (assign_t3 v)) (req_Id (sample_request ''t3'')) = Some q \<and>
        dbreq_GameServer q = Some (db_GameServer_of sample_server))"
    if "tickets_wf mem_runtime (mem_tables v)"
      "mem_tables v collectionTickets (req_Id (sample_request ''t3'')) \<noteq> None" for v
    using assign_t3_assigns that by (simp add: sample_request_def)
qed (simp_all add: mem_service_def NewService_def sample_request_def mem_caller_def)

text \<open>C34: The check of the ticket and the subscription are two steps. When the assignment falls between
  them its announcement does not reach the call, which then waits although the stored ticket
  carries its game server, and sends nothing.\<close>

theorem match_missed:
  assumes "frontend_env rt R db nc log rest pfx grp subs set_subs svc svr outbox"
    and "store_reliable (tm_kvStore (deployed_tickets_manager rt R nc pfx grp subs set_subs))"
    and "reads_reliable (tm_kvStore (deployed_tickets_manager rt R nc pfx grp subs set_subs))
      (deployed_tables db pfx)"
    and "stream_reliable rt (tm_streamClient (deployed_tickets_manager rt R nc pfx grp subs set_subs))"
    and "\<forall>q. \<exists>b. rt_marshal_MatchRequest rt q = Inr b"
    and "\<forall>t w. \<exists>n w'. nc_Subscribe nc t w = (Inr n, w')"
    and "req_MatchmakingQueue req \<in> svc_queues svc" and "req_Id req \<noteq> []"
    and "deployed_tables db pfx w collectionTickets (req_Id req) = None"
    and "tickets_wf rt (deployed_tables db pfx w)"
    and "\<And>v. tickets_wf rt (deployed_tables db pfx v) \<Longrightarrow>
      deployed_tables db pfx v collectionTickets (req_Id req) \<noteq> None \<Longrightarrow>
      outbox (rest (g v)) = outbox (rest v) \<and>
      (\<exists>q. ticket_at rt (deployed_tables db pfx (g v)) (req_Id req) = Some q \<and>
        dbreq_GameServer q = Some gs)"
  shows "\<exists>w' q. Service_Match rt svc req svr g [] w = (Blocked, w') \<and>
    ticket_at rt (deployed_tables db pfx w') (req_Id req) = Some q \<and> dbreq_GameServer q = Some gs \<and>
    outbox (rest w') = outbox (rest w)"
  by (rule frontend_env.Match_missed [where g = g and outbox = outbox and rest = rest
      and db = db and pfx = pfx and req = req and w = w, OF assms])

theorem match_missed_witness:
  "\<exists>w' q. Service_Match mem_runtime (mem_service all_works all_works) (sample_request ''t3'') mem_caller
      assign_t3 [] world2 = (Blocked, w') \<and>
    ticket_at mem_runtime (mem_tables w') (req_Id (sample_request ''t3'')) = Some q \<and>
    dbreq_GameServer q = Some (db_GameServer_of sample_server) \<and> w_out w' = w_out world2"
proof (rule match_missed [OF mem_frontend.frontend_env_axioms mem_store_reliable [unfolded mem_tickets_def]
      mem_reads_reliable [unfolded mem_tickets_def] mem_stream_reliable [unfolded mem_tickets_def]
      mem_marshal(1) mem_nats_subscribes _ _ t3_is_new world2_wf])
  show "w_out (assign_t3 v) = w_out v \<and>
      (\<exists>q. ticket_at mem_runtime (mem_tables (assign_t3 v)) (req_Id (sample_request ''t3'')) = Some q \<and>
        dbreq_GameServer q = Some (db_GameServer_of sample_server))"
    if "tickets_wf mem_runtime (mem_tables v)"
      "mem_tables v collectionTickets (req_Id (sample_request ''t3'')) \<noteq> None" for v
    using assign_t3_assigns that by (simp add: sample_request_def)
qed (simp_all add: mem_service_def NewService_def sample_request_def)

end
