(* ===== verification/Client_Properties.thy ===== *)
theory Client_Properties
  imports Ticket_Properties CustomLogic
begin

text \<open>
  The properties of the layers below the managers: the Redis store, the NATS stream and pub-sub
  clients meet the contracts of their interfaces, the Redis pub-sub client and its closed channel,
  the reads of the ticket manager, and the stream of proposed matches.
\<close>

section \<open>The store\<close>

text \<open>C25: The Redis store implements the interface of the store: on a flat key space with the documented
  commands, the methods of \<open>NewRedis\<close> read and write the collections that the prefixed keys
  stand for, and no other collection.\<close>

theorem redis_refines_store:
  assumes "redis_store R db rest ord pfx"
  shows "kv_store (NewRedis ord pfx R) (\<lambda>w. redis_table pfx (db w)) rest plain_name"
  by (rule redis_store.implements_store [OF assms])

theorem redis_refines_store_witness:
  "kv_store (NewRedis (rt_order mem_runtime) ''rivalry'' (mem_redis all_works))
     (\<lambda>w. redis_table ''rivalry'' (world_db w)) (\<lambda>w. (w_log w, w_out w)) plain_name"
  by (rule redis_refines_store [OF mem_store.redis_store_axioms])

text \<open>Two documents share a Redis key only when they share their collection and their id: ids may hold
  any character, as long as the names of the collections hold no colon.\<close>

theorem redis_key_unique:
  assumes "CHR '':'' \<notin> set c" and "CHR '':'' \<notin> set c'"
  shows "redis_key pfx c k = redis_key pfx c' k' \<longleftrightarrow> c = c' \<and> k = k'"
  by (rule redis_key_inject [OF assms])

theorem redis_key_unique_witness:
  "redis_key ''om'' collectionTickets ''t'' \<noteq> redis_key ''om'' collectionTicketAssignments ''t''"
  using redis_key_unique [of collectionTickets collectionTicketAssignments "''om''" "''t''" "''t''"]
  by (simp add: collectionTickets_def collectionTicketAssignments_def)

section \<open>Messages\<close>

text \<open>The connection of the platform, and one that cannot be made.\<close>

definition mem_connect :: "faults \<Rightarrow> string \<Rightarrow> world \<Rightarrow> (error + world nats_Conn) \<times> world" where
  "mem_connect nf url w = (if nf ''CONNECT'' = Works then Inr (mem_nats nf) else Inl (ErrExt ''no servers''), w)"

text \<open>C37: The NATS stream implements the interface of the streams: the client that \<open>NewNATS\<close> returns
  publishes a message exactly when \<open>SendMessage\<close> reports no error, and a subscription publishes
  nothing.\<close>

theorem nats_refines_stream:
  assumes "nats_stream nc log rest set_subs" and "connect url w = (Inr nc, w')"
  shows "\<exists>K. stream_NewNATS connect subs set_subs url grp w = (Ret K, w') \<and> stream_client K log rest"
  by (rule nats_stream.NewNATS_implements_stream) (fact assms)+

theorem nats_refines_stream_witness:
  "\<exists>K. stream_NewNATS (mem_connect all_works) w_subs set_w_subs ''nats'' ''om'' world0 = (Ret K, world0) \<and>
    stream_client K w_log (\<lambda>w. (mem_tables w, w_out w))"
  by (rule nats_refines_stream [OF mem_stream.nats_stream_axioms]) (simp add: mem_connect_def)

text \<open>The NATS pub-sub implements the interface of the pub-sub: a publication is recorded exactly when
  it reports no error, and a blocking subscription changes nothing but by its callbacks.\<close>

theorem nats_refines_pubsub:
  assumes "nats_pubsub nc log rest" and "connect url w = (Inr nc, w')"
  shows "\<exists>P. pubsub_NewNATS rt connect url w = (Ret P, w') \<and> pubsub_client P log rest"
  by (rule nats_pubsub.NewNATS_implements_pubsub) (fact assms)+

theorem nats_refines_pubsub_witness:
  "\<exists>P. pubsub_NewNATS mem_runtime (mem_connect all_works) ''nats'' world0 = (Ret P, world0) \<and>
    pubsub_client P w_log (\<lambda>w. (mem_tables w, w_out w))"
  by (rule nats_refines_pubsub [OF mem_pubsub.nats_pubsub_axioms]) (simp add: mem_connect_def)

text \<open>An event that keeps the loop running.\<close>

definition running :: "'w sub_event \<Rightarrow> bool" where
  "running e = (case e of SubMsg _ \<Rightarrow> True | SubStep _ \<Rightarrow> True | SubClosed \<Rightarrow> False | SubDone \<Rightarrow> False)"

lemma redis_loop_closed:
  assumes "list_all running evs" and "\<And>b v. \<exists>v'. f b v = (Ret (), v')"
  shows "\<exists>w'. redis_select_loop rt cli ps ctx f (evs @ SubClosed # later) w = (Panic NilDereference, w')"
  using assms(1)
proof (induction evs arbitrary: w)
  case (Cons e evs)
  show ?case
  proof (cases e)
    case (SubMsg b)
    obtain v where "f b w = (Ret (), v)" using assms(2) by blast
    with SubMsg Cons show ?thesis by (simp add: go_bind_Ret)
  qed (use Cons in \<open>auto simp: running_def\<close>)
qed simp

text \<open>The loop of the Redis pub-sub client does not look whether its channel is closed: when the
  channel closes before the context is done, the payload of the nil message is read and the
  program panics.\<close>

theorem redis_pubsub_closed_channel:
  assumes "list_all running evs" and "\<And>b v. \<exists>v'. f b v = (Ret (), v')"
  shows "\<exists>w'. RedisPubSub_Subscribe rt r ctx topic f (evs @ SubClosed # later) w = (Panic NilDereference, w')"
  using redis_loop_closed [OF assms] by (simp add: RedisPubSub_Subscribe_def go_bind_call)

definition mem_redis_pubsub :: "world RedisPubSub" where
  "mem_redis_pubsub = \<lparr>rps_cli =
     \<lparr>rps_Publish = (\<lambda>t b w. (None, w\<lparr>w_log := w_log w @ [(t, b)]\<rparr>)), rps_Subscribe = (\<lambda>t w. (0, w)),
      rps_PubSub_Close = (\<lambda>n w. (None, w)), rps_Close = (\<lambda>w. (None, w))\<rparr>, rps_prefix = ''om''\<rparr>"

theorem redis_pubsub_closed_channel_witness:
  "\<exists>w'. RedisPubSub_Subscribe mem_runtime mem_redis_pubsub 0 ''t'' (\<lambda>b w. (Ret (), w))
     ([SubMsg ''assigned''] @ [SubClosed]) world0 = (Panic NilDereference, w')"
  by (rule redis_pubsub_closed_channel) (simp_all add: running_def)

text \<open>A blocking subscription on NATS that returns without an error was woken by the end of its
  context.\<close>

theorem nats_subscribe_until_done:
  assumes "nats_connection nc log (\<lambda>w. rt_done rt ctx w)"
    and "pubsub_NATS_Subscribe rt nc ctx topic f evs w = (Ret None, w')"
  shows "rt_done rt ctx w'"
proof -
  obtain s w1 where s: "nc_Subscribe nc topic w = (s, w1)" by force
  with assms(2) obtain n where n: "s = Inr n"
    by (cases s) (auto simp: pubsub_NATS_Subscribe_def go_bind_call)
  obtain q w2 where q: "nats_wait rt ctx f evs w1 = (q, w2)" by force
  with assms(2) s n have r: "q = Ret ()" "snd (sub_Unsubscribe nc n w2) = w'"
    by (auto simp: pubsub_NATS_Subscribe_def go_bind_call go_bind_def call_def split: go.splits prod.splits)
  from nats_wait_done [of rt ctx f evs w1 w2] q r(1) have "rt_done rt ctx w2" by simp
  with nats_connection.unsubscribe [OF assms(1) prod.collapse [symmetric], of n w2] r(2)
  show ?thesis by simp
qed

theorem nats_subscribe_until_done_witness:
  "rt_done mem_runtime 0 (snd (pubsub_NATS_Subscribe mem_runtime (mem_nats all_works) 0 ''t''
     (\<lambda>b w. (Ret (), rt_cancel mem_runtime 0 w)) [SubDone, SubMsg ''assigned'', SubDone] world0))"
proof -
  let ?run = "pubsub_NATS_Subscribe mem_runtime (mem_nats all_works) 0 ''t''
     (\<lambda>b w. (Ret (), rt_cancel mem_runtime 0 w)) [SubDone, SubMsg ''assigned'', SubDone] world0"
  have f: "fst ?run = Ret None" by code_simp
  have c: "nats_connection (mem_nats all_works) w_log (\<lambda>w. rt_done mem_runtime 0 w)"
    by unfold_locales (auto simp: mem_nats_def mem_runtime_def)
  show ?thesis by (rule nats_subscribe_until_done [OF c prod.collapse [symmetric, of ?run, unfolded f]])
qed

section \<open>Reads of the ticket manager\<close>

text \<open>\<open>GetMatchRequests\<close> returns the stored tickets among the given ids, each once, whatever the order
  and the repetitions of the ids, and changes nothing.\<close>

theorem get_match_requests:
  assumes "tickets_env rt m tab log rest plain"
    and "GetMatchRequests rt m ids w = (r, w')"
  shows "tab w' = tab w \<and> rest w' = rest w \<and> log w' = log w \<and>
    (\<exists>x. r = Ret x \<and>
      (\<forall>ts. x = Inr ts \<longrightarrow>
        (\<exists>keys. distinct keys \<and> set keys = set ids \<inter> dom (tab w collectionTickets) \<and>
           map Some ts = map (ticket_at rt (tab w)) keys)))"
  by (rule tickets_env.GetMatchRequests_spec [OF assms])

theorem get_match_requests_witness:
  "\<exists>ts. fst (GetMatchRequests mem_runtime (mem_tickets all_works all_works) [''t2'', ''gone'', ''t2''] world2) =
     Ret (Inr ts) \<and> map Some ts = [ticket_at mem_runtime (mem_tables world2) ''t2'']"
proof -
  let ?run = "GetMatchRequests mem_runtime (mem_tickets all_works all_works) [''t2'', ''gone'', ''t2''] world2"
  have f: "\<exists>ts. fst ?run = Ret (Inr ts)"
  proof -
    have "(case fst ?run of Ret (Inr ts) \<Rightarrow> True | _ \<Rightarrow> False)" by code_simp
    then show ?thesis by (auto split: go.splits sum.splits)
  qed
  then obtain ts where ts: "fst ?run = Ret (Inr ts)" by blast
  have "mem_tables world2 collectionTickets ''t2'' \<noteq> None" "mem_tables world2 collectionTickets ''gone'' = None"
    by code_simp+
  then have s: "set [''t2'', ''gone'', ''t2''] \<inter> dom (mem_tables world2 collectionTickets) = {''t2''}" by auto
  from get_match_requests [OF mem_tickets_env prod.collapse [symmetric, of ?run]] ts obtain keys where
    k: "distinct keys" "set keys = {''t2''}" "map Some ts = map (ticket_at mem_runtime (mem_tables world2)) keys"
    unfolding s by auto
  from k(1,2) have "keys = [''t2'']"
    by (rule distinct_singleton)
  with k(3) ts show ?thesis by auto
qed

section \<open>The stream of proposed matches\<close>

text \<open>\<open>MakeMatches\<close> hands every proposed match to its callback, once and in the order of the stream,
  up to the first error of the stream; the end of the stream is no error, any other is
  returned.\<close>

theorem proposals_in_order:
  assumes "client ctx req w = (Inr (map RecvResponse resps @ RecvError e # later), w')"
  shows "MakeMatches client ctx req (\<lambda>mt (w, xs). (Ret (), (w, xs @ [mt]))) (w, []) =
    (Ret (if e = ErrEOF then None else Some e), (w', map mmresp_Match resps))"
proof -
  have "recv_loop (\<lambda>mt (w, xs). (Ret (), (w, xs @ [mt]))) (map RecvResponse resps @ RecvError e # later) (v, xs) =
    (Ret (if e = ErrEOF then None else Some e), (v, xs @ map mmresp_Match resps))" for v :: 'a and xs
    by (induction resps arbitrary: xs) (simp_all add: go_bind_def)
  with assms show ?thesis by (simp add: MakeMatches_def)
qed

theorem proposals_in_order_witness:
  "snd (snd (MakeMatches (\<lambda>ctx req w. (Inr (eof_stream [sample_match ''M'' [''t1'']]), w)) 0
      \<lparr>mmreq_Submissions = []\<rparr> (\<lambda>mt (w, xs). (Ret (), (w, xs @ [mt]))) (world0, []))) =
    [Some (sample_match ''M'' [''t1''])]"
  by (subst proposals_in_order [where w' = world0 and e = ErrEOF and later = "[]"
        and resps = "[\<lparr>mmresp_Match = Some (sample_match ''M'' [''t1''])\<rparr>]"])
    (simp_all add: eof_stream_def)

end
