(* ===== verification/Pairs.thy ===== *)
theory Pairs
  imports CustomLogic "HOL-Library.Signed_Division"
begin

text \<open>
  The two services that the repository provides as examples of custom logic:
  \<open>examples/matchmaker/service/pairs.go\<close>, which proposes matches of two, and
  \<open>examples/assignment/service/service.go\<close>, which invents a game server. The server stream of the
  matchmaker is the parameter \<open>send\<close>; it runs, like every closure, on the world and what it
  captures. \<open>pairs_client\<close> is the matchmaker seen by its caller over a connection that delivers
  what is sent and then the end of the stream.
\<close>

section \<open>The matchmaker\<close>

text \<open>The running value of a host: a new one is stored, another is averaged in, in 64 bit arithmetic.\<close>

definition add_rtt :: "api_RTT \<Rightarrow> int64 gomap \<Rightarrow> int64 gomap" where
  "add_rtt r rtts =
    (case fmlookup rtts (rtt_Host r) of
       None \<Rightarrow> fmupd (rtt_Host r) (rtt_Milliseconds r) rtts
     | Some x \<Rightarrow> fmupd (rtt_Host r) (word_of_int (sint (x + rtt_Milliseconds r) sdiv 2)) rtts)"

record pairs_state =
  ps_tickets :: "string list"
  ps_players :: "string list"
  ps_rtts :: "int64 gomap"

definition pairs_state0 :: pairs_state where
  "pairs_state0 = \<lparr>ps_tickets = ['''', ''''], ps_players = ['''', ''''], ps_rtts = fmempty\<rparr>"

text \<open>\<open>xs[0]\<close>\<close>

definition index0 :: "'a list \<Rightarrow> ('w, 'a) proc" where
  "index0 xs = (case xs of [] \<Rightarrow> go_panic IndexOutOfRange | x # _ \<Rightarrow> go_return x)"

text \<open>The match that is sent when the second ticket of a pair is in place.\<close>

definition pair_match :: "string \<Rightarrow> (string set \<Rightarrow> string list) \<Rightarrow> pairs_state \<Rightarrow> api_Match" where
  "pair_match i ord st =
    \<lparr>match_MatchId = i, match_MatchmakingQueue = [], match_MatchRequestIds = ps_tickets st,
     match_PlayerIds = ps_players st,
     match_Rtts = map (\<lambda>(k, v). \<lparr>rtt_Host = k, rtt_Milliseconds = v\<rparr>) (range_map ord (ps_rtts st))\<rparr>"

fun pairs_loop ::
  "'w runtime \<Rightarrow> (api_MakeMatchesResponse \<Rightarrow> 'w \<times> 'x \<Rightarrow> error option \<times> ('w \<times> 'x)) \<Rightarrow> nat \<Rightarrow>
    api_Submission list \<Rightarrow> pairs_state \<Rightarrow> ('w \<times> 'x, unit) proc" where
  "pairs_loop rt send i [] st = go_return ()"
| "pairs_loop rt send i (sub # subs) st =
    go_bind (index0 (sub_Members sub)) (\<lambda>player.
      let st1 = st\<lparr>ps_tickets := (ps_tickets st)[i mod 2 := sub_Id sub],
            ps_players := (ps_players st)[i mod 2 := player],
            ps_rtts := fold add_rtt (sub_Rtts sub) (ps_rtts st)\<rparr>
      in if i mod 2 = 1
         then
           go_bind (no_capture (call (rt_xid rt))) (\<lambda>mid.
           go_bind (\<lambda>(w, x). call (send \<lparr>mmresp_Match = Some (pair_match mid (rt_order rt w) st1)\<rparr>) (w, x)) (\<lambda>_.
           pairs_loop rt send (Suc i) subs (st1\<lparr>ps_rtts := fmempty\<rparr>)))
         else pairs_loop rt send (Suc i) subs st1)"

definition PairsMatchmaker_MakeMatches ::
  "'w runtime \<Rightarrow> api_MakeMatchesRequest \<Rightarrow>
    (api_MakeMatchesResponse \<Rightarrow> 'w \<times> 'x \<Rightarrow> error option \<times> ('w \<times> 'x)) \<Rightarrow> ('w \<times> 'x, error option) proc" where
  "PairsMatchmaker_MakeMatches rt req send =
    go_bind (pairs_loop rt send 0 (mmreq_Submissions req) pairs_state0) (\<lambda>_. go_return None)"

text \<open>The service has no state of its own; a server is given its method.\<close>

definition NewPairsMatchmaker ::
  "'w runtime \<Rightarrow> api_MakeMatchesRequest \<Rightarrow>
    (api_MakeMatchesResponse \<Rightarrow> 'w \<times> 'x \<Rightarrow> error option \<times> ('w \<times> 'x)) \<Rightarrow> ('w \<times> 'x, error option) proc" where
  "NewPairsMatchmaker rt = PairsMatchmaker_MakeMatches rt"

text \<open>The connection: what was sent before the handler ended, and its end.\<close>

definition pairs_client :: "'w runtime \<Rightarrow> 'w MatchMakerServiceClient" where
  "pairs_client rt ctx req w =
    (case PairsMatchmaker_MakeMatches rt req
        (\<lambda>resp (w, sent). (None, (w, sent @ [RecvResponse resp]))) (w, []) of
       (Ret None, (w', sent)) \<Rightarrow> (Inr (sent @ [RecvError ErrEOF]), w')
     | (Ret (Some err), (w', sent)) \<Rightarrow> (Inr (sent @ [RecvError err]), w')
     | (Panic p, (w', sent)) \<Rightarrow> (Inr (sent @ [RecvError (ErrStatus ''Unavailable'' ''EOF'')]), w')
     | (Blocked, (w', sent)) \<Rightarrow> (Inr sent, w'))"

section \<open>The assignment service\<close>

definition FakeServer_MakeAssignment ::
  "(nat \<Rightarrow> 'w \<Rightarrow> nat \<times> 'w) \<Rightarrow> ctx \<Rightarrow> api_MakeAssignmentRequest \<Rightarrow> 'w \<Rightarrow>
    (error + api_MakeAssignmentResponse) \<times> 'w" where
  "FakeServer_MakeAssignment rand_Intn ctx req w =
    (case rand_Intn (65535 - 1024) w of (n, w') \<Rightarrow>
      (Inr \<lparr>maresp_GameServer = Some \<lparr>gs_GameServerIp = ''127.0.0.1'',
         gs_GameServerPorts = [\<lparr>port_Name = ''game'', port_Port = word_of_nat (1024 + n)\<rparr>]\<rparr>\<rparr>, w'))"

text \<open>The port is a registered or a dynamic port.\<close>

lemma FakeServer_port:
  assumes "\<And>k w. 0 < k \<Longrightarrow> fst (rand_Intn k w) < k"
  shows "\<exists>p w'. FakeServer_MakeAssignment rand_Intn ctx req w =
      (Inr \<lparr>maresp_GameServer = Some \<lparr>gs_GameServerIp = ''127.0.0.1'',
         gs_GameServerPorts = [\<lparr>port_Name = ''game'', port_Port = p\<rparr>]\<rparr>\<rparr>, w') \<and>
    1024 \<le> sint p \<and> sint p < 65535"
proof -
  obtain n w' where n: "rand_Intn (65535 - 1024) w = (n, w')" by force
  with assms [of "65535 - 1024" w] have b: "n < 64511" by simp
  then have "sint (word_of_nat (1024 + n) :: int32) = int (1024 + n)"
    by (simp add: signed_of_nat signed_take_bit_int_eq_self del: of_nat_add)
  with n b show ?thesis by (simp add: FakeServer_MakeAssignment_def)
qed

section \<open>What is proposed\<close>

fun pairs_of :: "'a list \<Rightarrow> ('a \<times> 'a) list" where
  "pairs_of (a # b # xs) = (a, b) # pairs_of xs"
| "pairs_of [a] = []"
| "pairs_of [] = []"

text \<open>The proposals for a list of submissions: tickets and players in pairs, in their order.\<close>

definition proposes :: "api_Submission list \<Rightarrow> api_Match list \<Rightarrow> bool" where
  "proposes subs ms \<longleftrightarrow>
    map match_MatchRequestIds ms = map (\<lambda>(a, b). [sub_Id a, sub_Id b]) (pairs_of subs) \<and>
    map match_PlayerIds ms = map (\<lambda>(a, b). [hd (sub_Members a), hd (sub_Members b)]) (pairs_of subs)"

locale pairs_runtime =
  fixes rt :: "'w runtime" and view :: "'w \<Rightarrow> 'v"
  assumes xid_frame: "rt_xid rt w = (i, w') \<Longrightarrow> view w' = view w"
begin

lemma pairs_loop_spec:
  assumes "\<forall>sub \<in> set subs. sub_Members sub \<noteq> []" and "i mod 2 = 0"
    and "length (ps_tickets st) = 2" and "length (ps_players st) = 2"
  shows "\<exists>w' ms. pairs_loop rt (\<lambda>resp (w, sent). (None, (w, sent @ [RecvResponse resp]))) i subs st (w, sent) =
      (Ret (), (w', sent @ map (\<lambda>mt. RecvResponse \<lparr>mmresp_Match = Some mt\<rparr>) ms)) \<and>
    view w' = view w \<and> proposes subs ms"
  using assms
proof (induction subs arbitrary: i st w sent rule: pairs_of.induct)
  case (1 a b subs)
  from "1.prems"(1) obtain p ps q qs where m: "sub_Members a = p # ps" "sub_Members b = q # qs"
    by (metis list.exhaust list.set_intros(1,2))
  from "1.prems"(2) have parity: "i mod 2 = 0" "Suc i mod 2 = 1" "Suc (Suc i) mod 2 = 0" by presburger+
  from "1.prems"(3,4) obtain t1 t2 p1 p2 where "ps_tickets st = [t1, t2]" "ps_players st = [p1, p2]"
    by (auto simp: numeral_2_eq_2 length_Suc_conv)
  then obtain r where two: "st = \<lparr>ps_tickets = [t1, t2], ps_players = [p1, p2], ps_rtts = r\<rparr>"
    by (cases st) simp
  obtain mid w1 where x: "rt_xid rt w = (mid, w1)" by force
  let ?st = "\<lparr>ps_tickets = [sub_Id a, sub_Id b], ps_players = [p, q],
    ps_rtts = fold add_rtt (sub_Rtts b) (fold add_rtt (sub_Rtts a) (ps_rtts st))\<rparr>"
  let ?mt = "pair_match mid (rt_order rt w1) ?st"
  from "1.IH" [of "Suc (Suc i)" "?st\<lparr>ps_rtts := fmempty\<rparr>" w1 "sent @ [RecvResponse \<lparr>mmresp_Match = Some ?mt\<rparr>]"]
    "1.prems"(1) parity(3) obtain w' ms where ih:
    "pairs_loop rt (\<lambda>resp (w, sent). (None, (w, sent @ [RecvResponse resp]))) (Suc (Suc i)) subs
        (?st\<lparr>ps_rtts := fmempty\<rparr>) (w1, sent @ [RecvResponse \<lparr>mmresp_Match = Some ?mt\<rparr>]) =
      (Ret (), (w', (sent @ [RecvResponse \<lparr>mmresp_Match = Some ?mt\<rparr>]) @
         map (\<lambda>mt. RecvResponse \<lparr>mmresp_Match = Some mt\<rparr>) ms))"
    "view w' = view w1" "proposes subs ms" by auto
  have "pairs_loop rt (\<lambda>resp (w, sent). (None, (w, sent @ [RecvResponse resp]))) i (a # b # subs) st (w, sent) =
      (Ret (), (w', sent @ map (\<lambda>mt. RecvResponse \<lparr>mmresp_Match = Some mt\<rparr>) (?mt # ms)))"
    using ih(1) parity(1,2) two m x
    by (simp add: index0_def Let_def go_bind_def no_capture_def call_def)
  moreover have "proposes (a # b # subs) (?mt # ms)"
    using ih(3) m by (simp add: proposes_def pair_match_def)
  moreover from xid_frame [OF x] ih(2) have "view w' = view w" by simp
  ultimately show ?case by blast
next
  case (2 a)
  then obtain p ps where "sub_Members a = p # ps" by (cases "sub_Members a") auto
  with "2.prems" show ?case
    by (intro exI [of _ w] exI [of _ "[]"]) (simp add: index0_def go_bind_def proposes_def Let_def)
qed (auto intro!: exI [of _ "[]"] simp: proposes_def)

lemma pairs_client_spec:
  assumes "\<forall>sub \<in> set (mmreq_Submissions req). sub_Members sub \<noteq> []"
  shows "\<exists>w' ms. pairs_client rt ctx req w = (Inr (eof_stream ms), w') \<and> view w' = view w \<and>
    proposes (mmreq_Submissions req) ms"
proof -
  from pairs_loop_spec [OF assms, of 0 pairs_state0 w "[]"] obtain w' ms where
    "pairs_loop rt (\<lambda>resp (w, sent). (None, (w, sent @ [RecvResponse resp]))) 0 (mmreq_Submissions req)
        pairs_state0 (w, []) = (Ret (), (w', map (\<lambda>mt. RecvResponse \<lparr>mmresp_Match = Some mt\<rparr>) ms))"
    "view w' = view w" "proposes (mmreq_Submissions req) ms"
    by (auto simp: pairs_state0_def)
  then show ?thesis
    by (auto simp: pairs_client_def PairsMatchmaker_MakeMatches_def go_bind_def eof_stream_def)
qed

text \<open>Whatever the submissions, the service changes nothing but the draw of ids.\<close>

lemma pairs_loop_frame:
  assumes "pairs_loop rt (\<lambda>resp (w, sent). (None, (w, sent @ [RecvResponse resp]))) i subs st (w, sent) =
      (r, (w', sent'))"
  shows "view w' = view w"
  using assms
proof (induction subs arbitrary: i st w sent)
  case (Cons sub subs)
  show ?case
  proof (cases "sub_Members sub")
    case Nil
    with Cons.prems show ?thesis by (simp add: index0_def)
  next
    case (Cons p ps)
    obtain mid w1 where x: "rt_xid rt w = (mid, w1)" by force
    show ?thesis
    proof (cases "i mod 2 = 1")
      case True
      with Cons Cons.prems x have "view w' = view w1"
        by (intro Cons.IH) (simp add: index0_def Let_def go_bind_def no_capture_def call_def)
      with xid_frame [OF x] show ?thesis by simp
    next
      case False
      with Cons Cons.prems show ?thesis by (auto simp: index0_def Let_def intro: Cons.IH)
    qed
  qed
qed simp

lemma pairs_client_frame: "pairs_client rt ctx req w = (res, w') \<Longrightarrow> view w' = view w"
  by (auto simp: pairs_client_def PairsMatchmaker_MakeMatches_def go_bind_def
      split: prod.splits go.splits option.splits dest!: pairs_loop_frame)

end

section \<open>The round trip times that are proposed\<close>

definition rtt_in :: "int \<Rightarrow> int \<Rightarrow> int64 \<Rightarrow> bool" where
  "rtt_in lo hi v \<longleftrightarrow> lo \<le> sint v \<and> sint v \<le> hi"

definition rtts_in :: "int \<Rightarrow> int \<Rightarrow> int64 gomap \<Rightarrow> bool" where
  "rtts_in lo hi m \<longleftrightarrow> (\<forall>k v. fmlookup m k = Some v \<longrightarrow> rtt_in lo hi v)"

lemma rtts_in_empty [simp]: "rtts_in lo hi fmempty"
  by (simp add: rtts_in_def)

text \<open>Below \<open>2 ^ 62\<close> the sum of two values does not overflow, and their average lies between them.\<close>

lemma average_in:
  assumes "0 \<le> lo" and "hi < 2 ^ 62" and "rtt_in lo hi x" and "rtt_in lo hi y"
  shows "rtt_in lo hi (word_of_int (sint (x + y) sdiv 2))"
proof -
  have b: "lo \<le> sint x" "sint x \<le> hi" "lo \<le> sint y" "sint y \<le> hi" using assms(3,4) by (simp_all add: rtt_in_def)
  have "sint (x + y) = signed_take_bit 63 (sint x + sint y)" by (simp add: sint_word_ariths)
  also have "\<dots> = sint x + sint y"
    by (rule signed_take_bit_int_eq_self) (use assms(1,2) b in simp_all)
  finally have sum: "sint (x + y) = sint x + sint y" .
  let ?a = "(sint x + sint y) div 2"
  have "sint (x + y) sdiv 2 = ?a" using assms(1) b
    by (cases "sint x + sint y = 0") (simp_all add: sum signed_divide_int_def)
  moreover have "lo \<le> ?a" "?a \<le> hi" using b by linarith+
  moreover from this have "signed_take_bit 63 ?a = ?a"
    using assms(1,2) by (intro signed_take_bit_int_eq_self) simp_all
  then have "sint (word_of_int ?a :: int64) = ?a" by (simp add: sint_sbintrunc')
  ultimately show ?thesis by (simp add: rtt_in_def)
qed

text \<open>Above it does overflow: two equal values of \<open>2 ^ 62\<close> have a negative average.\<close>

lemma average_overflows: "sint (word_of_int (sint ((2 ^ 62 :: int64) + 2 ^ 62) sdiv 2) :: int64) = - (2 ^ 62)"
  by code_simp

lemma add_rtt_in:
  assumes "0 \<le> lo" and "hi < 2 ^ 62" and "rtt_in lo hi (rtt_Milliseconds r)" and "rtts_in lo hi m"
  shows "rtts_in lo hi (add_rtt r m)"
  using assms average_in [OF assms(1,2)] by (auto simp: rtts_in_def add_rtt_def split: option.splits)

lemma fold_add_rtt_in:
  assumes "0 \<le> lo" and "hi < 2 ^ 62" and "\<forall>r \<in> set rs. rtt_in lo hi (rtt_Milliseconds r)" and "rtts_in lo hi m"
  shows "rtts_in lo hi (fold add_rtt rs m)"
  using assms(3,4) by (induction rs arbitrary: m) (simp_all add: add_rtt_in [OF assms(1,2)])

definition proposed_in :: "int \<Rightarrow> int \<Rightarrow> recv list \<Rightarrow> bool" where
  "proposed_in lo hi rs \<longleftrightarrow> (\<forall>resp mt r. RecvResponse resp \<in> set rs \<longrightarrow> mmresp_Match resp = Some mt \<longrightarrow>
     r \<in> set (match_Rtts mt) \<longrightarrow> rtt_in lo hi (rtt_Milliseconds r))"

lemma proposed_in_simps [simp]:
  "proposed_in lo hi []"
  "proposed_in lo hi (rs @ rs') \<longleftrightarrow> proposed_in lo hi rs \<and> proposed_in lo hi rs'"
  "proposed_in lo hi [RecvError err]"
  "proposed_in lo hi [RecvResponse \<lparr>mmresp_Match = Some mt\<rparr>] \<longleftrightarrow>
     (\<forall>r \<in> set (match_Rtts mt). rtt_in lo hi (rtt_Milliseconds r))"
  by (auto simp: proposed_in_def)

lemma pair_match_in:
  assumes "enumerates ord" and "rtts_in lo hi (ps_rtts st)"
  shows "\<forall>r \<in> set (match_Rtts (pair_match mid ord st)). rtt_in lo hi (rtt_Milliseconds r)"
  using assms(2) by (auto simp: pair_match_def rtts_in_def set_range_map [OF assms(1)])

lemma pairs_loop_in:
  assumes "0 \<le> lo" and "hi < 2 ^ 62" and "\<forall>w. enumerates (rt_order rt w)"
    and "\<forall>sub \<in> set subs. \<forall>r \<in> set (sub_Rtts sub). rtt_in lo hi (rtt_Milliseconds r)"
    and "rtts_in lo hi (ps_rtts st)" and "proposed_in lo hi rs"
    and "pairs_loop rt (\<lambda>resp (w, rs). (None, (w, rs @ [RecvResponse resp]))) i subs st (w, rs) = (r, (w', rs'))"
  shows "proposed_in lo hi rs'"
  using assms(4-)
proof (induction subs arbitrary: i st w rs)
  case (Cons sub subs)
  show ?case
  proof (cases "sub_Members sub")
    case Nil
    with Cons.prems show ?thesis by (simp add: index0_def)
  next
    case member: (Cons p ps)
    obtain mid w1 where x: "rt_xid rt w = (mid, w1)" by force
    let ?st = "st\<lparr>ps_tickets := (ps_tickets st)[i mod 2 := sub_Id sub], ps_players := (ps_players st)[i mod 2 := p],
      ps_rtts := fold add_rtt (sub_Rtts sub) (ps_rtts st)\<rparr>"
    have kept: "rtts_in lo hi (ps_rtts ?st)"
      using Cons.prems(1,2) fold_add_rtt_in [OF assms(1,2)] by simp
    show ?thesis
    proof (cases "i mod 2 = 1")
      case True
      let ?rs = "rs @ [RecvResponse \<lparr>mmresp_Match = Some (pair_match mid (rt_order rt w1) ?st)\<rparr>]"
      have "proposed_in lo hi ?rs"
        unfolding proposed_in_simps using Cons.prems(3) pair_match_in [OF assms(3) [rule_format] kept] by blast
      moreover have "pairs_loop rt (\<lambda>resp (w, rs). (None, (w, rs @ [RecvResponse resp]))) (Suc i) subs
          (?st\<lparr>ps_rtts := fmempty\<rparr>) (w1, ?rs) = (r, (w', rs'))"
        using Cons.prems(4) member x True by (simp add: index0_def Let_def go_bind_def no_capture_def call_def)
      ultimately show ?thesis using Cons.prems(1) by (intro Cons.IH) simp_all
    next
      case False
      with Cons.prems(4) member have "pairs_loop rt (\<lambda>resp (w, rs). (None, (w, rs @ [RecvResponse resp]))) (Suc i) subs
          ?st (w, rs) = (r, (w', rs'))" by (simp add: index0_def Let_def)
      with Cons.prems(1,3) kept show ?thesis by (intro Cons.IH) simp_all
    qed
  qed
qed simp

lemma pairs_client_in:
  assumes "0 \<le> lo" and "hi < 2 ^ 62" and "\<forall>w. enumerates (rt_order rt w)"
    and "\<forall>sub \<in> set (mmreq_Submissions req). \<forall>r \<in> set (sub_Rtts sub). rtt_in lo hi (rtt_Milliseconds r)"
    and "pairs_client rt ctx req w = (Inr rs, w')"
  shows "proposed_in lo hi rs"
proof -
  obtain r w1 rs1 where run: "pairs_loop rt (\<lambda>resp (w, rs). (None, (w, rs @ [RecvResponse resp]))) 0
      (mmreq_Submissions req) pairs_state0 (w, []) = (r, (w1, rs1))" by (metis prod.exhaust)
  have "proposed_in lo hi rs1"
    by (rule pairs_loop_in [OF assms(1-4) _ _ run]) (simp_all add: pairs_state0_def)
  with assms(5) run show ?thesis
    by (cases r) (auto simp: pairs_client_def PairsMatchmaker_MakeMatches_def go_bind_def)
qed

end
