(* ===== verification/Pairs_Laws.thy ===== *)
theory Pairs_Laws
  imports Pairs Dispenser_Laws Matcher_Laws
begin

text \<open>
  Components put together: the matcher with the example matchmaker as its custom logic, and the way of
  a match from its creation to the game server of its tickets.
\<close>

lemma proposes_sane:
  assumes "proposes subs ms" and "distinct (map sub_Id subs)" and "sub_Id ` set subs \<subseteq> A"
  shows "sane_proposals A (eof_stream ms)"
  using assms
proof (induction subs arbitrary: ms A rule: pairs_of.induct)
  case (1 a b subs)
  from "1.prems"(1) obtain mt ms' where ms: "ms = mt # ms'"
    "match_MatchRequestIds mt = [sub_Id a, sub_Id b]" "proposes subs ms'"
    by (auto simp: proposes_def map_eq_Cons_conv)
  have "sane_proposals (A - {sub_Id a, sub_Id b}) (eof_stream ms')"
    using "1.prems"(2,3) by (intro "1.IH" [OF ms(3)]) (auto simp: image_iff)
  with ms(1,2) "1.prems"(3) show ?case by (simp add: eof_stream_def)
qed (auto simp: proposes_def eof_stream_def)

context matches_env
begin

text \<open>The example matchmaker runs on the world: only its ids are drawn from it.\<close>

lemma pairs_runtime_here: "pairs_runtime rt (\<lambda>w. (tab w, log w, rest w))"
  by unfold_locales (rule xid_view)

text \<open>What a successful creation announces can be read back.\<close>

lemma CreateMatch_announces:
  assumes "CreateMatch rt (matches_manager_of rt m) (Some mt0) w = (Ret (Inr True), w1)"
  shows "\<exists>mt. log w1 = log w @ [match_msg mt] \<and> match_at rt (tab w1) (match_MatchId mt) = Some mt \<and>
    match_MatchRequestIds mt = match_MatchRequestIds mt0 \<and>
    tab w1 collectionTickets = tab w collectionTickets"
proof -
  from CreateMatch_spec [OF assms] obtain mt where
    mt: "mt = mt0\<lparr>match_MatchId := match_MatchId mt\<rparr>" and
    c: "(\<exists>bs. rt_marshal_Match rt mt = Inr bs \<and> tab w1 = tput collectionMatch (match_MatchId mt) bs
           (tputs collectionTicketAssignments (links mt) (tab w)))" "log w1 = log w @ [match_msg mt]"
    by auto
  have "match_MatchRequestIds mt = match_MatchRequestIds mt0" by (subst mt) simp
  moreover from c(1) obtain bs where bs: "rt_marshal_Match rt mt = Inr bs"
    "tab w1 = tput collectionMatch (match_MatchId mt) bs
      (tputs collectionTicketAssignments (links mt) (tab w))" by blast
  moreover from bs codec_Match [OF bs(1)] have "match_at rt (tab w1) (match_MatchId mt) = Some mt"
    by (simp add: match_at_Some)
  moreover from bs(2) have "tab w1 collectionTickets = tab w collectionTickets" by simp
  ultimately show ?thesis using c(2) by blast
qed

end

context matcher_env
begin

lemma on_batch_pairs:
  assumes pairs: "mat_customLogic mat = pairs_client rt"
    and store: "store_reliable (tm_kvStore m)"
    and stream: "stream_reliable rt (tm_streamClient m)"
    and marshal: "\<forall>mt. \<exists>b. rt_marshal_Match rt mt = Inr b"
    and wf: "tickets_wf rt (tab w)"
  shows "\<exists>w'. on_batch rt mat ctx sts w = (Ret (), w') \<and>
    (\<forall>st \<in> set sts. \<forall>q. ticket_at rt (tab w) (st_MatchRequestId st) = Some q \<longrightarrow>
       looked_after rt (tab w') (log w) (log w') q)"
proof -
  have ids: "map sub_Id (map SubmissionFromDBRequest reqs) = map dbreq_Id reqs" for reqs
    by (simp add: SubmissionFromDBRequest_def Let_def)
  have members: "sub_Members (SubmissionFromDBRequest q) = dbreq_Members q" for q
    by (simp add: SubmissionFromDBRequest_def Let_def)
  have sane: "sane_proposals (dbreq_Id ` set reqs) rs"
    if d: "distinct (map dbreq_Id reqs)" "\<forall>q \<in> set reqs. dbreq_Members q \<noteq> []"
      and c: "mat_customLogic mat ctx \<lparr>mmreq_Submissions = map SubmissionFromDBRequest reqs\<rparr> v = (Inr rs, v')"
    for reqs v rs v'
  proof -
    let ?req = "\<lparr>mmreq_Submissions = map SubmissionFromDBRequest reqs\<rparr>"
    from d(2) have "\<forall>sub \<in> set (mmreq_Submissions ?req). sub_Members sub \<noteq> []" by (auto simp: members)
    from pairs_runtime.pairs_client_spec [OF pairs_runtime_here this, of ctx v] obtain ms where
      ms: "rs = eof_stream ms" "proposes (map SubmissionFromDBRequest reqs) ms"
      using c unfolding pairs by auto
    have "sub_Id ` set (map SubmissionFromDBRequest reqs) = dbreq_Id ` set reqs"
      by (metis ids list.set_map)
    with proposes_sane [OF ms(2)] d(1) ms(1) show ?thesis by (metis ids order_refl)
  qed
  have "\<exists>w'. on_batch rt mat ctx sts w = (Ret (), w')"
    by (rule on_batch_returns [OF store stream marshal wf]) (rule sane)
  then obtain w' where "on_batch rt mat ctx sts w = (Ret (), w')" by blast
  with on_batch_keeps [OF store stream marshal wf this] show ?thesis by blast
qed

end

context dispenser_env
begin

lemma created_match_served:
  assumes wf: "tickets_wf rt (tab w)" and store: "store_reliable (tm_kvStore m)"
    and reads: "reads_reliable (tm_kvStore m) tab"
    and pubsub: "pubsub_reliable (tm_pubsubClient m)"
    and marshal: "\<forall>q. \<exists>b. rt_marshal_MatchRequest rt q = Inr b"
    and created: "CreateMatch rt (matches_manager_of rt m) (Some mt0) w = (Ret (Inr True), w1)"
    and stored: "set (match_MatchRequestIds mt0) \<inter> dom (tab w collectionTickets) \<noteq> {}"
    and later: "tab w2 = tab w1"
    and served: "\<forall>mt v. \<exists>v'. dis_customLogic dis ctx \<lparr>mareq_Match = Some mt\<rparr> v =
      (Inr \<lparr>maresp_GameServer = Some gsv\<rparr>, v')"
  shows "\<exists>data w'. log w1 = log w @ [(GetUnassignedMatchesTopic, data)] \<and>
    Dispenser_delivery rt dis ctx data w2 = (Ret (), w') \<and>
    (\<forall>k \<in> set (match_MatchRequestIds mt0) \<inter> dom (tab w collectionTickets).
       \<exists>q. ticket_at rt (tab w) k = Some q \<and>
         ticket_at rt (tab w') k = Some (q\<lparr>dbreq_GameServer := Some (db_GameServer_of gsv)\<rparr>)) \<and>
    (\<exists>ks. mset ks = mset (match_MatchRequestIds mt0) \<and> log w' = log w2 @ map assigned_msg ks)"
proof -
  from CreateMatch_announces [OF created] obtain mt where mt:
    "log w1 = log w @ [match_msg mt]" "match_at rt (tab w2) (match_MatchId mt) = Some mt"
    "match_MatchRequestIds mt = match_MatchRequestIds mt0"
    "tab w2 collectionTickets = tab w collectionTickets" using later by auto
  have wf2: "tickets_wf rt (tab w2)" using wf mt(4) tickets_wf_cong by blast
  from delivery_served [OF wf2 store reads pubsub mt(2), of ctx gsv] stored marshal served mt(3,4)
  obtain w' ks where w': "Dispenser_delivery rt dis ctx (match_MatchId mt) w2 = (Ret (), w')"
    "tab w' = tputs collectionTickets
      (assigned_docs rt (db_GameServer_of gsv) (tab w2) (match_MatchRequestIds mt)) (tab w2)"
    "mset ks = mset (match_MatchRequestIds mt)" "log w' = log w2 @ map assigned_msg ks" by auto
  have at: "ticket_at rt (tab w2) k = ticket_at rt (tab w) k" for k by (simp add: ticket_at_def mt(4))
  have "\<exists>q. ticket_at rt (tab w) k = Some q \<and>
      ticket_at rt (tab w') k = Some (q\<lparr>dbreq_GameServer := Some (db_GameServer_of gsv)\<rparr>)"
    if "k \<in> set (match_MatchRequestIds mt0) \<inter> dom (tab w collectionTickets)" for k
    using ticket_at_assigned [OF wf2 _ _ marshal, of k "match_MatchRequestIds mt" "db_GameServer_of gsv"]
      that mt(3,4) by (auto simp: w'(2) at)
  with mt(1,3) w'(1,3,4) show ?thesis by (auto simp: match_msg_def)
qed

end

end
