(* ===== verification/Pipeline.thy ===== *)
theory Pipeline
  imports Pairs_Laws Accumulator_Laws
begin

text \<open>
  The stages of the program put together: what one stage announces is what the next one acts on.
\<close>

context tickets_env
begin

lemma CreateMatchRequest_announces:
  assumes "CreateMatchRequest rt m ctx req w = (Ret None, w1)"
  shows "\<exists>b st. log w1 = log w @ [(GetMatchRequestTopic (req_MatchmakingQueue req), b)] \<and>
    rt_unmarshal_StreamTicket rt b = Inr st \<and> st_MatchRequestId st = req_Id req"
proof -
  let ?doc = "request_document (rt_order rt w (request_members req)) (rt_now rt w) req"
  let ?st = "StreamTicketFromDBRequest ?doc"
  from CreateMatchRequest_marshals [OF assms refl] obtain b where b: "rt_marshal_StreamTicket rt ?st = Inr b"
    by blast
  have "st_MatchRequestId ?st = req_Id req" "st_MatchmakingQueue ?st = req_MatchmakingQueue req"
    by (simp_all add: StreamTicketFromDBRequest_def request_document_def Let_def)
  with CreateMatchRequest_spec [OF assms refl] b codec_StreamTicket [OF b] show ?thesis
    by (auto simp: ticket_msg_def)
qed

end

context accumulator_env
begin

text \<open>A delivered ticket is in a batch, the open one or one that waits for its goroutine.\<close>

lemma on_ticket_waits:
  assumes "acc_inv config a"
  shows "\<exists>sts \<in> set (acc_slice (on_ticket config st a) # acc_forwards (on_ticket config st a)).
    st_MatchRequestId st \<in> st_MatchRequestId ` set sts"
proof (cases "st_MatchRequestId st \<in> acc_seen a")
  case True
  with assms show ?thesis by (auto simp: on_ticket_def acc_inv_def)
next
  case False
  show ?thesis unfolding on_ticket_cases [OF assms False] by simp
qed

lemma created_request_waits:
  assumes "CreateMatchRequest rt m ctx req w = (Ret None, w1)"
  shows "\<exists>b. log w1 = log w @ [(GetMatchRequestTopic (req_MatchmakingQueue req), b)] \<and>
    (\<forall>a v. acc_inv (acc_config acc) a \<longrightarrow>
      (\<exists>a'. acc_step rt acc (Delivery b) a v = (Ret a', v) \<and> acc_inv (acc_config acc) a' \<and>
        (\<exists>sts \<in> set (acc_slice a' # acc_forwards a'). req_Id req \<in> st_MatchRequestId ` set sts)))"
proof -
  from CreateMatchRequest_announces [OF assms] obtain b st where b:
    "log w1 = log w @ [(GetMatchRequestTopic (req_MatchmakingQueue req), b)]"
    "rt_unmarshal_StreamTicket rt b = Inr st" "st_MatchRequestId st = req_Id req" by blast
  have "acc_step rt acc (Delivery b) a v = (Ret (on_ticket (acc_config acc) st a), v)" for a v
    by (simp add: delivery_state event_arrivals_def b(2))
  with b(1,3) on_ticket_inv on_ticket_waits [of "acc_config acc" _ st] show ?thesis by metis
qed

end

context matcher_env
begin

lemma published_batch_handled:
  assumes "mat_customLogic mat = pairs_client rt"
    and "store_reliable (tm_kvStore m)" and "stream_reliable rt (tm_streamClient m)"
    and "\<forall>mt. \<exists>b. rt_marshal_Match rt mt = Inr b"
    and "PublishAccumulatedMatchRequests rt m ctx queue sts w = (Ret None, w1)"
  shows "\<exists>data. log w1 = log w @ [(GetAccumulatedMatchRequestTopic queue, data)] \<and>
    (\<forall>v. tickets_wf rt (tab v) \<longrightarrow> (\<exists>v'. Matcher_delivery rt mat data v = (Ret (), v') \<and>
      (\<forall>st \<in> set sts. \<forall>q. ticket_at rt (tab v) (st_MatchRequestId st) = Some q \<longrightarrow>
         looked_after rt (tab v') (log v) (log v') q)))"
proof -
  from PublishAccumulated_spec [OF assms(5)] obtain b where
    b: "rt_marshal_Accumulated rt \<lparr>ast_StreamTickets = sts\<rparr> = Inr b" and
    l: "log w1 = log w @ [batch_msg rt queue sts]" by auto
  have "Matcher_delivery rt mat b v = on_batch rt mat (mat_ctx mat) sts v" for v
    by (simp add: Matcher_delivery_def StreamAccumulatedMatchRequests_callback_def codec_Accumulated [OF b])
  with on_batch_pairs [OF assms(1-4)] b l show ?thesis by (auto simp: batch_msg_def)
qed

end

end
