(* ===== verification/EndToEnd.thy ===== *)
theory EndToEnd
  imports Pipeline Frontend_Laws
begin

text \<open>
  The way of two players through the whole program, from their requests to the game server in their
  tickets: the frontend stores and announces the requests, the accumulator makes a batch of them, the
  matcher over the example matchmaker makes a match of the batch, and the dispenser serves it.
\<close>

section \<open>The accumulator\<close>

context accumulator_env
begin

text \<open>With a limit of two, the second of two tickets completes the batch.\<close>

lemma two_arrivals:
  assumes stream: "stream_reliable rt (tm_streamClient m)"
    and marshal: "\<forall>ast. \<exists>b. rt_marshal_Accumulated rt ast = Inr b"
    and limit: "batch_limit (acc_config acc) = 2"
    and inv: "acc_inv (acc_config acc) a" and idle: "acc_slice a = []" "acc_forwards a = []"
    and st1: "rt_unmarshal_StreamTicket rt b1 = Inr st1" and st2: "rt_unmarshal_StreamTicket rt b2 = Inr st2"
    and two: "st_MatchRequestId st1 \<noteq> st_MatchRequestId st2"
  shows "\<exists>a' w' data. acc_run rt acc [Delivery b1, Delivery b2, Forwarding 0] a w = (Ret a', w') \<and>
    tab w' = tab w \<and> log w' = log w @ [(GetAccumulatedMatchRequestTopic (acc_matchmakingQueue acc), data)] \<and>
    rt_unmarshal_Accumulated rt data = Inr \<lparr>ast_StreamTickets = [st1, st2]\<rparr> \<and> rest w' = rest w"
proof -
  let ?a1 = "on_ticket (acc_config acc) st1 a"
  let ?a2 = "on_ticket (acc_config acc) st2 ?a1"
  have seen: "acc_seen a = {}" using inv idle(1) by (simp add: acc_inv_def)
  have a1: "?a1 = a\<lparr>acc_seen := {st_MatchRequestId st1}, acc_slice := [st1]\<rparr>"
    using on_ticket_cases [OF inv, of st1] seen idle(1) limit by simp
  have a2: "acc_forwards ?a2 = [[st1, st2]]"
    using on_ticket_cases [OF on_ticket_inv [OF inv], of st2 st1] two idle(2) limit by (simp add: a1)
  have step: "acc_step rt acc (Delivery b) a v = (Ret (on_ticket (acc_config acc) st a), v)"
    if "rt_unmarshal_StreamTicket rt b = Inr st" for b st a v
    using that by (simp add: delivery_state event_arrivals_def)
  obtain data where data: "rt_marshal_Accumulated rt \<lparr>ast_StreamTickets = [st1, st2]\<rparr> = Inr data"
    using marshal by blast
  obtain r w' where f: "forwardAccumulatedRequests acc [st1, st2] w = (r, w')" by force
  from forward_spec [OF f] forward_ok [OF stream marshal f] have w': "r = Ret ()" "tab w' = tab w"
    "log w' = log w @ [batch_of [st1, st2]]" "rest w' = rest w" by simp_all
  have "acc_run rt acc [Delivery b1, Delivery b2, Forwarding 0] a w =
      (Ret (?a2\<lparr>acc_forwards := []\<rparr>), w')"
    using f w'(1) a2 by (simp add: step [OF st1] step [OF st2] go_bind_def del: acc_step.simps(1))
  with w'(2-4) data codec_Accumulated [OF data] show ?thesis by (simp add: batch_msg_def)
qed

end

section \<open>The matcher\<close>

context matcher_env
begin

text \<open>Two stored tickets are read as two requests, in some order.\<close>

lemma two_read:
  assumes store: "store_reliable (tm_kvStore m)" and wf: "tickets_wf rt (tab w)"
    and q1: "ticket_at rt (tab w) k1 = Some q1" and q2: "ticket_at rt (tab w) k2 = Some q2" and "k1 \<noteq> k2"
  shows "\<exists>w' a b. GetMatchRequests rt m [k1, k2] w = (Ret (Inr [a, b]), w') \<and> tab w' = tab w \<and> log w' = log w \<and>
    rest w' = rest w \<and> {dbreq_Id a, dbreq_Id b} = {k1, k2} \<and> dbreq_Id a \<noteq> dbreq_Id b \<and> dbreq_Members a \<noteq> [] \<and> dbreq_Members b \<noteq> []"
proof -
  have doc: "dbreq_Id p = key \<and> dbreq_Members p \<noteq> [] \<and> key \<in> dom (tab w collectionTickets)"
    if "ticket_at rt (tab w) key = Some p" for key p
    using that tickets_wfD [OF wf] by (force simp: ticket_at_Some)
  obtain d w1 where "Store_MGet (tm_kvStore m) collectionTickets [k1, k2] w = (Ret (Inr d), w1)"
    using store by (metis store_reliable_def)
  from GetMatchRequests_wf [OF wf this] obtain ts where g: "GetMatchRequests rt m [k1, k2] w = (Ret (Inr ts), w1)"
    by blast
  from GetMatchRequests_spec [OF g] obtain keys where k: "tab w1 = tab w" "log w1 = log w" "distinct keys"
    "set keys = set [k1, k2] \<inter> dom (tab w collectionTickets)" "map Some ts = map (ticket_at rt (tab w)) keys"
    "rest w1 = rest w" by auto
  from k(4) doc [OF q1] doc [OF q2] have s: "set keys = {k1, k2}" by auto
  with k(3) \<open>k1 \<noteq> k2\<close> have "length keys = 2" by (metis card_2_iff distinct_card)
  then obtain x y where xy: "keys = [x, y]" by (metis length_0_conv length_Suc_conv numeral_2_eq_2)
  with k(5) obtain a b where ab: "ts = [a, b]" "ticket_at rt (tab w) x = Some a" "ticket_at rt (tab w) y = Some b"
    by (cases ts) (auto simp: map_eq_Cons_conv)
  with doc [OF ab(2)] doc [OF ab(3)] s k(1-3,6) xy g show ?thesis by auto
qed

lemma two_matched:
  assumes pairs: "mat_customLogic mat = pairs_client rt"
    and store: "store_reliable (tm_kvStore m)" and stream: "stream_reliable rt (tm_streamClient m)"
    and marshal: "\<forall>mt. \<exists>b. rt_marshal_Match rt mt = Inr b"
    and wf: "tickets_wf rt (tab w)"
    and stored: "ticket_at rt (tab w) k1 = Some q1" "ticket_at rt (tab w) k2 = Some q2" "k1 \<noteq> k2"
    and free: "tab w collectionTicketAssignments k1 = None" "tab w collectionTicketAssignments k2 = None"
    and sts: "map st_MatchRequestId sts = [k1, k2]"
  shows "\<exists>w' mt. on_batch rt mat ctx sts w = (Ret (), w') \<and> log w' = log w @ [match_msg mt] \<and>
    match_at rt (tab w') (match_MatchId mt) = Some mt \<and> set (match_MatchRequestIds mt) = {k1, k2} \<and>
    distinct (match_MatchRequestIds mt) \<and> tab w' collectionTickets = tab w collectionTickets \<and>
    rest w' = rest w"
proof -
  from two_read [OF store wf stored] obtain w1 a b where
    g: "GetMatchRequests rt m [k1, k2] w = (Ret (Inr [a, b]), w1)" "tab w1 = tab w" "log w1 = log w"
      "rest w1 = rest w" and
    ids: "{dbreq_Id a, dbreq_Id b} = {k1, k2}" "dbreq_Id a \<noteq> dbreq_Id b" and
    members: "dbreq_Members a \<noteq> []" "dbreq_Members b \<noteq> []" by blast
  let ?req = "\<lparr>mmreq_Submissions = map SubmissionFromDBRequest [a, b]\<rparr>"
  have sub: "sub_Id (SubmissionFromDBRequest q) = dbreq_Id q"
    "sub_Members (SubmissionFromDBRequest q) = dbreq_Members q" for q
    by (simp_all add: SubmissionFromDBRequest_def Let_def)
  from pairs_runtime.pairs_client_spec [OF pairs_runtime_here, of ?req ctx w1] members obtain w2 ms where
    p: "pairs_client rt ctx ?req w1 = (Inr (eof_stream ms), w2)" "tab w2 = tab w1" "log w2 = log w1"
      "proposes (map SubmissionFromDBRequest [a, b]) ms" "rest w2 = rest w1" by (auto simp: sub)
  from p(4) obtain mt0 where mt0: "ms = [mt0]" "match_MatchRequestIds mt0 = [dbreq_Id a, dbreq_Id b]"
    by (auto simp: proposes_def map_eq_Cons_conv sub)
  have "links_free (tab w2) mt0"
    using free ids(1) p(2) g(2) by (auto simp: links_free_def mt0(2) doubleton_eq_iff)
  then obtain w3 where c: "CreateMatch rt (matches_manager_of rt m) (Some mt0) w2 = (Ret (Inr True), w3)"
    using CreateMatch_result [OF store stream marshal, of mt0 w2] by auto
  from CreateMatch_announces [OF c] obtain mt where mt: "log w3 = log w2 @ [match_msg mt]"
    "match_at rt (tab w3) (match_MatchId mt) = Some mt" "match_MatchRequestIds mt = match_MatchRequestIds mt0"
    "tab w3 collectionTickets = tab w2 collectionTickets" by blast
  from CreateMatch_spec [OF c] have r3: "rest w3 = rest w2" by blast
  let ?mm = "fold fmdrop (match_MatchRequestIds mt0) (request_map [a, b])"
  have "?mm = fmempty"
    by (rule fmap_ext) (auto simp: fold_fmdrop_lookup mt0(2) request_map_def)
  moreover have "on_match mat ctx (Some mt0) (w2, request_map [a, b]) = (Ret (), (w3, ?mm))"
    using c by (simp add: on_match_def mat_matches no_capture_def go_bind_def)
  ultimately have "MakeMatches (mat_customLogic mat) ctx ?req (on_match mat ctx) (w1, request_map [a, b]) =
      (Ret None, (w3, fmempty))"
    using p(1) mt0(1) unfolding pairs by (simp add: MakeMatches_def eof_stream_def go_bind_def)
  then have "makeMatches rt mat ctx [a, b] w1 = (Ret (), w3)"
    by (simp add: makeMatches_def Let_def requeueUnmatched_def go_bind_def)
  then have "on_batch rt mat ctx sts w = (Ret (), w3)"
    using g(1) sts by (simp add: on_batch_def mat_tickets go_bind_def)
  then show ?thesis using mt p(2,3,5) g(2-4) r3 ids mt0(2) by (intro exI [of _ w3] exI [of _ mt]) auto
qed

end

section \<open>The program\<close>

text \<open>One accumulator, one matcher and the dispenser over the same store and the same streams.\<close>

locale program_env =
  accumulator_env rt m tab log rest plain acc +
  matcher_env rt m tab log rest plain mat +
  dispenser_env rt m tab log rest plain dis
  for rt :: "'w runtime" and m :: "'w tickets_manager" and tab :: "'w \<Rightarrow> table"
    and log :: "'w \<Rightarrow> message_log" and rest :: "'w \<Rightarrow> 'r" and plain :: "string \<Rightarrow> bool"
    and acc :: "'w accumulator" and mat :: "'w matcher" and dis :: "'w dispenser"

text \<open>
  The program when everything it calls works: clients that answer, an accumulator that collects two
  tickets, the example matchmaker, and an assignment service that has the server \<open>gsv\<close>.
\<close>

locale working_program = program_env rt m tab log rest plain acc mat dis
  for rt :: "'w runtime" and m :: "'w tickets_manager" and tab :: "'w \<Rightarrow> table"
    and log :: "'w \<Rightarrow> message_log" and rest :: "'w \<Rightarrow> 'r" and plain :: "string \<Rightarrow> bool"
    and acc :: "'w accumulator" and mat :: "'w matcher" and dis :: "'w dispenser" +
  fixes ctx :: ctx and gsv :: api_GameServer
  assumes pairs: "mat_customLogic mat = pairs_client rt"
    and store: "store_reliable (tm_kvStore m)" and reads: "reads_reliable (tm_kvStore m) tab"
    and stream: "stream_reliable rt (tm_streamClient m)" and pubsub: "pubsub_reliable (tm_pubsubClient m)"
    and marshal: "\<forall>q. \<exists>b. rt_marshal_MatchRequest rt q = Inr b" "\<forall>mt. \<exists>b. rt_marshal_Match rt mt = Inr b"
      "\<forall>ast. \<exists>b. rt_marshal_Accumulated rt ast = Inr b"
    and limit: "batch_limit (acc_config acc) = 2"
    and served: "\<forall>mt v. \<exists>v'. dis_customLogic dis ctx \<lparr>mareq_Match = Some mt\<rparr> v =
      (Inr \<lparr>maresp_GameServer = Some gsv\<rparr>, v')"
begin

text \<open>A request is stored, unlinked as before, and announced.\<close>

lemma request_stored:
  assumes wf: "tickets_wf rt (tab w)"
    and id: "req_Id req \<noteq> []" "tab w collectionTickets (req_Id req) = None"
  shows "\<exists>w' b st q. CreateMatchRequest rt m c req w = (Ret None, w') \<and>
    log w' = log w @ [(GetMatchRequestTopic (req_MatchmakingQueue req), b)] \<and>
    rt_unmarshal_StreamTicket rt b = Inr st \<and> st_MatchRequestId st = req_Id req \<and>
    tickets_wf rt (tab w') \<and> ticket_at rt (tab w') (req_Id req) = Some q \<and>
    (\<forall>k. k \<noteq> req_Id req \<longrightarrow> tab w' collectionTickets k = tab w collectionTickets k) \<and>
    tab w' collectionTicketAssignments = tab w collectionTicketAssignments \<and> rest w' = rest w"
proof -
  from CreateMatchRequest_result [OF store stream marshal(1), of c req w] id obtain w' where
    run: "CreateMatchRequest rt m c req w = (Ret None, w')" by auto
  from CreateMatchRequest_announces [OF run] obtain b st where
    "log w' = log w @ [(GetMatchRequestTopic (req_MatchmakingQueue req), b)]"
    "rt_unmarshal_StreamTicket rt b = Inr st" "st_MatchRequestId st = req_Id req" by blast
  moreover have wf': "tickets_wf rt (tab w')" by (rule ticket_call_wf [OF ticket_call.create [OF run] wf])
  moreover from CreateMatchRequest_spec [OF run refl] obtain d where
    t: "tab w' = tput collectionTickets (req_Id req) d (tab w)" "rest w' = rest w" by auto
  moreover obtain q where "ticket_at rt (tab w') (req_Id req) = Some q"
    using tickets_wfD [OF wf', of "req_Id req" d] t(1) by (auto simp: ticket_at_Some)
  ultimately show ?thesis using run by (intro exI conjI) (assumption | simp)+
qed

text \<open>The services on two new tickets of the store that were announced.\<close>

lemma two_served:
  assumes inv: "acc_inv (acc_config acc) a" and idle: "acc_slice a = []" "acc_forwards a = []"
    and wf: "tickets_wf rt (tab w)"
    and stored: "ticket_at rt (tab w) k1 = Some q1" "ticket_at rt (tab w) k2 = Some q2" "k1 \<noteq> k2"
    and free: "tab w collectionTicketAssignments k1 = None" "tab w collectionTicketAssignments k2 = None"
    and b1: "rt_unmarshal_StreamTicket rt b1 = Inr st1" "st_MatchRequestId st1 = k1"
    and b2: "rt_unmarshal_StreamTicket rt b2 = Inr st2" "st_MatchRequestId st2 = k2"
  shows "\<exists>a' w3 batch w4 mid w5.
    acc_run rt acc [Delivery b1, Delivery b2, Forwarding 0] a w = (Ret a', w3) \<and>
    log w3 = log w @ [(GetAccumulatedMatchRequestTopic (acc_matchmakingQueue acc), batch)] \<and>
    Matcher_delivery rt mat batch w3 = (Ret (), w4) \<and>
    log w4 = log w3 @ [(GetUnassignedMatchesTopic, mid)] \<and>
    Dispenser_delivery rt dis ctx mid w4 = (Ret (), w5) \<and>
    (\<forall>k \<in> {k1, k2}. \<exists>q. ticket_at rt (tab w5) k = Some q \<and> dbreq_GameServer q = Some (db_GameServer_of gsv)) \<and>
    (\<exists>ks. mset ks = {#k1, k2#} \<and> log w5 = log w4 @ map assigned_msg ks) \<and> rest w5 = rest w"
proof -
  from two_arrivals [OF stream marshal(3) limit inv idle b1(1) b2(1), of w] b1(2) b2(2) stored(3) obtain a' w3 batch where
    w3: "acc_run rt acc [Delivery b1, Delivery b2, Forwarding 0] a w = (Ret a', w3)" "tab w3 = tab w"
      "log w3 = log w @ [(GetAccumulatedMatchRequestTopic (acc_matchmakingQueue acc), batch)]"
      "rt_unmarshal_Accumulated rt batch = Inr \<lparr>ast_StreamTickets = [st1, st2]\<rparr>" "rest w3 = rest w" by auto
  have free3: "tab w3 collectionTicketAssignments k1 = None" "tab w3 collectionTicketAssignments k2 = None"
    using free w3(2) by simp_all
  from two_matched [OF pairs store stream marshal(2) _ _ _ stored(3) free3, of q1 q2 "[st1, st2]" "mat_ctx mat"]
    wf stored(1,2) w3(2) b1(2) b2(2) obtain w4 mt where
    w4: "on_batch rt mat (mat_ctx mat) [st1, st2] w3 = (Ret (), w4)" "log w4 = log w3 @ [match_msg mt]"
      "match_at rt (tab w4) (match_MatchId mt) = Some mt" "set (match_MatchRequestIds mt) = {k1, k2}"
      "distinct (match_MatchRequestIds mt)" "tab w4 collectionTickets = tab w3 collectionTickets" "rest w4 = rest w3"
    by auto
  have d4: "Matcher_delivery rt mat batch w3 = (Ret (), w4)"
    using w3(4) w4(1) by (simp add: Matcher_delivery_def StreamAccumulatedMatchRequests_callback_def)
  have wf4: "tickets_wf rt (tab w4)" using wf w3(2) w4(6) tickets_wf_cong by metis
  have at: "ticket_at rt (tab w4) k = ticket_at rt (tab w) k" for k by (simp add: ticket_at_def w4(6) w3(2))
  have dom: "k \<in> dom (tab w4 collectionTickets)" if "k \<in> {k1, k2}" for k
    using that stored(1,2) w4(6) w3(2) by (auto simp: ticket_at_Some)
  from delivery_served [OF wf4 store reads pubsub w4(3), of ctx gsv] marshal(1) served dom w4(4) obtain w5 ks where
    w5: "Dispenser_delivery rt dis ctx (match_MatchId mt) w4 = (Ret (), w5)"
      "tab w5 = tputs collectionTickets
        (assigned_docs rt (db_GameServer_of gsv) (tab w4) (match_MatchRequestIds mt)) (tab w4)"
      "mset ks = mset (match_MatchRequestIds mt)" "log w5 = log w4 @ map assigned_msg ks" "rest w5 = rest w4" by auto
  have "\<exists>q. ticket_at rt (tab w5) k = Some q \<and> dbreq_GameServer q = Some (db_GameServer_of gsv)"
    if "k \<in> {k1, k2}" for k
    using ticket_at_assigned [OF wf4 _ _ marshal(1), of k "match_MatchRequestIds mt" "db_GameServer_of gsv"]
      that dom [OF that] w4(4) by (auto simp: w5(2))
  then have answered: "\<forall>k \<in> {k1, k2}. \<exists>q. ticket_at rt (tab w5) k = Some q \<and>
    dbreq_GameServer q = Some (db_GameServer_of gsv)" by blast
  have "mset ks = mset_set (set (match_MatchRequestIds mt))" by (simp add: w5(3) mset_set_set w4(5))
  with stored(3) w5(4) have told: "\<exists>ks. mset ks = {#k1, k2#} \<and> log w5 = log w4 @ map assigned_msg ks"
    by (intro exI [of _ ks]) (simp add: w4(4))
  have l4: "log w4 = log w3 @ [(GetUnassignedMatchesTopic, match_MatchId mt)]"
    using w4(2) by (simp add: match_msg_def)
  have r5: "rest w5 = rest w" using w3(5) w4(7) w5(5) by simp
  show ?thesis
    by (rule exI [of _ a'], rule exI [of _ w3], rule exI [of _ batch], rule exI [of _ w4],
        rule exI [of _ "match_MatchId mt"], rule exI [of _ w5])
      (intro conjI w3(1,3) d4 l4 w5(1) answered told r5)
qed

lemma two_players_meet:
  assumes inv: "acc_inv (acc_config acc) a" and idle: "acc_slice a = []" "acc_forwards a = []"
    and wf: "tickets_wf rt (tab w)"
    and new: "\<forall>k \<in> {req_Id req1, req_Id req2}. k \<noteq> [] \<and> tab w collectionTickets k = None \<and>
      tab w collectionTicketAssignments k = None" and two: "req_Id req1 \<noteq> req_Id req2"
    and queue: "req_MatchmakingQueue req1 = req_MatchmakingQueue req2"
  shows "\<exists>w1 w2 b1 b2 a' w3 batch w4 mid w5.
    CreateMatchRequest rt m ctx1 req1 w = (Ret None, w1) \<and>
    CreateMatchRequest rt m ctx2 req2 w1 = (Ret None, w2) \<and>
    log w2 = log w @ map (Pair (GetMatchRequestTopic (req_MatchmakingQueue req1))) [b1, b2] \<and>
    acc_run rt acc [Delivery b1, Delivery b2, Forwarding 0] a w2 = (Ret a', w3) \<and>
    log w3 = log w2 @ [(GetAccumulatedMatchRequestTopic (acc_matchmakingQueue acc), batch)] \<and>
    Matcher_delivery rt mat batch w3 = (Ret (), w4) \<and>
    log w4 = log w3 @ [(GetUnassignedMatchesTopic, mid)] \<and>
    Dispenser_delivery rt dis ctx mid w4 = (Ret (), w5) \<and>
    (\<forall>k \<in> {req_Id req1, req_Id req2}. \<exists>q. ticket_at rt (tab w5) k = Some q \<and>
       dbreq_GameServer q = Some (db_GameServer_of gsv)) \<and>
    (\<exists>ks. mset ks = {#req_Id req1, req_Id req2#} \<and> log w5 = log w4 @ map assigned_msg ks)"
proof -
  let ?k1 = "req_Id req1" and ?k2 = "req_Id req2"
  have n1: "?k1 \<noteq> []" "tab w collectionTickets ?k1 = None" and n2: "?k2 \<noteq> []" "tab w collectionTickets ?k2 = None"
    and u: "tab w collectionTicketAssignments ?k1 = None" "tab w collectionTicketAssignments ?k2 = None"
    using new by simp_all
  from request_stored [OF wf n1, of ctx1] obtain w1 b1 st1 q1 where
    w1: "CreateMatchRequest rt m ctx1 req1 w = (Ret None, w1)"
      "log w1 = log w @ [(GetMatchRequestTopic (req_MatchmakingQueue req1), b1)]"
      "rt_unmarshal_StreamTicket rt b1 = Inr st1" "st_MatchRequestId st1 = ?k1"
      "tickets_wf rt (tab w1)" "ticket_at rt (tab w1) ?k1 = Some q1"
      "\<forall>k. k \<noteq> ?k1 \<longrightarrow> tab w1 collectionTickets k = tab w collectionTickets k"
      "tab w1 collectionTicketAssignments = tab w collectionTicketAssignments" by blast
  from w1(7) n2(2) two have n2': "tab w1 collectionTickets ?k2 = None" by simp
  from request_stored [OF w1(5) n2(1) n2', of ctx2] obtain w2 b2 st2 q2 where
    w2: "CreateMatchRequest rt m ctx2 req2 w1 = (Ret None, w2)"
      "log w2 = log w1 @ [(GetMatchRequestTopic (req_MatchmakingQueue req2), b2)]"
      "rt_unmarshal_StreamTicket rt b2 = Inr st2" "st_MatchRequestId st2 = ?k2"
      "tickets_wf rt (tab w2)" "ticket_at rt (tab w2) ?k2 = Some q2"
      "\<forall>k. k \<noteq> ?k2 \<longrightarrow> tab w2 collectionTickets k = tab w1 collectionTickets k"
      "tab w2 collectionTicketAssignments = tab w1 collectionTicketAssignments" by blast
  from w1(6) w2(7) two have q1: "ticket_at rt (tab w2) ?k1 = Some q1" by (simp add: ticket_at_def)
  have free: "tab w2 collectionTicketAssignments ?k1 = None" "tab w2 collectionTicketAssignments ?k2 = None"
    using u w1(8) w2(8) by simp_all
  from two_served [OF inv idle w2(5) q1 w2(6) two free
      w1(3,4) w2(3,4)] obtain a' w3 batch w4 mid w5 ks where
    run: "acc_run rt acc [Delivery b1, Delivery b2, Forwarding 0] a w2 = (Ret a', w3)"
      "log w3 = log w2 @ [(GetAccumulatedMatchRequestTopic (acc_matchmakingQueue acc), batch)]"
      "Matcher_delivery rt mat batch w3 = (Ret (), w4)" "log w4 = log w3 @ [(GetUnassignedMatchesTopic, mid)]"
      "Dispenser_delivery rt dis ctx mid w4 = (Ret (), w5)"
    and answered: "\<forall>k \<in> {?k1, ?k2}. \<exists>q. ticket_at rt (tab w5) k = Some q \<and>
      dbreq_GameServer q = Some (db_GameServer_of gsv)"
    and ks: "mset ks = {#?k1, ?k2#}" "log w5 = log w4 @ map assigned_msg ks"
    by (elim exE conjE) (rule that, assumption+)
  from ks have told: "\<exists>ks. mset ks = {#?k1, ?k2#} \<and> log w5 = log w4 @ map assigned_msg ks" by blast
  have l2: "log w2 = log w @ map (Pair (GetMatchRequestTopic (req_MatchmakingQueue req1))) [b1, b2]"
    using w1(2) w2(2) queue by simp
  show ?thesis
    by (rule exI [of _ w1], rule exI [of _ w2], rule exI [of _ b1], rule exI [of _ b2], rule exI [of _ a'],
        rule exI [of _ w3], rule exI [of _ batch], rule exI [of _ w4], rule exI [of _ mid],
        rule exI [of _ w5]) (intro conjI w1(1) w2(1) l2 run answered told)
qed

end

section \<open>A player who waits\<close>

text \<open>
  What the rest of the program does while the first player waits: the request of the second player is
  stored, its announcement and the one before it (the last of the log) are delivered to the
  accumulator and its goroutine runs, then the batch that it published is delivered to the matcher, and
  the match that this one announced to the dispenser.
\<close>

definition rest_of_program ::
  "'w runtime \<Rightarrow> 'w tickets_manager \<Rightarrow> ('w \<Rightarrow> message_log) \<Rightarrow> 'w accumulator \<Rightarrow> acc_state \<Rightarrow> 'w matcher \<Rightarrow>
    'w dispenser \<Rightarrow> ctx \<Rightarrow> ctx \<Rightarrow> api_MatchRequest \<Rightarrow> 'w \<Rightarrow> 'w" where
  "rest_of_program rt m log acc a mat dis ctx ctx2 req2 v =
    (let last_message = (\<lambda>v. snd (last (log v)));
         v1 = snd (CreateMatchRequest rt m ctx2 req2 v);
         v2 = snd (acc_run rt acc [Delivery (last_message v), Delivery (last_message v1), Forwarding 0] a v1);
         v3 = snd (Matcher_delivery rt mat (last_message v2) v2)
     in snd (Dispenser_delivery rt dis ctx (last_message v3) v3))"

locale live_program =
  frontend_env rt R db nc log rest pfx grp subs set_subs svc svr outbox +
  working_program rt "deployed_tickets_manager rt R nc pfx grp subs set_subs" "deployed_tables db pfx" log rest plain
    acc mat dis ctx gsv
  for rt :: "'w runtime" and R :: "'w redis_cli" and db :: "'w \<Rightarrow> string \<rightharpoonup> bytes"
    and nc :: "'w nats_Conn" and log :: "'w \<Rightarrow> message_log" and rest :: "'w \<Rightarrow> 'r"
    and pfx grp :: string and subs :: "'w \<Rightarrow> nat list" and set_subs :: "nat list \<Rightarrow> 'w \<Rightarrow> 'w"
    and svc :: "'w Service" and svr :: "'w MatchServer" and outbox :: "'r \<Rightarrow> api_MatchResponse list"
    and plain :: "string \<Rightarrow> bool" and acc :: "'w accumulator" and mat :: "'w matcher" and dis :: "'w dispenser"
    and ctx :: ctx and gsv :: api_GameServer +
  assumes sub: "\<forall>t w. \<exists>n w'. nc_Subscribe nc t w = (Inr n, w')"
    and send: "\<forall>r w. \<exists>w'. svr_Send svr r w = (None, w')"
begin

lemma waiting_player_answered:
  assumes inv: "acc_inv (acc_config acc) a" and idle: "acc_slice a = []" "acc_forwards a = []"
    and wf: "tickets_wf rt (tab w)"
    and new: "\<forall>k \<in> {req_Id req1, req_Id req2}. k \<noteq> [] \<and> tab w collectionTickets k = None \<and>
      tab w collectionTicketAssignments k = None" and two: "req_Id req1 \<noteq> req_Id req2"
    and queue: "req_MatchmakingQueue req1 \<in> svc_queues svc"
  shows "\<exists>w'. Service_Match rt svc req1 svr (\<lambda>v. v)
      [SubStep (rest_of_program rt tm log acc a mat dis ctx ctx2 req2), SubMsg b, SubDone] w = (Ret None, w') \<and>
    outbox (rest w') = outbox (rest w) @ [\<lparr>mresp_GameServer = Some gsv\<rparr>]"
proof -
  let ?k1 = "req_Id req1" and ?k2 = "req_Id req2"
  let ?g = "rest_of_program rt tm log acc a mat dis ctx ctx2 req2"
  let ?evs = "[SubStep ?g, SubMsg b, SubDone]"
  have n1: "?k1 \<noteq> []" "tab w collectionTickets ?k1 = None" and n2: "?k2 \<noteq> []" "tab w collectionTickets ?k2 = None"
    and free: "tab w collectionTicketAssignments ?k1 = None" "tab w collectionTicketAssignments ?k2 = None"
    using new by simp_all
  from request_stored [OF wf n1, of "svr_Context svr"] obtain w1 b1 st1 q1 where
    w1: "CreateMatchRequest rt tm (svr_Context svr) req1 w = (Ret None, w1)"
      "log w1 = log w @ [(GetMatchRequestTopic (req_MatchmakingQueue req1), b1)]"
      "rt_unmarshal_StreamTicket rt b1 = Inr st1" "st_MatchRequestId st1 = ?k1"
      "tickets_wf rt (tab w1)" "ticket_at rt (tab w1) ?k1 = Some q1"
      "\<forall>k. k \<noteq> ?k1 \<longrightarrow> tab w1 collectionTickets k = tab w collectionTickets k"
      "tab w1 collectionTicketAssignments = tab w collectionTicketAssignments" "rest w1 = rest w" by blast
  obtain cctx n u v where m: "Service_Match rt svc req1 svr (\<lambda>v. v) ?evs w =
      go_bind (nats_wait rt cctx (on_message cctx ?k1) ?evs)
        (\<lambda>_. go_bind (call (sub_Unsubscribe nc n)) (\<lambda>_. go_return None)) v"
    and uv: "tab v = tab u" "rest v = rest u" "log v = log u" "rest u = rest w"
      "\<exists>w1. CreateMatchRequest rt tm (svr_Context svr) req1 w = (Ret None, w1) \<and> tab u = tab w1 \<and> log u = log w1"
    by (rule Match_waits [OF store reads stream marshal(1) sub queue n1 wf]) (rule that)
  from uv w1(1) have v: "tab v = tab w1" "log v = log w1" "rest v = rest w" by auto
  have wfv: "tickets_wf rt (tab v)" and n2v: "tab v collectionTickets ?k2 = None"
    using w1(5,7) n2(2) two by (simp_all add: v(1))
  from request_stored [OF wfv n2(1) n2v, of ctx2] obtain w2 b2 st2 q2 where
    w2: "CreateMatchRequest rt tm ctx2 req2 v = (Ret None, w2)"
      "log w2 = log v @ [(GetMatchRequestTopic (req_MatchmakingQueue req2), b2)]"
      "rt_unmarshal_StreamTicket rt b2 = Inr st2" "st_MatchRequestId st2 = ?k2"
      "tickets_wf rt (tab w2)" "ticket_at rt (tab w2) ?k2 = Some q2"
      "\<forall>k. k \<noteq> ?k2 \<longrightarrow> tab w2 collectionTickets k = tab v collectionTickets k"
      "tab w2 collectionTicketAssignments = tab v collectionTicketAssignments" "rest w2 = rest v" by blast
  from w1(6) w2(7) two v(1) have q1: "ticket_at rt (tab w2) ?k1 = Some q1" by (simp add: ticket_at_def)
  have free2: "tab w2 collectionTicketAssignments ?k1 = None" "tab w2 collectionTicketAssignments ?k2 = None"
    using free w1(8) w2(8) v(1) by simp_all
  from two_served [OF inv idle w2(5) q1 w2(6) two free2
      w1(3,4) w2(3,4)] obtain a' w3 batch w4 mid w5 ks where
    run: "acc_run rt acc [Delivery b1, Delivery b2, Forwarding 0] a w2 = (Ret a', w3)"
      "log w3 = log w2 @ [(GetAccumulatedMatchRequestTopic (acc_matchmakingQueue acc), batch)]"
      "Matcher_delivery rt mat batch w3 = (Ret (), w4)" "log w4 = log w3 @ [(GetUnassignedMatchesTopic, mid)]"
      "Dispenser_delivery rt dis ctx mid w4 = (Ret (), w5)"
    and answered: "\<forall>k \<in> {?k1, ?k2}. \<exists>q. ticket_at rt (tab w5) k = Some q \<and>
      dbreq_GameServer q = Some (db_GameServer_of gsv)"
    and r5: "rest w5 = rest w2" by (elim exE conjE) (rule that, assumption+)
  have g: "?g v = w5"
    by (simp add: rest_of_program_def Let_def v(2) w1(2) w2(1,2) run del: acc_run.simps)
  from answered obtain q where q: "ticket_at rt (tab w5) ?k1 = Some q" "dbreq_GameServer q = Some (db_GameServer_of gsv)"
    by blast
  from on_message_assigned [OF reads send q, of cctx b] obtain v2 where
    v2: "on_message cctx ?k1 b w5 = (Ret (), v2)" "rt_done rt cctx v2"
      "outbox (rest v2) = outbox (rest w5) @ [match_response (db_GameServer_of gsv)]" by blast
  obtain e v3 where un: "sub_Unsubscribe nc n v2 = (e, v3)" by force
  from unsubscribe [OF un] have "rest v3 = rest v2" by simp
  moreover have "Service_Match rt svc req1 svr (\<lambda>v. v) ?evs w = (Ret None, v3)"
    unfolding m using v2(1,2) un by (simp add: g go_bind_def call_def)
  ultimately show ?thesis
    using v2(3) r5 w2(9) v(3) by (intro exI [of _ v3]) (simp add: match_response_of)
qed

end

end
