(* ===== verification/Commands.thy ===== *)
theory Commands
  imports Deployment Accumulator Matcher Dispenser Frontend
begin

text \<open>
  \<open>cmd/accumulator\<close>, \<open>cmd/matcher\<close>, \<open>cmd/dispenser\<close> and \<open>cmd/frontend\<close> (\<open>cmd/root.go\<close> of each): how a
  process is put together from its flags, what it runs, what it defers, and how \<open>Stop\<close> waits for it.
  The flags (cobra), the connections and the gRPC server are parameters. \<open>RunE\<close> runs on the world
  and on the variables that it shares with \<open>Stop\<close>: the counter of the wait group and the function
  that \<open>Stop\<close> is set to.
\<close>

section \<open>Parameters\<close>

record flags =
  GetString :: "string \<Rightarrow> string"
  GetBool :: "string \<Rightarrow> bool"
  GetInt64 :: "string \<Rightarrow> int64"
  GetStringSlice :: "string \<Rightarrow> string list"

record 'w host =
  host_rt :: "'w runtime"
  host_NewClient :: "string \<Rightarrow> string \<Rightarrow> 'w redis_cli"
  host_Connect :: "string \<Rightarrow> 'w \<Rightarrow> (error + 'w nats_Conn) \<times> 'w"
  host_subs :: "'w \<Rightarrow> nat list"
  host_set_subs :: "nat list \<Rightarrow> 'w \<Rightarrow> 'w"
  host_Dial :: "string \<Rightarrow> 'w \<Rightarrow> (error + nat) \<times> 'w"
  host_MatchMakerServiceClient :: "nat \<Rightarrow> 'w MatchMakerServiceClient"
  host_AssignmentServiceClient :: "nat \<Rightarrow> 'w AssignmentServiceClient"
  host_Listen :: "string \<Rightarrow> 'w \<Rightarrow> (error + nat) \<times> 'w"
  host_Serve :: "'w Service \<Rightarrow> nat \<Rightarrow> ('w, error option) proc"
  host_GracefulStop :: "'w \<Rightarrow> 'w"

section \<open>What a process shares with Stop\<close>

datatype stop_func = StopNil | StopContext ctx | StopServer

record cmd_vars =
  cmd_wg :: nat
  cmd_Stop :: stop_func

definition cmd_vars0 :: cmd_vars where
  "cmd_vars0 = \<lparr>cmd_wg = 0, cmd_Stop = StopNil\<rparr>"

text \<open>\<open>wg.Add(1)\<close> on the new wait group, then \<open>Stop = func() ...\<close>; \<open>wg.Done()\<close>.\<close>

definition set_Stop :: "stop_func \<Rightarrow> ('w \<times> cmd_vars, unit) proc" where
  "set_Stop f = set_captured \<lparr>cmd_wg = 1, cmd_Stop = f\<rparr>"

definition wg_Done :: "('w \<times> cmd_vars, unit) proc" where
  "wg_Done = (\<lambda>(w, v). (Ret (), (w, v\<lparr>cmd_wg := cmd_wg v - 1\<rparr>)))"

text \<open>
  The call of \<open>Stop\<close>: it ends the context or stops the server, the process goes on as \<open>g\<close> says, and
  \<open>wg.Wait\<close> returns when the counter is zero.
\<close>

definition call_Stop :: "'w host \<Rightarrow> ('w \<times> cmd_vars \<Rightarrow> 'w \<times> cmd_vars) \<Rightarrow> ('w \<times> cmd_vars, unit) proc" where
  "call_Stop h g = (\<lambda>(w, v). case cmd_Stop v of
      StopNil \<Rightarrow> (Panic NilDereference, (w, v))
    | StopContext ctx \<Rightarrow>
        (let s = g (rt_cancel (host_rt h) ctx w, v) in (if cmd_wg (snd s) = 0 then Ret () else Blocked, s))
    | StopServer \<Rightarrow>
        (let s = g (host_GracefulStop h w, v) in (if cmd_wg (snd s) = 0 then Ret () else Blocked, s)))"

text \<open>\<open>defer d()\<close> before \<open>f\<close>: it runs when \<open>f\<close> returns and when it panics.\<close>

definition with_defer :: "('s, unit) proc \<Rightarrow> ('s, 'a) proc \<Rightarrow> ('s, 'a) proc" where
  "with_defer d f s =
    (case f s of
       (Blocked, s') \<Rightarrow> (Blocked, s')
     | (r, s') \<Rightarrow> (case d s' of (Ret _, s2) \<Rightarrow> (r, s2) | (Panic p, s2) \<Rightarrow> (Panic p, s2) | (Blocked, s2) \<Rightarrow> (Blocked, s2)))"

section \<open>The clients of a process\<close>

definition open_store :: "'w host \<Rightarrow> flags \<Rightarrow> 'w Store" where
  "open_store h fl =
    (let network = if GetBool fl ''redis_unix'' then ''unix'' else ''tcp''
     in NewRedis (rt_order (host_rt h)) ''om'' (host_NewClient h network (GetString fl ''redis_addr'')))"

definition open_clients :: "'w host \<Rightarrow> flags \<Rightarrow> ('w, 'w Store \<times> 'w stream_Client \<times> 'w pubsub_Client) proc" where
  "open_clients h fl =
    (let natsAddr = GetString fl ''nats_addr''
     in go_bind (stream_NewNATS (host_Connect h) (host_subs h) (host_set_subs h) natsAddr ''om'') (\<lambda>streamClient.
        go_bind (pubsub_NewNATS (host_rt h) (host_Connect h) natsAddr) (\<lambda>pubsubClient.
        go_return (open_store h fl, streamClient, pubsubClient))))"

section \<open>The commands\<close>

definition accumulator_RunE :: "'w host \<Rightarrow> flags \<Rightarrow> ('w \<times> cmd_vars, error option) proc" where
  "accumulator_RunE h fl =
    (let queue = GetString fl ''queue'' in
     go_bind (no_capture (open_clients h fl)) (\<lambda>(kvStore, streamClient, pubsubClient).
     let ticketsManager = tickets_NewManager (host_rt h) kvStore streamClient pubsubClient in
     with_defer (no_capture (TM_Close ticketsManager))
       (let config = accumulator_config (GetInt64 fl ''max_tickets'') (GetInt64 fl ''max_delay'') in
        go_bind (no_capture (call (rt_WithCancel (host_rt h)))) (\<lambda>ctx.
        go_bind (set_Stop (StopContext ctx)) (\<lambda>_.
        go_bind (no_capture (NewAccumulator ctx queue ticketsManager config)) (\<lambda>(accumulator, _).
        go_bind (no_capture (Accumulator_Run (host_rt h) accumulator)) (\<lambda>err.
        go_bind wg_Done (\<lambda>_. go_return err))))))))"

definition matcher_RunE :: "'w host \<Rightarrow> flags \<Rightarrow> ('w \<times> cmd_vars, error option) proc" where
  "matcher_RunE h fl =
    (let queue = GetString fl ''queue'' in
     go_bind (no_capture (open_clients h fl)) (\<lambda>(kvStore, streamClient, pubsubClient).
     let ticketsManager = tickets_NewManager (host_rt h) kvStore streamClient pubsubClient;
       matchesManager = matches_NewManager (host_rt h) ticketsManager kvStore streamClient in
     with_defer (no_capture (go_bind (TM_Close ticketsManager) (\<lambda>_. MM_Close matchesManager)))
       (go_bind (no_capture (call (rt_WithCancel (host_rt h)))) (\<lambda>ctx.
        go_bind (set_Stop (StopContext ctx)) (\<lambda>_.
        go_bind (no_capture (call (host_Dial h (GetString fl ''matchmaker_target'')))) (\<lambda>res.
        case res of
          Inl err \<Rightarrow> go_return (Some (ErrWrap ''failed to connect to assignment service'' err))
        | Inr matchmakerConn \<Rightarrow>
            let matcher = NewMatcher ctx queue ticketsManager matchesManager
                  (NewMatchmakerManager (host_MatchMakerServiceClient h matchmakerConn)) in
            go_bind (no_capture (Matcher_Run (host_rt h) matcher)) (\<lambda>err.
            go_bind wg_Done (\<lambda>_. go_return err))))))))"

definition dispenser_RunE :: "'w host \<Rightarrow> flags \<Rightarrow> ('w \<times> cmd_vars, error option) proc" where
  "dispenser_RunE h fl =
    go_bind (no_capture (call (host_Dial h (GetString fl ''assignment_target'')))) (\<lambda>res.
    case res of
      Inl err \<Rightarrow> go_return (Some (ErrWrap ''failed to connect to assignment service'' err))
    | Inr assignmentConn \<Rightarrow>
        go_bind (no_capture (open_clients h fl)) (\<lambda>(kvStore, streamClient, pubsubClient).
        let ticketsManager = tickets_NewManager (host_rt h) kvStore streamClient pubsubClient;
          matchesManager = matches_NewManager (host_rt h) ticketsManager kvStore streamClient in
        with_defer (no_capture (go_bind (TM_Close ticketsManager) (\<lambda>_. MM_Close matchesManager)))
          (let dispenser = NewDispenser matchesManager ticketsManager
                 (NewAssignmentManager (host_AssignmentServiceClient h assignmentConn)) in
           go_bind (no_capture (call (rt_WithCancel (host_rt h)))) (\<lambda>ctx.
           go_bind (set_Stop (StopContext ctx)) (\<lambda>_.
           go_bind (no_capture (Dispenser_Run (host_rt h) dispenser ctx)) (\<lambda>err.
           go_bind wg_Done (\<lambda>_. go_return err)))))))"

text \<open>\<open>log.Fatal\<close> ends the process; nothing is deferred at that point.\<close>

definition frontend_RunE :: "'w host \<Rightarrow> flags \<Rightarrow> ('w \<times> cmd_vars, error option) proc" where
  "frontend_RunE h fl =
    go_bind (no_capture (call (host_Listen h (GetString fl ''address'')))) (\<lambda>res.
    case res of
      Inl err \<Rightarrow> go_panic (PanicError err)
    | Inr ln \<Rightarrow>
        go_bind (no_capture (open_clients h fl)) (\<lambda>(kvStore, streamClient, pubsubClient).
        let ticketsManager = tickets_NewManager (host_rt h) kvStore streamClient pubsubClient;
          frontendService = NewService (GetStringSlice fl ''queues'') ticketsManager in
        with_defer (no_capture (Service_Close frontendService))
          (go_bind (set_Stop StopServer) (\<lambda>_.
           go_bind (no_capture (host_Serve h frontendService ln)) (\<lambda>err.
           go_bind wg_Done (\<lambda>_. go_return err))))))"

section \<open>Flags and configuration\<close>

text \<open>The flags that \<open>NewRootCmd\<close> of a command declares, with their defaults.\<close>

definition no_flags :: flags where
  "no_flags = \<lparr>GetString = (\<lambda>_. []), GetBool = (\<lambda>_. False), GetInt64 = (\<lambda>_. 0), GetStringSlice = (\<lambda>_. [])\<rparr>"

definition accumulator_flags :: flags where
  "accumulator_flags = no_flags
    \<lparr>GetString := (\<lambda>_. [])(''queue'' := ''default''),
     GetInt64 := (\<lambda>_. 0)(''max_tickets'' := 1000, ''max_delay'' := 1000)\<rparr>"

definition matcher_flags :: flags where
  "matcher_flags = no_flags\<lparr>GetString := (\<lambda>_. [])(''queue'' := ''default'')\<rparr>"

definition dispenser_flags :: flags where
  "dispenser_flags = no_flags"

definition frontend_flags :: flags where
  "frontend_flags = no_flags
    \<lparr>GetString := (\<lambda>_. [])(''address'' := '':50051''),
     GetStringSlice := (\<lambda>_. [])(''queues'' := [''default''])\<rparr>"

text \<open>The kinds of the flags and the ones marked as required, as the library is told.\<close>

datatype flag_kind = BoolFlag | StringFlag | Int64Flag | StringSliceFlag

record flagset =
  fs_kinds :: "(string \<times> flag_kind) list"
  fs_required :: "string list"
  fs_defaults :: flags

definition accumulator_flagset :: flagset where
  "accumulator_flagset =
    \<lparr>fs_kinds = [(''config'', StringFlag), (''redis_unix'', BoolFlag), (''redis_addr'', StringFlag),
       (''nats_addr'', StringFlag), (''queue'', StringFlag), (''max_tickets'', Int64Flag),
       (''max_delay'', Int64Flag)],
     fs_required = [''redis_addr'', ''nats_addr''], fs_defaults = accumulator_flags\<rparr>"

definition matcher_flagset :: flagset where
  "matcher_flagset =
    \<lparr>fs_kinds = [(''config'', StringFlag), (''redis_unix'', BoolFlag), (''redis_addr'', StringFlag),
       (''nats_addr'', StringFlag), (''queue'', StringFlag), (''matchmaker_target'', StringFlag)],
     fs_required = [''redis_addr'', ''nats_addr'', ''matchmaker_target''], fs_defaults = matcher_flags\<rparr>"

definition dispenser_flagset :: flagset where
  "dispenser_flagset =
    \<lparr>fs_kinds = [(''config'', StringFlag), (''redis_unix'', BoolFlag), (''redis_addr'', StringFlag),
       (''nats_addr'', StringFlag), (''assignment_target'', StringFlag)],
     fs_required = [''redis_addr'', ''nats_addr'', ''assignment_target''], fs_defaults = dispenser_flags\<rparr>"

definition frontend_flagset :: flagset where
  "frontend_flagset =
    \<lparr>fs_kinds = [(''address'', StringFlag), (''config'', StringFlag), (''redis_unix'', BoolFlag),
       (''redis_addr'', StringFlag), (''nats_addr'', StringFlag), (''queues'', StringSliceFlag)],
     fs_required = [''redis_addr'', ''nats_addr''], fs_defaults = frontend_flags\<rparr>"

text \<open>
  \<open>initConfig\<close>: the configuration library is told what to read, an exact file or a name to look for in the
  home directory, and to look at the environment; then it reads the file, and when there is one its name
  is printed. The error of the home directory ends the process. The library is a parameter: where the
  home directory is and which file is read.
\<close>

datatype config_source = ConfigFile string | ConfigName string string

record config_lib =
  cl_homedir_Dir :: "error + string"
  cl_ReadInConfig :: "config_source \<Rightarrow> error + string"

record viper =
  vp_source :: config_source
  vp_AutomaticEnv :: bool
  vp_stderr :: "string list"

definition init_config :: "string \<Rightarrow> config_lib \<Rightarrow> string \<Rightarrow> error + viper" where
  "init_config name cl cfgFile =
    (case (if cfgFile \<noteq> [] then Inr (ConfigFile cfgFile)
           else case cl_homedir_Dir cl of Inl err \<Rightarrow> Inl err | Inr home \<Rightarrow> Inr (ConfigName home name)) of
       Inl err \<Rightarrow> Inl err
     | Inr src \<Rightarrow> Inr \<lparr>vp_source = src, vp_AutomaticEnv = True,
         vp_stderr = (case cl_ReadInConfig cl src of
             Inr used \<Rightarrow> [''Using config file: '' @ used] | Inl _ \<Rightarrow> [])\<rparr>)"

definition accumulator_initConfig :: "config_lib \<Rightarrow> string \<Rightarrow> error + viper" where
  "accumulator_initConfig = init_config ''.accumulator''"

definition matcher_initConfig :: "config_lib \<Rightarrow> string \<Rightarrow> error + viper" where
  "matcher_initConfig = init_config ''.matcher''"

definition dispenser_initConfig :: "config_lib \<Rightarrow> string \<Rightarrow> error + viper" where
  "dispenser_initConfig = init_config ''.dispenser''"

definition frontend_initConfig :: "config_lib \<Rightarrow> string \<Rightarrow> error + viper" where
  "frontend_initConfig = init_config ''.frontend''"

end
