(* ===== verification/Operator.thy ===== *)
theory Operator
  imports Prelude
begin

text \<open>
  \<open>cmd/operator\<close>: the types of a profile (\<open>api/v1alpha1/profile_types.go\<close>) and the reconciler that
  creates the objects of a profile in a Kubernetes cluster (\<open>controllers/profile_controller.go\<close>).

  The client of the cluster, the YAML reader and \<open>SetControllerReference\<close> are parameters. Of the
  objects of Kubernetes the records hold the fields that the templates fill and the code reads
  or writes. An embedded template file is named by the variable that holds it (\<open>template\<close>);
  \<open>template_Deployment\<close> and \<open>template_Service\<close> are what the files say.
\<close>

section \<open>Profiles\<close>

record MatchmakingQueue =
  mq_Name :: string
  mq_MatchmakerTarget :: string
  mq_MaxTickets :: int64
  mq_MaxDelay :: int64

record FrontendService =
  fes_Image :: string

record AccumulatorService =
  acs_Image :: string

record MatcherService =
  mas_Image :: string

record DispenserService =
  dis_Image :: string
  dis_AssignmentTarget :: string

record ProfileSpec =
  spec_NatsAddress :: string
  spec_RedisAddress :: string
  spec_FrontendService :: FrontendService
  spec_AccumulatorService :: AccumulatorService
  spec_MatcherService :: MatcherService
  spec_DispenserService :: DispenserService
  spec_MatchmakingQueues :: "MatchmakingQueue option list"

record Profile =
  prof_Namespace :: string
  prof_Name :: string
  prof_Spec :: ProfileSpec

section \<open>Objects of the cluster\<close>

type_synonym NamespacedName = "string \<times> string"

record ObjectMeta =
  meta_Name :: string
  meta_Namespace :: string
  meta_App :: string
  meta_Controller :: "NamespacedName option"

record Container =
  ctr_Name :: string
  ctr_Image :: string
  ctr_Args :: "string list"
  ctr_Ports :: "int32 list"

record Deployment =
  dep_Meta :: ObjectMeta
  dep_Replicas :: int32
  dep_Selector :: string
  dep_Containers :: "Container list"

record kube_Service =
  ksv_Meta :: ObjectMeta
  ksv_Selector :: string
  ksv_Ports :: "int32 list"

definition dep_key :: "Deployment \<Rightarrow> NamespacedName" where
  "dep_key d = (meta_Namespace (dep_Meta d), meta_Name (dep_Meta d))"

definition ksv_key :: "kube_Service \<Rightarrow> NamespacedName" where
  "ksv_key s = (meta_Namespace (ksv_Meta s), meta_Name (ksv_Meta s))"

section \<open>Parameters\<close>

datatype template = FrontendServiceYaml | FrontendDeploymentYaml | AccumulatorDeploymentYaml |
  MatcherDeploymentYaml | DispenserDeploymentYaml

record 'w kube_Client =
  kc_GetProfile :: "NamespacedName \<Rightarrow> 'w \<Rightarrow> (error + Profile) \<times> 'w"
  kc_GetDeployment :: "NamespacedName \<Rightarrow> 'w \<Rightarrow> error option \<times> 'w"
  kc_GetService :: "NamespacedName \<Rightarrow> 'w \<Rightarrow> error option \<times> 'w"
  kc_CreateDeployment :: "Deployment \<Rightarrow> 'w \<Rightarrow> error option \<times> 'w"
  kc_CreateService :: "kube_Service \<Rightarrow> 'w \<Rightarrow> error option \<times> 'w"

record 'w ProfileReconciler =
  pr_Client :: "'w kube_Client"
  pr_SetControllerReference :: "Profile \<Rightarrow> ObjectMeta \<Rightarrow> error + ObjectMeta"
  pr_yaml_Deployment :: "template \<Rightarrow> error + Deployment"
  pr_yaml_Service :: "template \<Rightarrow> error + kube_Service"

text \<open>\<open>errors.IsNotFound\<close> of the API machinery: the reason of a status error.\<close>

definition IsNotFound :: "error \<Rightarrow> bool" where
  "IsNotFound err = (case err of ErrStatus reason _ \<Rightarrow> reason = ''NotFound'' | _ \<Rightarrow> False)"

section \<open>Names and arguments\<close>

definition FrontendName :: string where
  "FrontendName = ''rivalry-frontend''"

definition AccumulatorName :: string where
  "AccumulatorName = ''rivalry-accumulator''"

definition MatcherName :: string where
  "MatcherName = ''rivalry-matcher''"

definition DispenserName :: string where
  "DispenserName = ''rivalry-dispenser''"

text \<open>\<open>fmt.Sprint\<close> of a 64 bit integer.\<close>

fun dec_digits :: "nat \<Rightarrow> string" where
  "dec_digits n = (if n < 10 then [char_of (48 + n)] else dec_digits (n div 10) @ [char_of (48 + n mod 10)])"

declare dec_digits.simps [simp del]

definition Sprint_int64 :: "int64 \<Rightarrow> string" where
  "Sprint_int64 w = (if sint w < 0 then ''-'' @ dec_digits (nat (- sint w)) else dec_digits (nat (sint w)))"

definition accumulatorName :: "MatchmakingQueue \<Rightarrow> string" where
  "accumulatorName mp = AccumulatorName @ ''-'' @ mq_Name mp"

definition matcherName :: "MatchmakingQueue \<Rightarrow> string" where
  "matcherName mp = MatcherName @ ''-'' @ mq_Name mp"

section \<open>Steps of the reconciler\<close>

text \<open>\<open>for _, x := range xs { if err := f(x); err != nil { return err } }; return nil\<close>\<close>

fun range_until :: "('x \<Rightarrow> ('w, error option) proc) \<Rightarrow> 'x list \<Rightarrow> ('w, error option) proc" where
  "range_until f [] = go_return None"
| "range_until f (x # xs) = go_bind (f x) (\<lambda>err.
    case err of Some e \<Rightarrow> go_return (Some e) | None \<Rightarrow> range_until f xs)"

text \<open>\<open>if configured, err := check; err != nil { return err } else if !configured { configure }\<close>\<close>

definition ensure ::
  "('w, error + bool) proc \<Rightarrow> ('w, error option) proc \<Rightarrow> ('w, error option) proc" where
  "ensure check configure =
    go_bind check (\<lambda>res.
      case res of
        Inl err \<Rightarrow> go_return (Some err)
      | Inr isConfigured \<Rightarrow>
          if \<not> isConfigured
          then go_bind configure (\<lambda>err.
            case err of Some e \<Rightarrow> go_return (Some e) | None \<Rightarrow> go_return None)
          else go_return None)"

definition was_found :: "error option \<Rightarrow> error + bool" where
  "was_found res = (case res of
      None \<Rightarrow> Inr True
    | Some err \<Rightarrow> if IsNotFound err then Inr False else Inl err)"

text \<open>\<open>Containers[0]\<close> panics when the list is empty.\<close>

definition at_container0 :: "(Container \<Rightarrow> Container) \<Rightarrow> Deployment \<Rightarrow> ('w, Deployment) proc" where
  "at_container0 f s = (case dep_Containers s of
      [] \<Rightarrow> go_panic IndexOutOfRange
    | c # cs \<Rightarrow> go_return (s\<lparr>dep_Containers := f c # cs\<rparr>))"

definition add_args :: "string list \<Rightarrow> Container \<Rightarrow> Container" where
  "add_args args c = c\<lparr>ctr_Args := ctr_Args c @ args\<rparr>"

text \<open>The end of every \<open>configure\<close>: the owner is set and the object is created.\<close>

definition create_owned ::
  "'w ProfileReconciler \<Rightarrow> Profile \<Rightarrow> Deployment \<Rightarrow> ('w, error option) proc" where
  "create_owned r i s =
    (case pr_SetControllerReference r i (dep_Meta s) of
       Inl err \<Rightarrow> go_return (Some err)
     | Inr mt \<Rightarrow> go_bind (call (kc_CreateDeployment (pr_Client r) (s\<lparr>dep_Meta := mt\<rparr>))) (\<lambda>err.
         case err of Some e \<Rightarrow> go_return (Some e) | None \<Rightarrow> go_return None))"

section \<open>The dispenser\<close>

definition dispenserDeploymentIsConfigured ::
  "'w ProfileReconciler \<Rightarrow> Profile \<Rightarrow> ('w, error + bool) proc" where
  "dispenserDeploymentIsConfigured r i =
    go_bind (call (kc_GetDeployment (pr_Client r) (prof_Namespace i, DispenserName)))
      (\<lambda>res. go_return (was_found res))"

definition configureDispenserDeployment ::
  "'w ProfileReconciler \<Rightarrow> Profile \<Rightarrow> ('w, error option) proc" where
  "configureDispenserDeployment r i =
    (case pr_yaml_Deployment r DispenserDeploymentYaml of
       Inl err \<Rightarrow> go_return (Some err)
     | Inr s0 \<Rightarrow>
         go_bind (at_container0 (\<lambda>c. add_args
             [''--nats_addr'', spec_NatsAddress (prof_Spec i),
              ''--redis_addr'', spec_RedisAddress (prof_Spec i),
              ''--assignment_target'', dis_AssignmentTarget (spec_DispenserService (prof_Spec i))]
             (c\<lparr>ctr_Image := dis_Image (spec_DispenserService (prof_Spec i))\<rparr>))
           (s0\<lparr>dep_Meta := (dep_Meta s0)\<lparr>meta_Namespace := prof_Namespace i\<rparr>\<rparr>)) (\<lambda>s.
         create_owned r i s))"

definition reconcileDispenser :: "'w ProfileReconciler \<Rightarrow> Profile \<Rightarrow> ('w, error option) proc" where
  "reconcileDispenser r i =
    ensure (dispenserDeploymentIsConfigured r i) (configureDispenserDeployment r i)"

section \<open>The accumulators\<close>

definition accumulatorIsConfigured ::
  "'w ProfileReconciler \<Rightarrow> Profile \<Rightarrow> MatchmakingQueue option \<Rightarrow> ('w, error + bool) proc" where
  "accumulatorIsConfigured r i mp_ptr =
    go_bind (deref mp_ptr) (\<lambda>mp.
    go_bind (call (kc_GetDeployment (pr_Client r) (prof_Namespace i, accumulatorName mp)))
      (\<lambda>res. go_return (was_found res)))"

definition configureAccumulatorDeployment ::
  "'w ProfileReconciler \<Rightarrow> Profile \<Rightarrow> MatchmakingQueue option \<Rightarrow> ('w, error option) proc" where
  "configureAccumulatorDeployment r i mp_ptr =
    (case pr_yaml_Deployment r AccumulatorDeploymentYaml of
       Inl err \<Rightarrow> go_return (Some err)
     | Inr s0 \<Rightarrow>
         go_bind (deref mp_ptr) (\<lambda>mp.
         go_bind (at_container0 (\<lambda>c. add_args
             [''--nats_addr'', spec_NatsAddress (prof_Spec i),
              ''--redis_addr'', spec_RedisAddress (prof_Spec i),
              ''--queue'', mq_Name mp]
             (c\<lparr>ctr_Image := acs_Image (spec_AccumulatorService (prof_Spec i))\<rparr>))
           (s0\<lparr>dep_Meta := (dep_Meta s0)\<lparr>meta_Name := accumulatorName mp,
               meta_Namespace := prof_Namespace i\<rparr>\<rparr>)) (\<lambda>s1.
         go_bind (if 0 <s mq_MaxTickets mp
             then at_container0 (add_args [''--max_tickets'', Sprint_int64 (mq_MaxTickets mp)]) s1
             else go_return s1) (\<lambda>s2.
         go_bind (if 0 <s mq_MaxDelay mp
             then at_container0 (add_args [''--max_delay'', Sprint_int64 (mq_MaxDelay mp)]) s2
             else go_return s2) (\<lambda>s.
         create_owned r i s)))))"

definition reconcileAccumulators :: "'w ProfileReconciler \<Rightarrow> Profile \<Rightarrow> ('w, error option) proc" where
  "reconcileAccumulators r i =
    range_until (\<lambda>matchProfile.
        ensure (accumulatorIsConfigured r i matchProfile) (configureAccumulatorDeployment r i matchProfile))
      (spec_MatchmakingQueues (prof_Spec i))"

section \<open>The matchers\<close>

definition matcherIsConfigured ::
  "'w ProfileReconciler \<Rightarrow> Profile \<Rightarrow> MatchmakingQueue option \<Rightarrow> ('w, error + bool) proc" where
  "matcherIsConfigured r i mp_ptr =
    go_bind (deref mp_ptr) (\<lambda>mp.
    go_bind (call (kc_GetDeployment (pr_Client r) (prof_Namespace i, matcherName mp)))
      (\<lambda>res. go_return (was_found res)))"

definition configureMatcherDeployment ::
  "'w ProfileReconciler \<Rightarrow> Profile \<Rightarrow> MatchmakingQueue option \<Rightarrow> ('w, error option) proc" where
  "configureMatcherDeployment r i mp_ptr =
    (case pr_yaml_Deployment r MatcherDeploymentYaml of
       Inl err \<Rightarrow> go_return (Some err)
     | Inr s0 \<Rightarrow>
         go_bind (deref mp_ptr) (\<lambda>mp.
         go_bind (at_container0 (\<lambda>c. add_args
             [''--nats_addr'', spec_NatsAddress (prof_Spec i),
              ''--redis_addr'', spec_RedisAddress (prof_Spec i),
              ''--queue'', mq_Name mp,
              ''--matchmaker_target'', mq_MatchmakerTarget mp]
             (c\<lparr>ctr_Image := mas_Image (spec_MatcherService (prof_Spec i))\<rparr>))
           (s0\<lparr>dep_Meta := (dep_Meta s0)\<lparr>meta_Name := matcherName mp,
               meta_Namespace := prof_Namespace i\<rparr>\<rparr>)) (\<lambda>s.
         create_owned r i s)))"

definition reconcileMatchers :: "'w ProfileReconciler \<Rightarrow> Profile \<Rightarrow> ('w, error option) proc" where
  "reconcileMatchers r i =
    range_until (\<lambda>matchProfile.
        ensure (matcherIsConfigured r i matchProfile) (configureMatcherDeployment r i matchProfile))
      (spec_MatchmakingQueues (prof_Spec i))"

section \<open>The frontend\<close>

definition frontendServiceIsConfigured ::
  "'w ProfileReconciler \<Rightarrow> Profile \<Rightarrow> ('w, error + bool) proc" where
  "frontendServiceIsConfigured r i =
    go_bind (call (kc_GetService (pr_Client r) (prof_Namespace i, FrontendName)))
      (\<lambda>res. go_return (was_found res))"

definition configureFrontendService ::
  "'w ProfileReconciler \<Rightarrow> Profile \<Rightarrow> ('w, error option) proc" where
  "configureFrontendService r i =
    (case pr_yaml_Service r FrontendServiceYaml of
       Inl err \<Rightarrow> go_return (Some err)
     | Inr s0 \<Rightarrow>
         (let s = s0\<lparr>ksv_Meta := (ksv_Meta s0)\<lparr>meta_Namespace := prof_Namespace i\<rparr>\<rparr>
          in case pr_SetControllerReference r i (ksv_Meta s) of
               Inl err \<Rightarrow> go_return (Some err)
             | Inr mt \<Rightarrow> go_bind (call (kc_CreateService (pr_Client r) (s\<lparr>ksv_Meta := mt\<rparr>))) (\<lambda>err.
                 case err of Some e \<Rightarrow> go_return (Some e) | None \<Rightarrow> go_return None)))"

definition frontendDeploymentIsConfigured ::
  "'w ProfileReconciler \<Rightarrow> Profile \<Rightarrow> ('w, error + bool) proc" where
  "frontendDeploymentIsConfigured r i =
    go_bind (call (kc_GetDeployment (pr_Client r) (prof_Namespace i, FrontendName)))
      (\<lambda>res. go_return (was_found res))"

text \<open>The loop over the queues, which adds a flag for each.\<close>

fun queue_args :: "MatchmakingQueue option list \<Rightarrow> Deployment \<Rightarrow> ('w, Deployment) proc" where
  "queue_args [] s = go_return s"
| "queue_args (q_ptr # qs) s =
    go_bind (deref q_ptr) (\<lambda>q.
    go_bind (at_container0 (add_args [''--queues'', mq_Name q]) s) (queue_args qs))"

definition configureFrontendDeployment ::
  "'w ProfileReconciler \<Rightarrow> Profile \<Rightarrow> ('w, error option) proc" where
  "configureFrontendDeployment r i =
    (case pr_yaml_Deployment r FrontendDeploymentYaml of
       Inl err \<Rightarrow> go_return (Some err)
     | Inr s0 \<Rightarrow>
         go_bind (at_container0 (\<lambda>c. add_args
             [''--nats_addr'', spec_NatsAddress (prof_Spec i),
              ''--redis_addr'', spec_RedisAddress (prof_Spec i)]
             (c\<lparr>ctr_Image := fes_Image (spec_FrontendService (prof_Spec i))\<rparr>))
           (s0\<lparr>dep_Meta := (dep_Meta s0)\<lparr>meta_Namespace := prof_Namespace i\<rparr>\<rparr>)) (\<lambda>s1.
         go_bind (queue_args (spec_MatchmakingQueues (prof_Spec i)) s1) (\<lambda>s.
         create_owned r i s)))"

definition reconcileFrontend :: "'w ProfileReconciler \<Rightarrow> Profile \<Rightarrow> ('w, error option) proc" where
  "reconcileFrontend r i =
    go_bind (ensure (frontendServiceIsConfigured r i) (configureFrontendService r i)) (\<lambda>err.
      case err of
        Some e \<Rightarrow> go_return (Some e)
      | None \<Rightarrow> ensure (frontendDeploymentIsConfigured r i) (configureFrontendDeployment r i))"

section \<open>Reconcile\<close>

text \<open>The \<open>Result\<close> is the zero value on every path: only the error is kept.\<close>

definition Reconcile ::
  "'w ProfileReconciler \<Rightarrow> NamespacedName \<Rightarrow> ('w, error option) proc" where
  "Reconcile r req =
    go_bind (call (kc_GetProfile (pr_Client r) req)) (\<lambda>res.
      case res of
        Inl err \<Rightarrow> if IsNotFound err then go_return None else go_return (Some err)
      | Inr i \<Rightarrow>
          go_bind (reconcileFrontend r i) (\<lambda>err. case err of Some e \<Rightarrow> go_return (Some e) | None \<Rightarrow>
          go_bind (reconcileAccumulators r i) (\<lambda>err. case err of Some e \<Rightarrow> go_return (Some e) | None \<Rightarrow>
          go_bind (reconcileMatchers r i) (\<lambda>err. case err of Some e \<Rightarrow> go_return (Some e) | None \<Rightarrow>
          go_bind (reconcileDispenser r i) (\<lambda>err. case err of Some e \<Rightarrow> go_return (Some e) | None \<Rightarrow>
          go_return None)))))"

section \<open>The templates\<close>

definition template_meta :: "string \<Rightarrow> ObjectMeta" where
  "template_meta app = \<lparr>meta_Name = app, meta_Namespace = [], meta_App = app, meta_Controller = None\<rparr>"

definition frontend_deployment_yaml :: Deployment where
  "frontend_deployment_yaml =
    \<lparr>dep_Meta = template_meta ''rivalry-frontend'', dep_Replicas = 3, dep_Selector = ''rivalry-frontend'',
     dep_Containers = [\<lparr>ctr_Name = ''rivalry-frontend'', ctr_Image = ''frontend:latest'', ctr_Args = [], ctr_Ports = [50051]\<rparr>]\<rparr>"

definition accumulator_deployment_yaml :: Deployment where
  "accumulator_deployment_yaml =
    \<lparr>dep_Meta = template_meta ''rivalry-accumulator'', dep_Replicas = 1, dep_Selector = ''rivalry-accumulator'',
     dep_Containers = [\<lparr>ctr_Name = ''rivalry-accumulator'', ctr_Image = ''accumulator:latest'', ctr_Args = [], ctr_Ports = []\<rparr>]\<rparr>"

definition matcher_deployment_yaml :: Deployment where
  "matcher_deployment_yaml =
    \<lparr>dep_Meta = template_meta ''rivalry-matcher'', dep_Replicas = 3, dep_Selector = ''rivalry-matcher'',
     dep_Containers = [\<lparr>ctr_Name = ''rivalry-matcher'', ctr_Image = ''matcher:latest'', ctr_Args = [], ctr_Ports = []\<rparr>]\<rparr>"

definition dispenser_deployment_yaml :: Deployment where
  "dispenser_deployment_yaml =
    \<lparr>dep_Meta = template_meta ''rivalry-dispenser'', dep_Replicas = 3, dep_Selector = ''rivalry-dispenser'',
     dep_Containers = [\<lparr>ctr_Name = ''rivalry-dispenser'', ctr_Image = ''dispenser:latest'', ctr_Args = [], ctr_Ports = []\<rparr>]\<rparr>"

fun template_Deployment :: "template \<Rightarrow> Deployment" where
  "template_Deployment AccumulatorDeploymentYaml = accumulator_deployment_yaml"
| "template_Deployment MatcherDeploymentYaml = matcher_deployment_yaml"
| "template_Deployment DispenserDeploymentYaml = dispenser_deployment_yaml"
| "template_Deployment _ = frontend_deployment_yaml"

lemmas deployment_yaml_defs [simp] = frontend_deployment_yaml_def accumulator_deployment_yaml_def
  matcher_deployment_yaml_def dispenser_deployment_yaml_def

definition template_Service :: kube_Service where
  "template_Service =
    \<lparr>ksv_Meta = template_meta ''rivalry-frontend'', ksv_Selector = ''rivalry-frontend'',
     ksv_Ports = [50051]\<rparr>"

end
