(* ===== verification/Flags.thy ===== *)
theory Flags
  imports Commands Operator
begin

text \<open>
  The arguments of a command line and the flags they set. The flag library (cobra, pflag) is a parameter;
  the locale \<open>flag_library\<close> states what it documents of arguments of the forms \<open>--name value\<close> and
  \<open>--name\<close>, and of flags that are marked as required.
\<close>

section \<open>Numbers\<close>

text \<open>The value of a string of decimal digits, as \<open>strconv.ParseInt\<close> reads it.\<close>

definition is_digit :: "char \<Rightarrow> bool" where
  "is_digit c \<longleftrightarrow> 48 \<le> (of_char c :: nat) \<and> (of_char c :: nat) \<le> 57"

definition digits_value :: "string \<Rightarrow> nat" where
  "digits_value s = foldl (\<lambda>n c. 10 * n + (of_char c - 48)) 0 s"

text \<open>Positive numbers within 64 bits; a leading zero would mean another base.\<close>

definition decimal :: "string \<Rightarrow> int64 option" where
  "decimal s = (if s \<noteq> [] \<and> list_all is_digit s \<and> hd s \<noteq> CHR ''0'' \<and> digits_value s < 2 ^ 63
     then Some (of_nat (digits_value s)) else None)"

lemma of_char_digit: "n < 10 \<Longrightarrow> (of_char (char_of (48 + n :: nat)) :: nat) = 48 + n"
  by simp

lemma digits_value_snoc [simp]: "digits_value (s @ [c]) = 10 * digits_value s + (of_char c - 48)"
  by (simp add: digits_value_def)

lemma dec_digits_value: "digits_value (dec_digits n) = n"
proof (induction n rule: dec_digits.induct)
  case (1 n)
  then show ?case
    by (subst dec_digits.simps) (auto simp: digits_value_def)
qed

lemma dec_digits_digits: "list_all is_digit (dec_digits n) \<and> dec_digits n \<noteq> []"
proof (induction n rule: dec_digits.induct)
  case (1 n)
  have "is_digit (char_of (48 + m))" if "m < 10" for m :: nat
    using that by (simp add: is_digit_def)
  with 1 show ?case by (subst (1 2) dec_digits.simps) simp
qed

lemma char_of_48:
  assumes "m < 10" and "char_of (48 + m) = CHR ''0''"
  shows "m = (0 :: nat)"
proof -
  from assms(2) have "(of_char (char_of (48 + m)) :: nat) = of_char CHR ''0''" by simp
  with of_char_digit [OF assms(1)] show ?thesis by simp
qed

lemma dec_digits_hd: "0 < n \<Longrightarrow> hd (dec_digits n) \<noteq> CHR ''0''"
proof (induction n rule: dec_digits.induct)
  case (1 n)
  show ?case
  proof (cases "n < 10")
    case True
    with 1 char_of_48 [of n] show ?thesis by (subst dec_digits.simps) auto
  next
    case False
    with 1 dec_digits_digits [of "n div 10"] show ?thesis by (subst dec_digits.simps) simp
  qed
qed

text \<open>Printing and reading a positive number gives it back.\<close>

lemma decimal_Sprint:
  assumes "0 <s w"
  shows "decimal (Sprint_int64 w) = Some w"
proof -
  from assms have p: "0 < sint w" by (simp add: word_sless_alt)
  have "sint w < 2 ^ 63" using sint_lt [of w] by simp
  with p have b: "nat (sint w) < 2 ^ 63" by (simp add: nat_less_iff)
  from p have "of_nat (nat (sint w)) = w" by simp
  with p b dec_digits_digits [of "nat (sint w)"] dec_digits_hd [of "nat (sint w)"] show ?thesis
    by (simp add: decimal_def Sprint_int64_def dec_digits_value)
qed

section \<open>Arguments\<close>

text \<open>A flag with a value or a switch; and the values given to a name, where a switch is \<open>true\<close>.\<close>

type_synonym arg = "string \<times> string option"

fun flag_args :: "arg list \<Rightarrow> string list" where
  "flag_args [] = []"
| "flag_args ((n, Some v) # as) = (''--'' @ n) # v # flag_args as"
| "flag_args ((n, None) # as) = (''--'' @ n) # flag_args as"

lemma flag_args_append: "flag_args (as @ bs) = flag_args as @ flag_args bs"
  by (induction as rule: flag_args.induct) simp_all

definition given :: "arg list \<Rightarrow> string \<Rightarrow> string list" where
  "given as n = map (\<lambda>a. case snd a of None \<Rightarrow> ''true'' | Some v \<Rightarrow> v) (filter (\<lambda>a. fst a = n) as)"

lemma given_simps [simp]:
  "given [] n = []"
  "given ((k, Some v) # as) n = (if k = n then v # given as n else given as n)"
  "given ((k, None) # as) n = (if k = n then ''true'' # given as n else given as n)"
  "given (as @ bs) n = given as n @ given bs n"
  by (simp_all add: given_def)

text \<open>
  A value of a slice is split at its commas, with quotes: a plain value is one element. A boolean
  flag does not take the next argument.
\<close>

definition plain_value :: "string \<Rightarrow> bool" where
  "plain_value v \<longleftrightarrow> v \<noteq> [] \<and> list_all (\<lambda>c. c \<notin> set '',\"'' \<and> (of_char c :: nat) \<notin> {10, 13}) v"

fun valid_value :: "flag_kind \<Rightarrow> string option \<Rightarrow> bool" where
  "valid_value BoolFlag v = (v = None)"
| "valid_value StringFlag v = (v \<noteq> None)"
| "valid_value Int64Flag v = (v \<noteq> None \<and> decimal (the v) \<noteq> None)"
| "valid_value StringSliceFlag v = (v \<noteq> None \<and> plain_value (the v))"

lemma valid_value_switch: "valid_value k None \<longleftrightarrow> k = BoolFlag" "\<not> valid_value BoolFlag (Some v)"
  by (cases k) simp_all

definition flag_name :: "string \<Rightarrow> bool" where
  "flag_name n \<longleftrightarrow> n \<noteq> [] \<and> hd n \<noteq> CHR ''-'' \<and> CHR ''='' \<notin> set n"

definition valid_arg :: "flagset \<Rightarrow> arg \<Rightarrow> bool" where
  "valid_arg s a \<longleftrightarrow> (case map_of (fs_kinds s) (fst a) of None \<Rightarrow> False | Some k \<Rightarrow> valid_value k (snd a))"

definition valid_args :: "flagset \<Rightarrow> arg list \<Rightarrow> bool" where
  "valid_args s as \<longleftrightarrow> list_all (valid_arg s) as \<and> list_all (\<lambda>n. given as n \<noteq> []) (fs_required s)"

text \<open>
  The flags after the arguments: the last value of a flag counts, the values of a slice add up, and
  a flag that is not given has its default.
\<close>

definition parsed :: "flagset \<Rightarrow> arg list \<Rightarrow> flags" where
  "parsed s as =
    \<lparr>GetString = (\<lambda>n. if map_of (fs_kinds s) n = Some StringFlag \<and> given as n \<noteq> []
       then last (given as n) else GetString (fs_defaults s) n),
     GetBool = (\<lambda>n. if map_of (fs_kinds s) n = Some BoolFlag \<and> given as n \<noteq> []
       then True else GetBool (fs_defaults s) n),
     GetInt64 = (\<lambda>n. if map_of (fs_kinds s) n = Some Int64Flag \<and> given as n \<noteq> []
       then the (decimal (last (given as n))) else GetInt64 (fs_defaults s) n),
     GetStringSlice = (\<lambda>n. if map_of (fs_kinds s) n = Some StringSliceFlag \<and> given as n \<noteq> []
       then given as n else GetStringSlice (fs_defaults s) n)\<rparr>"

locale flag_library =
  fixes Parse :: "flagset \<Rightarrow> string list \<Rightarrow> error + flags"
  assumes parse_args: "list_all (flag_name \<circ> fst) (fs_kinds s) \<Longrightarrow> valid_args s as \<Longrightarrow>
    Parse s (flag_args as) = Inr (parsed s as)"

lemmas flagset_defs = accumulator_flagset_def matcher_flagset_def dispenser_flagset_def frontend_flagset_def
  accumulator_flags_def matcher_flags_def dispenser_flags_def frontend_flags_def no_flags_def

lemmas parse_simps = flag_name_def flag_args_append valid_args_def valid_arg_def flagset_defs parsed_def

lemma flag_names:
  "list_all (flag_name \<circ> fst) (fs_kinds accumulator_flagset)"
  "list_all (flag_name \<circ> fst) (fs_kinds matcher_flagset)"
  "list_all (flag_name \<circ> fst) (fs_kinds dispenser_flagset)"
  "list_all (flag_name \<circ> fst) (fs_kinds frontend_flagset)"
  by (simp_all add: flagset_defs flag_name_def)

section \<open>Executing a command\<close>

text \<open>\<open>Execute\<close> of a command of the library: the arguments are parsed, then the function is run.\<close>

definition execute ::
  "(flagset \<Rightarrow> string list \<Rightarrow> error + flags) \<Rightarrow> flagset \<Rightarrow> (flags \<Rightarrow> ('s, error option) proc) \<Rightarrow>
    string list \<Rightarrow> ('s, error option) proc" where
  "execute Parse s run args =
    (case Parse s args of Inl err \<Rightarrow> go_return (Some err) | Inr fl \<Rightarrow> run fl)"

text \<open>
  \<open>cobra.CheckErr(rootCmd.Execute())\<close>: the exit code of the process. Before \<open>run\<close> the library calls the
  function of \<open>OnInitialize\<close>, \<open>init\<close>, whose error ends the process.
\<close>

definition CheckErr_Execute ::
  "(flagset \<Rightarrow> string list \<Rightarrow> error + flags) \<Rightarrow> flagset \<Rightarrow> (string \<Rightarrow> error + viper) \<Rightarrow>
    (flags \<Rightarrow> ('s, error option) proc) \<Rightarrow> string list \<Rightarrow> ('s, nat) proc" where
  "CheckErr_Execute Parse s init run args =
    go_bind (execute Parse s (\<lambda>fl. case init (GetString fl ''config'') of
        Inl err \<Rightarrow> go_return (Some err) | Inr _ \<Rightarrow> run fl) args)
      (\<lambda>err. case err of Some e \<Rightarrow> go_return 1 | None \<Rightarrow> go_return 0)"

section \<open>A flag library\<close>

text \<open>An argument parser in memory, for the concrete runs.\<close>

fun read_args :: "(string \<times> flag_kind) list \<Rightarrow> string list \<Rightarrow> arg list option" where
  "read_args kinds [] = Some []"
| "read_args kinds (a # as) =
    (if take 2 a \<noteq> ''--'' then None
     else if map_of kinds (drop 2 a) = Some BoolFlag then map_option ((#) (drop 2 a, None)) (read_args kinds as)
     else (case as of [] \<Rightarrow> None | v # bs \<Rightarrow> map_option ((#) (drop 2 a, Some v)) (read_args kinds bs)))"

definition mem_Parse :: "flagset \<Rightarrow> string list \<Rightarrow> error + flags" where
  "mem_Parse s args = (case read_args (fs_kinds s) args of
      Some as \<Rightarrow> if valid_args s as then Inr (parsed s as) else Inl (ErrExt ''invalid argument'')
    | None \<Rightarrow> Inl (ErrExt ''bad flag syntax''))"

lemma read_flag_args: "list_all (valid_arg s) as \<Longrightarrow> read_args (fs_kinds s) (flag_args as) = Some as"
  by (induction as rule: flag_args.induct) (auto simp: valid_arg_def valid_value_switch split: option.splits)

interpretation mem_flags: flag_library mem_Parse
  by unfold_locales (simp add: mem_Parse_def read_flag_args valid_args_def)

end
