(* ===== verification/Clients.thy ===== *)
theory Clients
  imports Flags
begin

text \<open>
  The clients of the frontend: the command line (\<open>cmd/frontend-cli\<close>) and the extension of the load test
  tool (\<open>xk6/xk6-frontend\<close>). The gRPC connection, the JSON reader and the terminal are parameters.
  The response stream of a \<open>Match\<close> call is the list of what its \<open>Recv\<close> returns, one element per call;
  after the last element \<open>Recv\<close> waits.
\<close>

type_synonym 'w RivalryServiceClient =
  "ctx \<Rightarrow> api_MatchRequest \<Rightarrow> 'w \<Rightarrow> (error + (error + api_MatchResponse) list) \<times> 'w"

record 'w cli_host =
  cli_Dial :: "string \<Rightarrow> 'w \<Rightarrow> (error + nat) \<times> 'w"
  cli_RivalryServiceClient :: "nat \<Rightarrow> 'w RivalryServiceClient"
  cli_json_Doubles :: "bytes \<Rightarrow> error + float64 gomap"
  cli_json_Strings :: "bytes \<Rightarrow> error + string gomap"
  cli_Println :: "api_MatchResponse \<Rightarrow> 'w \<Rightarrow> 'w"
  cli_Background :: ctx

section \<open>The command line\<close>

text \<open>
  The flags that the \<open>request\<close> command knows: its own, the one of \<open>match\<close> and the one of the root.
\<close>

definition match_request_flagset :: flagset where
  "match_request_flagset =
    \<lparr>fs_kinds = [(''config'', StringFlag), (''target'', StringFlag), (''player_id'', StringFlag),
       (''match_queue'', StringFlag), (''doubles'', StringFlag), (''strings'', StringFlag),
       (''tags'', StringSliceFlag)],
     fs_required = [''target'', ''player_id''],
     fs_defaults = no_flags
       \<lparr>GetString := (\<lambda>_. [])(''match_queue'' := ''default'', ''doubles'' := ''{}'', ''strings'' := ''{}''),
        GetStringSlice := (\<lambda>_. [])(''tags'' := [''1v1''])\<rparr>\<rparr>"

text \<open>\<open>GetString\<close> and \<open>GetStringSlice\<close> with their error: a flag that is not declared, or as another kind.\<close>

definition flag_get :: "flag_kind \<Rightarrow> (string \<Rightarrow> 'a) \<Rightarrow> string \<Rightarrow> error + 'a" where
  "flag_get k get n =
    (case map_of (fs_kinds match_request_flagset) n of
       None \<Rightarrow> Inl (ErrExt (''flag accessed but not defined: '' @ n))
     | Some k' \<Rightarrow> if k' = k then Inr (get n)
         else Inl (ErrExt (''trying to get a value of another kind: '' @ n)))"

definition cli_getCli :: "'w cli_host \<Rightarrow> flags \<Rightarrow> ('w, error + 'w RivalryServiceClient) proc" where
  "cli_getCli h fl =
    (let target = GetString fl ''target'' in
     go_bind (call (cli_Dial h target)) (\<lambda>res.
     case res of
       Inl err \<Rightarrow> go_return (Inl (ErrWrap ''failed to connect to gRPC'' err))
     | Inr conn \<Rightarrow> go_return (Inr (cli_RivalryServiceClient h conn))))"

text \<open>The loop that prints the responses.\<close>

fun print_loop :: "'w cli_host \<Rightarrow> (error + api_MatchResponse) list \<Rightarrow> ('w, error option) proc" where
  "print_loop h [] = go_block"
| "print_loop h (Inl err # rs) = go_return (Some err)"
| "print_loop h (Inr resp # rs) = go_bind (call (\<lambda>w. ((), cli_Println h resp w))) (\<lambda>_. print_loop h rs)"

definition cli_request :: "float64 gomap \<Rightarrow> string gomap \<Rightarrow> string list \<Rightarrow> string \<Rightarrow> string \<Rightarrow> api_MatchRequest" where
  "cli_request DA SA tags playerID matchQueue =
    \<lparr>req_Id = [], req_PlayerId = playerID, req_PartyData = None,
     req_MatchRequestData = Some (empty_MatchRequestData\<lparr>md_Doubles := DA, md_Strings := SA, md_Tags := tags\<rparr>),
     req_MatchmakingQueue = matchQueue, req_Rtts = []\<rparr>"

definition match_request_RunE :: "'w cli_host \<Rightarrow> flags \<Rightarrow> ('w, error option) proc" where
  "match_request_RunE h fl =
    go_bind (cli_getCli h fl) (\<lambda>res.
    case res of Inl err \<Rightarrow> go_return (Some err) | Inr cli \<Rightarrow>
    case cli_json_Doubles h (GetString fl ''doubles'') of Inl err \<Rightarrow> go_return (Some err) | Inr DA \<Rightarrow>
    case cli_json_Strings h (GetString fl ''strings'') of Inl err \<Rightarrow> go_return (Some err) | Inr SA \<Rightarrow>
    case flag_get StringSliceFlag (GetStringSlice fl) ''tags'' of Inl err \<Rightarrow> go_return (Some err) | Inr tags \<Rightarrow>
    case flag_get StringFlag (GetString fl) ''player_id'' of Inl err \<Rightarrow> go_return (Some err) | Inr playerID \<Rightarrow>
    case flag_get StringFlag (GetString fl) ''match_queue'' of Inl err \<Rightarrow> go_return (Some err) | Inr matchQueue \<Rightarrow>
    go_bind (call (cli (cli_Background h) (cli_request DA SA tags playerID matchQueue))) (\<lambda>res.
    case res of Inl err \<Rightarrow> go_return (Some err) | Inr stream \<Rightarrow> print_loop h stream))"

definition frontend_cli_initConfig :: "config_lib \<Rightarrow> string \<Rightarrow> error + viper" where
  "frontend_cli_initConfig = init_config ''.frontend-cli''"

text \<open>What the loop does to a stream that ends, and that it never ends well.\<close>

lemma print_loop_end:
  "print_loop h (map Inr resps @ Inl err # rest) w = (Ret (Some err), fold (cli_Println h) resps w)"
  by (induction resps arbitrary: w) (simp_all add: go_bind_call)

lemma print_loop_waits: "print_loop h (map Inr resps) w = (Blocked, fold (cli_Println h) resps w)"
  by (induction resps arbitrary: w) (simp_all add: go_bind_call)

lemma print_loop_result:
  assumes "print_loop h rs w = (Ret e, w')"
  shows "e \<noteq> None"
  using assms by (induction h rs arbitrary: w rule: print_loop.induct) (auto simp: go_bind_call)

lemma match_request_result:
  assumes "match_request_RunE h fl w = (Ret e, w')"
  shows "e \<noteq> None"
  using assms
  by (auto simp: match_request_RunE_def cli_getCli_def go_bind_call Let_def
      split: sum.splits dest: print_loop_result elim!: go_bind_cases)

text \<open>The command that is given a target and a player only.\<close>

lemma match_request_args:
  assumes "flag_library Parse"
  shows "Parse match_request_flagset (flag_args [(''target'', Some t), (''player_id'', Some p)]) =
    Inr (parsed match_request_flagset [(''target'', Some t), (''player_id'', Some p)])"
  by (rule flag_library.parse_args [OF assms])
    (simp_all add: match_request_flagset_def flag_name_def valid_args_def valid_arg_def)

lemma match_request_parsed:
  assumes "fl = parsed match_request_flagset [(''target'', Some t), (''player_id'', Some p)]"
  shows "GetString fl ''target'' = t" "GetString fl ''player_id'' = p" "GetString fl ''match_queue'' = ''default''"
    "GetString fl ''doubles'' = ''{}''" "GetString fl ''strings'' = ''{}''" "GetStringSlice fl ''tags'' = [''1v1'']"
  by (simp_all add: assms match_request_flagset_def parsed_def no_flags_def)

lemma flag_get_declared:
  "flag_get StringSliceFlag get ''tags'' = Inr (get ''tags'')"
  "flag_get StringFlag get' ''player_id'' = Inr (get' ''player_id'')"
  "flag_get StringFlag get' ''match_queue'' = Inr (get' ''match_queue'')"
  by (simp_all add: flag_get_def match_request_flagset_def)

lemma match_request_prints:
  assumes "fl = parsed match_request_flagset [(''target'', Some t), (''player_id'', Some p)]"
    and "cli_Dial h t w = (Inr conn, w0)"
    and "cli_json_Doubles h ''{}'' = Inr fmempty" and "cli_json_Strings h ''{}'' = Inr fmempty"
    and "cli_RivalryServiceClient h conn (cli_Background h)
      (cli_request fmempty fmempty [''1v1''] p ''default'') w0 = (Inr (map Inr resps @ Inl err # rest), w1)"
  shows "match_request_RunE h fl w = (Ret (Some err), fold (cli_Println h) resps w1)"
  unfolding match_request_RunE_def cli_getCli_def flag_get_declared match_request_parsed [OF assms(1)]
  using assms(2-) by (simp add: go_bind_def call_def print_loop_end)

section \<open>The load test extension\<close>

text \<open>
  A client of a virtual user: its context and the connection that it keeps. The mutex makes the calls of
  \<open>getCli\<close> atomic.
\<close>

record 'w k6_Client =
  k6_vu :: ctx
  k6_cli :: "'w RivalryServiceClient option"

definition k6_NewClient :: "ctx \<Rightarrow> 'w k6_Client" where
  "k6_NewClient vu = \<lparr>k6_vu = vu, k6_cli = None\<rparr>"

text \<open>
  The module that k6 is given under its name: every virtual user gets a client, and the scripts see the
  client as the default export.
\<close>

record 'w k6_Exports =
  exports_Default :: "'w k6_Client"

definition RootModule_NewModuleInstance :: "ctx \<Rightarrow> 'w k6_Client" where
  "RootModule_NewModuleInstance vu = k6_NewClient vu"

definition k6_init :: "(string \<times> (ctx \<Rightarrow> 'w k6_Client)) list" where
  "k6_init = [(''k6/x/frontend'', RootModule_NewModuleInstance)]"

definition k6_Exports_of :: "'w k6_Client \<Rightarrow> 'w k6_Exports" where
  "k6_Exports_of c = \<lparr>exports_Default = c\<rparr>"

definition k6_getCli :: "'w cli_host \<Rightarrow> string \<Rightarrow> ('w \<times> 'w k6_Client, error + 'w RivalryServiceClient) proc" where
  "k6_getCli h target =
    go_bind captured (\<lambda>c.
    case k6_cli c of
      Some cli \<Rightarrow> go_return (Inr cli)
    | None \<Rightarrow>
        go_bind (no_capture (call (cli_Dial h target))) (\<lambda>res.
        case res of
          Inl err \<Rightarrow> go_return (Inl (ErrWrap ''failed to connect to gRPC'' err))
        | Inr conn \<Rightarrow>
            let cli = cli_RivalryServiceClient h conn in
            go_bind (set_captured (c\<lparr>k6_cli := Some cli\<rparr>)) (\<lambda>_. go_return (Inr cli))))"

text \<open>The loop skips the responses without a game server.\<close>

fun server_loop :: "(error + api_MatchResponse) list \<Rightarrow> ('s, error + api_GameServer) proc" where
  "server_loop [] = go_block"
| "server_loop (Inl err # rs) = go_return (Inl err)"
| "server_loop (Inr resp # rs) =
    (case mresp_GameServer resp of Some gs \<Rightarrow> go_return (Inr gs) | None \<Rightarrow> server_loop rs)"

definition k6_MatchRequest ::
  "'w cli_host \<Rightarrow> string \<Rightarrow> api_MatchRequest \<Rightarrow> ('w \<times> 'w k6_Client, error + api_GameServer) proc" where
  "k6_MatchRequest h target ticket =
    go_bind (k6_getCli h target) (\<lambda>res.
    case res of
      Inl err \<Rightarrow> go_return (Inl err)
    | Inr cli \<Rightarrow>
        go_bind captured (\<lambda>c.
        go_bind (no_capture (call (cli (k6_vu c) ticket))) (\<lambda>res.
        case res of
          Inl err \<Rightarrow> go_return (Inl err)
        | Inr stream \<Rightarrow> server_loop stream)))"

text \<open>The reference: the first thing that the stream brings and that is no empty response.\<close>

definition empty_response :: "error + api_MatchResponse \<Rightarrow> bool" where
  "empty_response r = (case r of Inl _ \<Rightarrow> False | Inr resp \<Rightarrow> mresp_GameServer resp = None)"

definition first_answer :: "(error + api_MatchResponse) list \<Rightarrow> (error + api_GameServer) go" where
  "first_answer rs = (case dropWhile empty_response rs of
      [] \<Rightarrow> Blocked
    | Inl err # _ \<Rightarrow> Ret (Inl err)
    | Inr resp # _ \<Rightarrow> Ret (Inr (the (mresp_GameServer resp))))"

lemma server_loop_first: "server_loop rs s = (first_answer rs, s)"
  by (induction rs rule: server_loop.induct) (auto simp: first_answer_def empty_response_def split: option.split)

lemma k6_cached:
  assumes "k6_cli c = Some cli"
  shows "k6_MatchRequest h target ticket (w, c) =
    (case cli (k6_vu c) ticket w of (Inl err, w') \<Rightarrow> (Ret (Inl err), (w', c))
       | (Inr rs, w') \<Rightarrow> (first_answer rs, (w', c)))"
  using assms by (simp add: k6_MatchRequest_def k6_getCli_def go_bind_def no_capture_def call_def server_loop_first
      split: prod.splits sum.splits)

lemma k6_fresh:
  assumes "k6_cli c = None" and "cli_Dial h target w = (Inr conn, w1)"
  shows "k6_MatchRequest h target ticket (w, c) =
    k6_MatchRequest h other ticket (w1, c\<lparr>k6_cli := Some (cli_RivalryServiceClient h conn)\<rparr>)"
  using assms by (simp add: k6_MatchRequest_def k6_getCli_def go_bind_def no_capture_def call_def Let_def
      split: prod.splits sum.splits)

lemma k6_not_dialled:
  assumes "k6_cli c = None" and "cli_Dial h target w = (Inl err, w1)"
  shows "k6_MatchRequest h target ticket (w, c) = (Ret (Inl (ErrWrap ''failed to connect to gRPC'' err)), (w1, c))"
  using assms by (simp add: k6_MatchRequest_def k6_getCli_def go_bind_def no_capture_def call_def)

section \<open>Properties\<close>

text \<open>C40: The command line client prints what the frontend answers and never ends without an error. Started
  with a target and a player, on a connection that works, it asks for the default queue with the tag
  1v1, prints the responses in their order, and when the stream ends, for whatever reason, returns
  the reason as its error: the regular end is reported as \<open>EOF\<close>. With any other flags, results of
  the libraries and responses, a run that returns has an error.\<close>

theorem cli_never_succeeds:
  assumes "flag_library Parse" and "cli_Dial h t w = (Inr conn, w0)"
    and "cli_json_Doubles h ''{}'' = Inr fmempty" and "cli_json_Strings h ''{}'' = Inr fmempty"
    and "cli_RivalryServiceClient h conn (cli_Background h)
      (cli_request fmempty fmempty [''1v1''] p ''default'') w0 = (Inr (map Inr resps @ Inl err # rest), w1)"
  shows "(\<exists>fl. Parse match_request_flagset (flag_args [(''target'', Some t), (''player_id'', Some p)]) = Inr fl \<and>
      match_request_RunE h fl w = (Ret (Some err), fold (cli_Println h) resps w1)) \<and>
    (\<forall>fl w e w'. match_request_RunE h fl w = (Ret e, w') \<longrightarrow> e \<noteq> None)"
proof -
  let ?fl = "parsed match_request_flagset [(''target'', Some t), (''player_id'', Some p)]"
  from match_request_prints [OF refl assms(2-)]
  have "match_request_RunE h ?fl w = (Ret (Some err), fold (cli_Println h) resps w1)" .
  with match_request_args [OF assms(1)]
  show ?thesis by (intro conjI exI [of _ ?fl] allI impI) (assumption | erule match_request_result)+
qed

text \<open>A host whose frontend answers every call in the same way; its world is what was printed.\<close>

definition sample_cli_host :: "(error + api_MatchResponse) list \<Rightarrow> api_MatchResponse list cli_host" where
  "sample_cli_host rs =
    \<lparr>cli_Dial = (\<lambda>t w. if t = [] then (Inl (ErrExt ''no target''), w) else (Inr (length t), w)),
     cli_RivalryServiceClient = (\<lambda>conn ctx req w. (Inr rs, w)),
     cli_json_Doubles = (\<lambda>b. if b = ''{}'' then Inr fmempty else Inl (ErrExt ''invalid character'')),
     cli_json_Strings = (\<lambda>b. if b = ''{}'' then Inr fmempty else Inl (ErrExt ''invalid character'')),
     cli_Println = (\<lambda>resp w. w @ [resp]), cli_Background = 0\<rparr>"

definition sample_response :: api_MatchResponse where
  "sample_response = \<lparr>mresp_GameServer = Some \<lparr>gs_GameServerIp = ''10.0.0.1'', gs_GameServerPorts = []\<rparr>\<rparr>"

theorem cli_never_succeeds_witness:
  "\<exists>fl. match_request_RunE (sample_cli_host [Inr sample_response, Inl ErrEOF]) fl [] =
    (Ret (Some ErrEOF), [sample_response])"
  using cli_never_succeeds [OF mem_flags.flag_library_axioms, of "sample_cli_host [Inr sample_response, Inl ErrEOF]"
      "'':50051''" "[]" 6 "[]" "''p1''" "[sample_response]" ErrEOF "[]" "[]"]
  by (auto simp: sample_cli_host_def)

text \<open>The load test client returns the first answer. On a connection that works, a call returns the game
  server of the first response that has one, or the error that comes before it, and waits when the
  stream brings neither; this is the reference \<open>first_answer\<close>. A client dials on its first call only:
  from then on it asks the frontend of the first call, whatever target it is given.\<close>

theorem k6_match:
  assumes "cli_Dial h target w = (Inr conn, w1)"
    and "cli_RivalryServiceClient h conn vu ticket w1 = (Inr rs, w2)"
  shows "k6_MatchRequest h target ticket (w, k6_NewClient vu) =
      (first_answer rs, (w2, \<lparr>k6_vu = vu, k6_cli = Some (cli_RivalryServiceClient h conn)\<rparr>)) \<and>
    (\<forall>target2 ticket2 v. k6_MatchRequest h target2 ticket2 (v, \<lparr>k6_vu = vu, k6_cli = Some (cli_RivalryServiceClient h conn)\<rparr>) =
      (case cli_RivalryServiceClient h conn vu ticket2 v of
         (Inl err, v') \<Rightarrow> (Ret (Inl err), (v', \<lparr>k6_vu = vu, k6_cli = Some (cli_RivalryServiceClient h conn)\<rparr>))
       | (Inr rs2, v') \<Rightarrow> (first_answer rs2, (v', \<lparr>k6_vu = vu, k6_cli = Some (cli_RivalryServiceClient h conn)\<rparr>))))"
proof -
  have "k6_MatchRequest h target ticket (w, k6_NewClient vu) =
      k6_MatchRequest h target ticket (w1, \<lparr>k6_vu = vu, k6_cli = Some (cli_RivalryServiceClient h conn)\<rparr>)"
    using k6_fresh [of "k6_NewClient vu" h target w conn w1 ticket target] assms(1)
    by (simp add: k6_NewClient_def)
  then show ?thesis using assms(2) by (simp add: k6_cached)
qed

theorem k6_match_witness:
  "fst (k6_MatchRequest (sample_cli_host [Inr \<lparr>mresp_GameServer = None\<rparr>, Inr sample_response]) ''a:1''
      (cli_request fmempty fmempty [] ''p1'' ''default'') ([], k6_NewClient 3)) =
    Ret (Inr \<lparr>gs_GameServerIp = ''10.0.0.1'', gs_GameServerPorts = []\<rparr>)"
  using k6_match [of "sample_cli_host [Inr \<lparr>mresp_GameServer = None\<rparr>, Inr sample_response]" "''a:1''" "[]" 3 "[]" 3
      "cli_request fmempty fmempty [] ''p1'' ''default''" "[Inr \<lparr>mresp_GameServer = None\<rparr>, Inr sample_response]" "[]"]
  by (simp add: sample_cli_host_def sample_response_def first_answer_def empty_response_def)

end
