(* ===== verification/Stubs.thy ===== *)
theory Stubs
  imports Clients Pairs Platform
begin

text \<open>
  The gRPC stubs (\<open>pkg/pb/api/v1/external_grpc.pb.go\<close>, \<open>match_logic_grpc.pb.go\<close>): what stands between the
  clients of the frontend and of the custom logic and the services that answer them. A connection and the
  streams of a call are parameters: what gRPC does with the messages that a stub passes to it. \<open>'q\<close> are
  the requests and \<open>'r\<close> the responses of the only method of a service.
\<close>

section \<open>Parameters\<close>

text \<open>
  As everywhere in the development, a stream of responses is the list of what its \<open>RecvMsg\<close> returns, one
  element per call.
\<close>

record ('w, 'q, 'r) ClientStream =
  cs_SendMsg :: "'q \<Rightarrow> 'w \<Rightarrow> error option \<times> 'w"
  cs_CloseSend :: "'w \<Rightarrow> error option \<times> 'w"
  cs_RecvMsg :: "'w \<Rightarrow> (error + 'r) list \<times> 'w"

record ('w, 'q, 'r) ClientConn =
  cc_NewStream :: "ctx \<Rightarrow> string \<Rightarrow> 'w \<Rightarrow> (error + ('w, 'q, 'r) ClientStream) \<times> 'w"
  cc_Invoke :: "ctx \<Rightarrow> string \<Rightarrow> 'q \<Rightarrow> 'w \<Rightarrow> (error + 'r) \<times> 'w"

record ('w, 'q, 'r) ServerStream =
  ss_Context :: ctx
  ss_RecvMsg :: "'w \<Rightarrow> (error + 'q) \<times> 'w"
  ss_SendMsg :: "'r \<Rightarrow> 'w \<Rightarrow> error option \<times> 'w"

type_synonym ('w, 'q, 'r) StreamHandler = "('w, 'q, 'r) ServerStream \<Rightarrow> ('w, error option) proc"

text \<open>A unary handler is given the decoder of the request and the interceptor of the server, if it has one.\<close>

type_synonym ('w, 'q, 'r) UnaryMethod = "ctx \<Rightarrow> 'q \<Rightarrow> 'w \<Rightarrow> (error + 'r) \<times> 'w"

type_synonym ('w, 'q, 'r) interceptor =
  "ctx \<Rightarrow> 'q \<Rightarrow> string \<Rightarrow> ('w, 'q, 'r) UnaryMethod \<Rightarrow> 'w \<Rightarrow> (error + 'r) \<times> 'w"

type_synonym ('w, 'q, 'r) UnaryHandler =
  "ctx \<Rightarrow> ('w \<Rightarrow> (error + 'q) \<times> 'w) \<Rightarrow> ('w, 'q, 'r) interceptor option \<Rightarrow> 'w \<Rightarrow> (error + 'r) \<times> 'w"

record ('m, 's) ServiceDesc =
  sd_ServiceName :: string
  sd_Methods :: "(string \<times> 'm) list"
  sd_Streams :: "(string \<times> 's) list"

section \<open>The clients\<close>

text \<open>
  The body of a client method whose response is a stream: it opens the stream, sends the request and closes
  its direction; the error of each step is returned.
\<close>

definition open_call ::
  "('w, 'q, 'r) ClientConn \<Rightarrow> string \<Rightarrow> ctx \<Rightarrow> 'q \<Rightarrow> 'w \<Rightarrow> (error + ('w, 'q, 'r) ClientStream) \<times> 'w" where
  "open_call cc method ctx req w =
    (case cc_NewStream cc ctx method w of
       (Inl err, w1) \<Rightarrow> (Inl err, w1)
     | (Inr x, w1) \<Rightarrow>
         (case cs_SendMsg x req w1 of
            (Some err, w2) \<Rightarrow> (Inl err, w2)
          | (None, w2) \<Rightarrow>
              (case cs_CloseSend x w2 of
                 (Some err, w3) \<Rightarrow> (Inl err, w3)
               | (None, w3) \<Rightarrow> (Inr x, w3))))"

text \<open>\<open>Recv\<close> returns the error or the message that was received.\<close>

definition rivalryServiceMatchClient_Recv :: "error + api_MatchResponse \<Rightarrow> error + api_MatchResponse" where
  "rivalryServiceMatchClient_Recv r = (case r of Inl err \<Rightarrow> Inl err | Inr m \<Rightarrow> Inr m)"

definition rivalryServiceClient_Match ::
  "('w, api_MatchRequest, api_MatchResponse) ClientConn \<Rightarrow> 'w RivalryServiceClient" where
  "rivalryServiceClient_Match cc ctx req w =
    (case open_call cc ''/api.v1.RivalryService/Match'' ctx req w of
       (Inl err, w') \<Rightarrow> (Inl err, w')
     | (Inr x, w') \<Rightarrow>
         (case cs_RecvMsg x w' of (rs, w'') \<Rightarrow> (Inr (map rivalryServiceMatchClient_Recv rs), w'')))"

definition matchMakerServiceMakeMatchesClient_Recv :: "error + api_MakeMatchesResponse \<Rightarrow> recv" where
  "matchMakerServiceMakeMatchesClient_Recv r = (case r of Inl err \<Rightarrow> RecvError err | Inr m \<Rightarrow> RecvResponse m)"

definition matchMakerServiceClient_MakeMatches ::
  "('w, api_MakeMatchesRequest, api_MakeMatchesResponse) ClientConn \<Rightarrow> 'w MatchMakerServiceClient" where
  "matchMakerServiceClient_MakeMatches cc ctx req w =
    (case open_call cc ''/api.v1.MatchMakerService/MakeMatches'' ctx req w of
       (Inl err, w') \<Rightarrow> (Inl err, w')
     | (Inr x, w') \<Rightarrow>
         (case cs_RecvMsg x w' of (rs, w'') \<Rightarrow> (Inr (map matchMakerServiceMakeMatchesClient_Recv rs), w'')))"

definition assignmentServiceClient_MakeAssignment ::
  "('w, api_MakeAssignmentRequest, api_MakeAssignmentResponse) ClientConn \<Rightarrow> 'w AssignmentServiceClient" where
  "assignmentServiceClient_MakeAssignment cc ctx req w =
    (case cc_Invoke cc ctx ''/api.v1.AssignmentService/MakeAssignment'' req w of
       (Inl err, w') \<Rightarrow> (Inl err, w')
     | (Inr out, w') \<Rightarrow> (Inr out, w'))"

text \<open>A client is a struct with the connection; it is represented by its only method.\<close>

definition NewRivalryServiceClient ::
  "('w, api_MatchRequest, api_MatchResponse) ClientConn \<Rightarrow> 'w RivalryServiceClient" where
  "NewRivalryServiceClient cc = rivalryServiceClient_Match cc"

definition NewMatchMakerServiceClient ::
  "('w, api_MakeMatchesRequest, api_MakeMatchesResponse) ClientConn \<Rightarrow> 'w MatchMakerServiceClient" where
  "NewMatchMakerServiceClient cc = matchMakerServiceClient_MakeMatches cc"

definition NewAssignmentServiceClient ::
  "('w, api_MakeAssignmentRequest, api_MakeAssignmentResponse) ClientConn \<Rightarrow> 'w AssignmentServiceClient" where
  "NewAssignmentServiceClient cc = assignmentServiceClient_MakeAssignment cc"

lemma recv_id [simp]: "map rivalryServiceMatchClient_Recv rs = rs"
  by (induction rs) (simp_all add: rivalryServiceMatchClient_Recv_def split: sum.split)

section \<open>The servers\<close>

definition Unimplemented :: string where
  "Unimplemented = ''Unimplemented''"

definition UnimplementedRivalryServiceServer_Match ::
  "api_MatchRequest \<Rightarrow> 'w MatchServer \<Rightarrow> ('w, error option) proc" where
  "UnimplementedRivalryServiceServer_Match req svr =
    go_return (Some (ErrStatus Unimplemented ''method Match not implemented''))"

definition UnimplementedMatchMakerServiceServer_MakeMatches ::
  "api_MakeMatchesRequest \<Rightarrow> (api_MakeMatchesResponse \<Rightarrow> 'w \<Rightarrow> error option \<times> 'w) \<Rightarrow> ('w, error option) proc" where
  "UnimplementedMatchMakerServiceServer_MakeMatches req send =
    go_return (Some (ErrStatus Unimplemented ''method MakeMatches not implemented''))"

definition UnimplementedAssignmentServiceServer_MakeAssignment ::
  "('w, api_MakeAssignmentRequest, api_MakeAssignmentResponse) UnaryMethod" where
  "UnimplementedAssignmentServiceServer_MakeAssignment ctx req w =
    (Inl (ErrStatus Unimplemented ''method MakeAssignment not implemented''), w)"

text \<open>The stream of a \<open>Match\<close> call as the frontend sees it.\<close>

definition rivalryServiceMatchServer ::
  "('w, api_MatchRequest, api_MatchResponse) ServerStream \<Rightarrow> 'w MatchServer" where
  "rivalryServiceMatchServer stream = \<lparr>svr_Context = ss_Context stream, svr_Send = ss_SendMsg stream\<rparr>"

definition RivalryService_Match_Handler ::
  "(api_MatchRequest \<Rightarrow> 'w MatchServer \<Rightarrow> ('w, error option) proc) \<Rightarrow>
    ('w, api_MatchRequest, api_MatchResponse) StreamHandler" where
  "RivalryService_Match_Handler srv stream =
    go_bind (call (ss_RecvMsg stream)) (\<lambda>res.
    case res of
      Inl err \<Rightarrow> go_return (Some err)
    | Inr m \<Rightarrow> srv m (rivalryServiceMatchServer stream))"

text \<open>Of the stream of a \<open>MakeMatches\<close> call a matchmaker is given its \<open>Send\<close>.\<close>

definition MatchMakerService_MakeMatches_Handler ::
  "(api_MakeMatchesRequest \<Rightarrow> (api_MakeMatchesResponse \<Rightarrow> 'w \<Rightarrow> error option \<times> 'w) \<Rightarrow> ('w, error option) proc) \<Rightarrow>
    ('w, api_MakeMatchesRequest, api_MakeMatchesResponse) StreamHandler" where
  "MatchMakerService_MakeMatches_Handler srv stream =
    go_bind (call (ss_RecvMsg stream)) (\<lambda>res.
    case res of
      Inl err \<Rightarrow> go_return (Some err)
    | Inr m \<Rightarrow> srv m (ss_SendMsg stream))"

definition AssignmentService_MakeAssignment_Handler ::
  "('w, api_MakeAssignmentRequest, api_MakeAssignmentResponse) UnaryMethod \<Rightarrow>
    ('w, api_MakeAssignmentRequest, api_MakeAssignmentResponse) UnaryHandler" where
  "AssignmentService_MakeAssignment_Handler srv ctx dec interceptor w =
    (case dec w of
       (Inl err, w') \<Rightarrow> (Inl err, w')
     | (Inr m, w') \<Rightarrow>
         (case interceptor of
            None \<Rightarrow> srv ctx m w'
          | Some i \<Rightarrow> i ctx m ''/api.v1.AssignmentService/MakeAssignment'' srv w'))"

text \<open>The descriptions with which the services are registered.\<close>

definition RivalryService_ServiceDesc ::
  "(api_MatchRequest \<Rightarrow> 'w MatchServer \<Rightarrow> ('w, error option) proc) \<Rightarrow>
    (unit, ('w, api_MatchRequest, api_MatchResponse) StreamHandler) ServiceDesc" where
  "RivalryService_ServiceDesc srv =
    \<lparr>sd_ServiceName = ''api.v1.RivalryService'', sd_Methods = [],
     sd_Streams = [(''Match'', RivalryService_Match_Handler srv)]\<rparr>"

definition MatchMakerService_ServiceDesc ::
  "(api_MakeMatchesRequest \<Rightarrow> (api_MakeMatchesResponse \<Rightarrow> 'w \<Rightarrow> error option \<times> 'w) \<Rightarrow> ('w, error option) proc) \<Rightarrow>
    (unit, ('w, api_MakeMatchesRequest, api_MakeMatchesResponse) StreamHandler) ServiceDesc" where
  "MatchMakerService_ServiceDesc srv =
    \<lparr>sd_ServiceName = ''api.v1.MatchMakerService'', sd_Methods = [],
     sd_Streams = [(''MakeMatches'', MatchMakerService_MakeMatches_Handler srv)]\<rparr>"

definition AssignmentService_ServiceDesc ::
  "('w, api_MakeAssignmentRequest, api_MakeAssignmentResponse) UnaryMethod \<Rightarrow>
    (('w, api_MakeAssignmentRequest, api_MakeAssignmentResponse) UnaryHandler, unit) ServiceDesc" where
  "AssignmentService_ServiceDesc srv =
    \<lparr>sd_ServiceName = ''api.v1.AssignmentService'',
     sd_Methods = [(''MakeAssignment'', AssignmentService_MakeAssignment_Handler srv)], sd_Streams = []\<rparr>"

text \<open>The registration of a service with a server: \<open>register\<close> is what the server does with a description.\<close>

definition RegisterRivalryServiceServer ::
  "((unit, ('w, api_MatchRequest, api_MatchResponse) StreamHandler) ServiceDesc \<Rightarrow> 's) \<Rightarrow>
    (api_MatchRequest \<Rightarrow> 'w MatchServer \<Rightarrow> ('w, error option) proc) \<Rightarrow> 's" where
  "RegisterRivalryServiceServer register srv = register (RivalryService_ServiceDesc srv)"

definition RegisterMatchMakerServiceServer ::
  "((unit, ('w, api_MakeMatchesRequest, api_MakeMatchesResponse) StreamHandler) ServiceDesc \<Rightarrow> 's) \<Rightarrow>
    (api_MakeMatchesRequest \<Rightarrow> (api_MakeMatchesResponse \<Rightarrow> 'w \<Rightarrow> error option \<times> 'w) \<Rightarrow> ('w, error option) proc) \<Rightarrow> 's" where
  "RegisterMatchMakerServiceServer register srv = register (MatchMakerService_ServiceDesc srv)"

definition RegisterAssignmentServiceServer ::
  "((('w, api_MakeAssignmentRequest, api_MakeAssignmentResponse) UnaryHandler, unit) ServiceDesc \<Rightarrow> 's) \<Rightarrow>
    ('w, api_MakeAssignmentRequest, api_MakeAssignmentResponse) UnaryMethod \<Rightarrow> 's" where
  "RegisterAssignmentServiceServer register srv = register (AssignmentService_ServiceDesc srv)"

end
