(* ===== verification/Stubs_Laws.thy ===== *)
theory Stubs_Laws
  imports Stubs
begin

text \<open>
  What the stubs make of a connection that works: a call of the client is a run of the method of the
  service that is registered under its name, with the request of the client, and the client receives what
  the service sends, in its order, and how it ended. With these laws the clients that the rest of the
  development assumes of the example services are the stubs over a connection to the services.
\<close>

section \<open>What the code relies on\<close>

text \<open>A server looks a call up by the name of its service and of its method.\<close>

definition stream_handler :: "('m, 's) ServiceDesc \<Rightarrow> string \<Rightarrow> 's option" where
  "stream_handler desc = map_of (map (\<lambda>(n, h). (''/'' @ sd_ServiceName desc @ ''/'' @ n, h)) (sd_Streams desc))"

definition unary_handler :: "('m, 's) ServiceDesc \<Rightarrow> string \<Rightarrow> 'm option" where
  "unary_handler desc = map_of (map (\<lambda>(n, h). (''/'' @ sd_ServiceName desc @ ''/'' @ n, h)) (sd_Methods desc))"

text \<open>
  The side of the server: the stream of a call with a given request, and its state \<open>'s\<close>, in which the call
  starts and which it leaves to the client, with the responses that have been sent. The status is what the
  error of a service is for the client.
\<close>

record ('w, 's, 'q, 'r) transport =
  tr_stream :: "ctx \<Rightarrow> 'q \<Rightarrow> ('s, 'q, 'r) ServerStream"
  tr_enter :: "'w \<Rightarrow> 's"
  tr_leave :: "'s \<Rightarrow> 'w"
  tr_sent :: "'s \<Rightarrow> 'r list"
  tr_status :: "error \<Rightarrow> error"

text \<open>
  What a client receives of a call: the responses and then the end, as \<open>EOF\<close>, as the status of the error,
  or as the loss of the connection when the server panics; a service that goes on waiting has no end.
\<close>

definition client_sees :: "(error \<Rightarrow> error) \<Rightarrow> 'r list \<Rightarrow> error option go \<Rightarrow> (error + 'r) list" where
  "client_sees status outs r = map Inr outs @ (case r of
      Ret None \<Rightarrow> [Inl ErrEOF]
    | Ret (Some err) \<Rightarrow> [Inl (status err)]
    | Panic p \<Rightarrow> [Inl (ErrStatus ''Unavailable'' ''EOF'')]
    | Blocked \<Rightarrow> [])"

definition served ::
  "('w, 's, 'q, 'r) transport \<Rightarrow> ('s, 'q, 'r) StreamHandler \<Rightarrow> ctx \<Rightarrow> 'q \<Rightarrow> 'w \<Rightarrow> (error + 'r) list \<times> 'w" where
  "served tr h ctx req w =
    (let s0 = tr_enter tr w in
     case h (tr_stream tr ctx req) s0 of
       (r, s) \<Rightarrow> (client_sees (tr_status tr) (drop (length (tr_sent tr s0)) (tr_sent tr s)) r, tr_leave tr s))"

locale grpc_stream_server =
  fixes cc :: "('w, 'q, 'r) ClientConn" and desc :: "('m, ('s, 'q, 'r) StreamHandler) ServiceDesc"
    and tr :: "('w, 's, 'q, 'r) transport"
  assumes server_receives: "ss_RecvMsg (tr_stream tr ctx req) s = (Inr req, s)"
    and delivers: "stream_handler desc method = Some h \<Longrightarrow>
      \<exists>x w1 w2 w3. cc_NewStream cc ctx method w = (Inr x, w1) \<and> cs_SendMsg x req w1 = (None, w2) \<and>
        cs_CloseSend x w2 = (None, w3) \<and> cs_RecvMsg x w3 = served tr h ctx req w"
begin

lemma open_call_served:
  assumes "stream_handler desc method = Some h"
  shows "\<exists>x w'. open_call cc method ctx req w = (Inr x, w') \<and> cs_RecvMsg x w' = served tr h ctx req w"
proof -
  from delivers [OF assms] obtain x w1 w2 w3 where "cc_NewStream cc ctx method w = (Inr x, w1)"
    "cs_SendMsg x req w1 = (None, w2)" "cs_CloseSend x w2 = (None, w3)" "cs_RecvMsg x w3 = served tr h ctx req w"
    by blast
  then show ?thesis by (intro exI [of _ x] exI [of _ w3]) (simp add: open_call_def)
qed

end

locale grpc_unary_server =
  fixes cc :: "('w, 'q, 'r) ClientConn" and desc :: "(('w, 'q, 'r) UnaryHandler, 's) ServiceDesc"
    and status :: "error \<Rightarrow> error"
  assumes invokes: "unary_handler desc method = Some h \<Longrightarrow>
    cc_Invoke cc ctx method req w = (case h ctx (\<lambda>w. (Inr req, w)) None w of
      (Inl err, w') \<Rightarrow> (Inl (status err), w') | (Inr resp, w') \<Rightarrow> (Inr resp, w'))"
begin

lemma Invoke_ok:
  assumes "unary_handler desc method = Some h" and "h ctx (\<lambda>w. (Inr req, w)) None w = (Inr resp, w')"
  shows "cc_Invoke cc ctx method req w = (Inr resp, w')"
  using invokes [OF assms(1)] assms(2) by simp

end

section \<open>The names of the methods\<close>

text \<open>The names that the clients call are the ones under which the handlers are registered.\<close>

lemma registered:
  "stream_handler (RivalryService_ServiceDesc srv) ''/api.v1.RivalryService/Match'' = Some (RivalryService_Match_Handler srv)"
  "stream_handler (MatchMakerService_ServiceDesc srv') ''/api.v1.MatchMakerService/MakeMatches'' =
     Some (MatchMakerService_MakeMatches_Handler srv')"
  "unary_handler (AssignmentService_ServiceDesc srv'') ''/api.v1.AssignmentService/MakeAssignment'' =
     Some (AssignmentService_MakeAssignment_Handler srv'')"
  by (simp_all add: stream_handler_def unary_handler_def RivalryService_ServiceDesc_def MatchMakerService_ServiceDesc_def
      AssignmentService_ServiceDesc_def)

section \<open>The calls\<close>

text \<open>Whatever fails while a call is opened is the error of the call.\<close>

lemma open_call_fails:
  assumes "open_call cc method ctx req w = (Inl err, w')"
  shows "cc_NewStream cc ctx method w = (Inl err, w') \<or>
    (\<exists>x w1. cc_NewStream cc ctx method w = (Inr x, w1) \<and> (cs_SendMsg x req w1 = (Some err, w') \<or>
       (\<exists>w2. cs_SendMsg x req w1 = (None, w2) \<and> cs_CloseSend x w2 = (Some err, w'))))"
  using assms by (auto simp: open_call_def split: prod.splits sum.splits option.splits)

lemma Match_served_by:
  assumes "grpc_stream_server cc (RivalryService_ServiceDesc srv) tr"
  shows "rivalryServiceClient_Match cc ctx req w =
    (case served tr (\<lambda>stream. srv req (rivalryServiceMatchServer stream)) ctx req w of (rs, w') \<Rightarrow> (Inr rs, w'))"
proof -
  from grpc_stream_server.open_call_served [OF assms registered(1)] obtain x w' where
    x: "open_call cc ''/api.v1.RivalryService/Match'' ctx req w = (Inr x, w')"
      "cs_RecvMsg x w' = served tr (RivalryService_Match_Handler srv) ctx req w" by blast
  have "served tr (RivalryService_Match_Handler srv) ctx req w =
      served tr (\<lambda>stream. srv req (rivalryServiceMatchServer stream)) ctx req w"
    by (simp add: served_def RivalryService_Match_Handler_def go_bind_call
        grpc_stream_server.server_receives [OF assms])
  with x show ?thesis by (simp add: rivalryServiceClient_Match_def)
qed

lemma MakeMatches_served_by:
  assumes "grpc_stream_server cc (MatchMakerService_ServiceDesc srv) tr"
  shows "matchMakerServiceClient_MakeMatches cc ctx req w =
    (case served tr (\<lambda>stream. srv req (ss_SendMsg stream)) ctx req w of
       (rs, w') \<Rightarrow> (Inr (map matchMakerServiceMakeMatchesClient_Recv rs), w'))"
proof -
  from grpc_stream_server.open_call_served [OF assms registered(2)] obtain x w' where
    x: "open_call cc ''/api.v1.MatchMakerService/MakeMatches'' ctx req w = (Inr x, w')"
      "cs_RecvMsg x w' = served tr (MatchMakerService_MakeMatches_Handler srv) ctx req w" by blast
  have "served tr (MatchMakerService_MakeMatches_Handler srv) ctx req w =
      served tr (\<lambda>stream. srv req (ss_SendMsg stream)) ctx req w"
    by (simp add: served_def MatchMakerService_MakeMatches_Handler_def go_bind_call
        grpc_stream_server.server_receives [OF assms])
  with x show ?thesis by (simp add: matchMakerServiceClient_MakeMatches_def)
qed

text \<open>A service without the method: the client receives that it is not implemented.\<close>

lemma unimplemented_Match:
  assumes "grpc_stream_server cc (RivalryService_ServiceDesc UnimplementedRivalryServiceServer_Match) tr"
  shows "rivalryServiceClient_Match cc ctx req w =
    (Inr [Inl (tr_status tr (ErrStatus Unimplemented ''method Match not implemented''))], tr_leave tr (tr_enter tr w))"
  by (simp add: Match_served_by [OF assms] served_def UnimplementedRivalryServiceServer_Match_def client_sees_def Let_def)

section \<open>The example services\<close>

text \<open>The server side of a call on which nothing is lost: beside the world it keeps what was sent.\<close>

definition direct :: "(error \<Rightarrow> error) \<Rightarrow> ('w, 'w \<times> 'r list, 'q, 'r) transport" where
  "direct status =
    \<lparr>tr_stream = (\<lambda>ctx req. \<lparr>ss_Context = ctx, ss_RecvMsg = (\<lambda>s. (Inr req, s)),
       ss_SendMsg = (\<lambda>resp (w, outs). (None, (w, outs @ [resp])))\<rparr>),
     tr_enter = (\<lambda>w. (w, [])), tr_leave = fst, tr_sent = snd, tr_status = status\<rparr>"

text \<open>The matchmaker does the same whatever its stream keeps of a response.\<close>

lemma pairs_loop_sent:
  "pairs_loop rt (\<lambda>resp (w, outs). (None, (w, outs @ [f resp]))) i subs st (w, map f outs) =
    (case pairs_loop rt (\<lambda>resp (w, outs). (None, (w, outs @ [resp]))) i subs st (w, outs) of
       (r, (w', outs')) \<Rightarrow> (r, (w', map f outs')))"
proof (induction subs arbitrary: i st w outs)
  case (Cons sub subs)
  show ?case
  proof (cases "sub_Members sub")
    case Nil
    then show ?thesis by (simp add: index0_def)
  next
    case member: (Cons p ps)
    obtain mid w1 where x: "rt_xid rt w = (mid, w1)" by force
    have "map f outs @ [f resp] = map f (outs @ [resp])" for resp by simp
    with member x Cons.IH show ?thesis
      by (simp add: index0_def Let_def go_bind_def no_capture_def call_def del: map_append)
  qed
qed simp

lemma MakeMatches_pairs:
  assumes "grpc_stream_server cc (MatchMakerService_ServiceDesc (NewPairsMatchmaker rt)) (direct status)"
  shows "matchMakerServiceClient_MakeMatches cc = pairs_client rt"
proof (intro ext)
  fix ctx and req :: api_MakeMatchesRequest and w
  have recv: "matchMakerServiceMakeMatchesClient_Recv \<circ> Inr = RecvResponse"
    by (simp add: fun_eq_iff matchMakerServiceMakeMatchesClient_Recv_def)
  obtain r w' outs where run: "pairs_loop rt (\<lambda>resp (w, outs). (None, (w, outs @ [resp]))) 0 (mmreq_Submissions req)
      pairs_state0 (w, []) = (r, (w', outs))" by (metis prod.exhaust)
  from pairs_loop_sent [of rt RecvResponse 0 "mmreq_Submissions req" pairs_state0 w "[]"] run
  have run': "pairs_loop rt (\<lambda>resp (w, outs). (None, (w, outs @ [RecvResponse resp]))) 0 (mmreq_Submissions req)
      pairs_state0 (w, []) = (r, (w', map RecvResponse outs))" by simp
  show "matchMakerServiceClient_MakeMatches cc ctx req w = pairs_client rt ctx req w"
    by (cases r) (simp_all add: MakeMatches_served_by [OF assms] served_def direct_def NewPairsMatchmaker_def PairsMatchmaker_MakeMatches_def
        pairs_client_def go_bind_def run run' client_sees_def recv matchMakerServiceMakeMatchesClient_Recv_def)
qed

lemma MakeAssignment_fake:
  assumes "grpc_unary_server cc (AssignmentService_ServiceDesc (FakeServer_MakeAssignment rand_Intn)) status"
  shows "assignmentServiceClient_MakeAssignment cc = FakeServer_MakeAssignment rand_Intn"
proof (intro ext)
  fix ctx and req :: api_MakeAssignmentRequest and w
  obtain resp w' where f: "FakeServer_MakeAssignment rand_Intn ctx req w = (Inr resp, w')"
    by (cases "rand_Intn (65535 - 1024) w") (simp add: FakeServer_MakeAssignment_def)
  have "cc_Invoke cc ctx ''/api.v1.AssignmentService/MakeAssignment'' req w = (Inr resp, w')"
    by (rule grpc_unary_server.Invoke_ok [OF assms registered(3)])
      (simp add: AssignmentService_MakeAssignment_Handler_def f)
  then show "assignmentServiceClient_MakeAssignment cc ctx req w = FakeServer_MakeAssignment rand_Intn ctx req w"
    by (simp add: assignmentServiceClient_MakeAssignment_def f)
qed

section \<open>Connections in memory\<close>

text \<open>
  A connection of the platform: what a client sends is put on the calls of the world, and when the client
  reads, the call is taken off and the handler runs. \<open>put\<close> and \<open>get\<close> are for the kind of the request.
\<close>

definition mem_conn ::
  "('q \<Rightarrow> in_flight) \<Rightarrow> (in_flight \<Rightarrow> 'q option) \<Rightarrow> ('m, ('s, 'q, 'r) StreamHandler) ServiceDesc \<Rightarrow>
    (world, 's, 'q, 'r) transport \<Rightarrow> (world, 'q, 'r) ClientConn" where
  "mem_conn put get desc tr =
    \<lparr>cc_NewStream = (\<lambda>ctx method w. case stream_handler desc method of
         None \<Rightarrow> (Inl (ErrStatus Unimplemented ''unknown method''), w)
       | Some h \<Rightarrow> (Inr
           \<lparr>cs_SendMsg = (\<lambda>req w. (None, w\<lparr>w_calls := put req # w_calls w\<rparr>)),
            cs_CloseSend = (\<lambda>w. (None, w)),
            cs_RecvMsg = (\<lambda>w. case w_calls w of
                [] \<Rightarrow> ([], w)
              | c # cs \<Rightarrow> (case get c of None \<Rightarrow> ([], w) | Some req \<Rightarrow> served tr h ctx req (w\<lparr>w_calls := cs\<rparr>)))\<rparr>, w)),
     cc_Invoke = (\<lambda>ctx method req w. (Inl (ErrStatus Unimplemented ''unknown method''), w))\<rparr>"

lemma mem_conn_serves:
  assumes "\<And>req. get (put req) = Some req"
    and "\<And>ctx req s. ss_RecvMsg (tr_stream tr ctx req) s = (Inr req, s)"
  shows "grpc_stream_server (mem_conn put get desc tr) desc tr"
  by unfold_locales (simp_all add: mem_conn_def assms)

definition get_MakeMatches :: "in_flight \<Rightarrow> api_MakeMatchesRequest option" where
  "get_MakeMatches c = (case c of MakeMatchesCall req \<Rightarrow> Some req | _ \<Rightarrow> None)"

definition get_Match :: "in_flight \<Rightarrow> api_MatchRequest option" where
  "get_Match c = (case c of MatchCall req \<Rightarrow> Some req | _ \<Rightarrow> None)"

interpretation mem_matchmaker: grpc_stream_server
  "mem_conn MakeMatchesCall get_MakeMatches (MatchMakerService_ServiceDesc srv) (direct status)"
  "MatchMakerService_ServiceDesc srv" "direct status"
  by (rule mem_conn_serves) (simp_all add: get_MakeMatches_def direct_def)

definition mem_unary_conn :: "(('w, 'q, 'r) UnaryHandler, 's) ServiceDesc \<Rightarrow> ('w, 'q, 'r) ClientConn" where
  "mem_unary_conn desc =
    \<lparr>cc_NewStream = (\<lambda>ctx method w. (Inl (ErrStatus Unimplemented ''unknown method''), w)),
     cc_Invoke = (\<lambda>ctx method req w. case unary_handler desc method of
         None \<Rightarrow> (Inl (ErrStatus Unimplemented ''unknown method''), w)
       | Some h \<Rightarrow> h ctx (\<lambda>w. (Inr req, w)) None w)\<rparr>"

interpretation mem_assignment: grpc_unary_server "mem_unary_conn (AssignmentService_ServiceDesc srv)"
  "AssignmentService_ServiceDesc srv" "\<lambda>err. err"
  by unfold_locales (auto simp: mem_unary_conn_def split: prod.splits sum.splits)

section \<open>Properties\<close>

text \<open>C7: The example services over gRPC are the clients of the model. On a connection that delivers, to a server
  with the pairs matchmaker registered, the generated client of the matchmaker is \<open>pairs_client\<close>, which
  the properties of the matcher assume; and to a server with the example assignment service, the
  generated client of the assignment service is that service. This needs that clients and servers agree
  on the names of the methods, that the request arrives as it was sent, and that the responses are
  received in the order in which they were sent, before the end of the stream.\<close>

theorem examples_over_grpc:
  assumes "grpc_stream_server cc (MatchMakerService_ServiceDesc (NewPairsMatchmaker rt)) (direct status)"
    and "grpc_unary_server cc' (AssignmentService_ServiceDesc (FakeServer_MakeAssignment rand_Intn)) status'"
  shows "NewMatchMakerServiceClient cc = pairs_client rt \<and>
    NewAssignmentServiceClient cc' = FakeServer_MakeAssignment rand_Intn"
  unfolding NewMatchMakerServiceClient_def NewAssignmentServiceClient_def
  by (intro conjI MakeMatches_pairs [OF assms(1)] MakeAssignment_fake [OF assms(2)])

theorem examples_over_grpc_witness:
  "NewMatchMakerServiceClient
      (mem_conn MakeMatchesCall get_MakeMatches (MatchMakerService_ServiceDesc (NewPairsMatchmaker mem_runtime))
        (direct (\<lambda>err. err))) =
    pairs_client mem_runtime \<and>
   NewAssignmentServiceClient
      (mem_unary_conn (AssignmentService_ServiceDesc (FakeServer_MakeAssignment (\<lambda>n w. (7, w :: world))))) =
    FakeServer_MakeAssignment (\<lambda>n w. (7, w))"
  by (rule examples_over_grpc [OF mem_matchmaker.grpc_stream_server_axioms mem_assignment.grpc_unary_server_axioms])

end
