(* ===== verification/Remote.thy ===== *)
theory Remote
  imports EndToEnd Stubs_Laws
begin

text \<open>
  The whole way of a player who uses the command line: the client asks over gRPC, the frontend stores the
  request under an id that it draws, the accumulator, the matcher and the dispenser find a second player
  and a game server, the frontend sends the server over the stream of the call, and the client prints it.
\<close>

section \<open>A request without an id\<close>

text \<open>The frontend draws the id and goes on as if the request had come with it.\<close>

lemma Match_draws_id:
  assumes "req_Id req = []" and "rt_xid rt w = (i, w1)" and "i \<noteq> []"
  shows "Service_Match rt s req svr gap evs w = Service_Match rt s (req\<lparr>req_Id := i\<rparr>) svr gap evs w1"
  using assms by (simp add: Service_Match_def go_bind_def call_def)

text \<open>A new id names no ticket yet, nor the one of the other player.\<close>

definition draws_fresh :: "'w runtime \<Rightarrow> ('w \<Rightarrow> table) \<Rightarrow> string \<Rightarrow> 'w \<Rightarrow> bool" where
  "draws_fresh rt tab k2 w \<longleftrightarrow> (\<forall>i w1. rt_xid rt w = (i, w1) \<longrightarrow> i \<noteq> k2 \<and>
     tab w collectionTickets i = None \<and> tab w collectionTicketAssignments i = None)"

context live_program
begin

lemma new_player_answered:
  assumes inv: "acc_inv (acc_config acc) a" and idle: "acc_slice a = []" "acc_forwards a = []"
    and wf: "tickets_wf rt (tab w)" and id: "req_Id req1 = []" and draw: "draws_fresh rt tab (req_Id req2) w"
    and second: "req_Id req2 \<noteq> []" "tab w collectionTickets (req_Id req2) = None"
      "tab w collectionTicketAssignments (req_Id req2) = None"
    and queue: "req_MatchmakingQueue req1 \<in> svc_queues svc"
  shows "\<exists>w'. Service_Match rt svc req1 svr (\<lambda>v. v)
      [SubStep (rest_of_program rt tm log acc a mat dis ctx ctx2 req2), SubMsg b, SubDone] w = (Ret None, w') \<and>
    outbox (rest w') = outbox (rest w) @ [\<lparr>mresp_GameServer = Some gsv\<rparr>]"
proof -
  obtain i w1 where x: "rt_xid rt w = (i, w1)" by force
  from tickets.rt_keeps [OF x] have k: "tab w1 = tab w" "rest w1 = rest w" by simp_all
  have i: "i \<noteq> []" using xid_nonempty [OF x] .
  from draw x have fresh: "i \<noteq> req_Id req2" "tab w collectionTickets i = None"
    "tab w collectionTicketAssignments i = None" by (auto simp: draws_fresh_def)
  let ?req = "req1\<lparr>req_Id := i\<rparr>"
  have "\<exists>w'. Service_Match rt svc ?req svr (\<lambda>v. v)
      [SubStep (rest_of_program rt tm log acc a mat dis ctx ctx2 req2), SubMsg b, SubDone] w1 = (Ret None, w') \<and>
    outbox (rest w') = outbox (rest w1) @ [\<lparr>mresp_GameServer = Some gsv\<rparr>]"
    by (rule waiting_player_answered [OF inv idle]) (use wf i fresh second queue in \<open>simp_all add: k\<close>)
  with k(2) show ?thesis by (simp add: Match_draws_id [OF id x i])
qed

end

section \<open>The call over gRPC\<close>

text \<open>
  The side of the server when the stream of the call lives in the world of the program: \<open>stream\<close> is the
  stream of a request, and what it has sent is seen by \<open>out\<close>.
\<close>

definition in_world ::
  "(ctx \<Rightarrow> 'q \<Rightarrow> ('w, 'q, 'r) ServerStream) \<Rightarrow> ('w \<Rightarrow> 'r list) \<Rightarrow> (error \<Rightarrow> error) \<Rightarrow> ('w, 'w, 'q, 'r) transport" where
  "in_world stream out status =
    \<lparr>tr_stream = stream, tr_enter = (\<lambda>w. w), tr_leave = (\<lambda>w. w), tr_sent = out, tr_status = status\<rparr>"

lemma Match_sees:
  assumes "grpc_stream_server cc (RivalryService_ServiceDesc srv) (in_world stream out status)"
    and "srv req (rivalryServiceMatchServer (stream c req)) w = (Ret None, w')" and "out w' = out w @ resps"
  shows "rivalryServiceClient_Match cc c req w = (Inr (map Inr resps @ [Inl ErrEOF]), w')"
  using assms(2,3) by (simp add: Match_served_by [OF assms(1)] served_def in_world_def client_sees_def)

end
