(* ===== verification/Operator_Laws.thy ===== *)
theory Operator_Laws
  imports Operator
begin

text \<open>
  The reconciler against its specification: the objects of a profile (\<open>desired_Service\<close>,
  \<open>desired_Deployments\<close>) are created where they are missing, in their order, and nothing
  else changes. The locale \<open>kube_api\<close> states what the client of the cluster promises,
  \<open>kube_reconciler\<close> adds the YAML reader and \<open>SetControllerReference\<close>.
\<close>

section \<open>What a profile asks for\<close>

definition owned :: "Profile \<Rightarrow> string \<Rightarrow> ObjectMeta \<Rightarrow> ObjectMeta" where
  "owned i name mt = mt\<lparr>meta_Name := name, meta_Namespace := prof_Namespace i,
     meta_Controller := Some (prof_Namespace i, prof_Name i)\<rparr>"

definition desired_Service :: "Profile \<Rightarrow> kube_Service" where
  "desired_Service i = template_Service\<lparr>ksv_Meta := owned i FrontendName (ksv_Meta template_Service)\<rparr>"

definition desired :: "Profile \<Rightarrow> template \<Rightarrow> string \<Rightarrow> string \<Rightarrow> string list \<Rightarrow> Deployment" where
  "desired i t name img args =
    (let d = template_Deployment t in
     d\<lparr>dep_Meta := owned i name (dep_Meta d),
       dep_Containers := map (\<lambda>c. c\<lparr>ctr_Image := img,
         ctr_Args := [''--nats_addr'', spec_NatsAddress (prof_Spec i),
           ''--redis_addr'', spec_RedisAddress (prof_Spec i)] @ args\<rparr>) (dep_Containers d)\<rparr>)"

definition desired_frontend :: "Profile \<Rightarrow> Deployment" where
  "desired_frontend i = desired i FrontendDeploymentYaml FrontendName
     (fes_Image (spec_FrontendService (prof_Spec i)))
     (concat (map (\<lambda>q. [''--queues'', mq_Name (the q)]) (spec_MatchmakingQueues (prof_Spec i))))"

definition desired_accumulator :: "Profile \<Rightarrow> MatchmakingQueue \<Rightarrow> Deployment" where
  "desired_accumulator i mp = desired i AccumulatorDeploymentYaml (accumulatorName mp)
     (acs_Image (spec_AccumulatorService (prof_Spec i)))
     ([''--queue'', mq_Name mp] @
      (if 0 <s mq_MaxTickets mp then [''--max_tickets'', Sprint_int64 (mq_MaxTickets mp)] else []) @
      (if 0 <s mq_MaxDelay mp then [''--max_delay'', Sprint_int64 (mq_MaxDelay mp)] else []))"

definition desired_matcher :: "Profile \<Rightarrow> MatchmakingQueue \<Rightarrow> Deployment" where
  "desired_matcher i mp = desired i MatcherDeploymentYaml (matcherName mp)
     (mas_Image (spec_MatcherService (prof_Spec i)))
     [''--queue'', mq_Name mp, ''--matchmaker_target'', mq_MatchmakerTarget mp]"

definition desired_dispenser :: "Profile \<Rightarrow> Deployment" where
  "desired_dispenser i = desired i DispenserDeploymentYaml DispenserName
     (dis_Image (spec_DispenserService (prof_Spec i)))
     [''--assignment_target'', dis_AssignmentTarget (spec_DispenserService (prof_Spec i))]"

text \<open>In the order of their creation.\<close>

definition desired_Deployments :: "Profile \<Rightarrow> Deployment list" where
  "desired_Deployments i =
    (let qs = map the (spec_MatchmakingQueues (prof_Spec i)) in
     desired_frontend i # map (desired_accumulator i) qs @ map (desired_matcher i) qs @
     [desired_dispenser i])"

text \<open>No queue of the profile is \<open>null\<close>.\<close>

definition queues_given :: "Profile \<Rightarrow> bool" where
  "queues_given i \<longleftrightarrow> None \<notin> set (spec_MatchmakingQueues (prof_Spec i))"

definition keyed :: "('o \<Rightarrow> NamespacedName) \<Rightarrow> 'o list \<Rightarrow> NamespacedName \<rightharpoonup> 'o" where
  "keyed key ds = map_of (map (\<lambda>d. (key d, d)) ds)"

lemma keyed_missing: "m (key d) = None \<Longrightarrow> keyed key [d] ++ m = m(key d \<mapsto> d)"
  by (auto simp: keyed_def fun_eq_iff map_add_def split: option.split)

lemma keyed_present: "m (key d) = Some x \<Longrightarrow> keyed key [d] ++ m = m"
  by (auto simp: keyed_def fun_eq_iff map_add_def split: option.split)

lemma keyed_all_present:
  assumes "\<forall>d \<in> set ds. m (key d) \<noteq> None"
  shows "keyed key ds ++ m = m"
proof -
  have "dom (keyed key ds) \<subseteq> dom m"
    using assms by (auto simp: keyed_def dom_map_of_conv_image_fst)
  then show ?thesis by (auto simp: fun_eq_iff map_add_def dom_def split: option.split)
qed

lemma keyed_append: "keyed key (xs @ ys) = keyed key ys ++ keyed key xs"
  by (simp add: keyed_def)

lemma desired_key: "dep_key (desired i t name img args) = (prof_Namespace i, name)"
  by (simp add: dep_key_def desired_def owned_def Let_def)

lemma desired_Service_key: "ksv_key (desired_Service i) = (prof_Namespace i, FrontendName)"
  by (simp add: ksv_key_def desired_Service_def owned_def)

lemmas desired_defs = desired_frontend_def desired_accumulator_def desired_matcher_def
  desired_dispenser_def

section \<open>Loops that stop at an error\<close>

text \<open>\<open>if err := m; err != nil { return err }; f\<close>\<close>

abbreviation andthen :: "('w, error option) proc \<Rightarrow> ('w, error option) proc \<Rightarrow> ('w, error option) proc" where
  "andthen m f \<equiv>
    go_bind m (\<lambda>err. case err of Some e \<Rightarrow> go_return (Some e) | None \<Rightarrow> f)"

lemma andthen_assoc: "andthen (andthen m f) g = andthen m (andthen f g)"
  by (auto simp: fun_eq_iff go_bind_def split: prod.splits go.splits option.splits)

lemma range_until_append: "range_until f (xs @ ys) = andthen (range_until f xs) (range_until f ys)"
proof (induction xs)
  case Nil
  show ?case by (auto simp: fun_eq_iff go_bind_def)
next
  case (Cons x xs)
  then show ?case
    by (auto simp: fun_eq_iff go_bind_def split: prod.splits go.splits option.splits)
qed

lemma range_until_map: "range_until f (map g xs) = range_until (\<lambda>x. f (g x)) xs"
  by (induction xs) simp_all

lemma range_until_cong: "(\<And>x. x \<in> set xs \<Longrightarrow> f x = g x) \<Longrightarrow> range_until f xs = range_until g xs"
  by (induction xs) (simp_all cong: option.case_cong)

lemma go_bind_eta: "go_bind m (\<lambda>err. case err of Some e \<Rightarrow> go_return (Some e) | None \<Rightarrow> go_return None) = m"
  by (auto simp: fun_eq_iff go_bind_def split: prod.splits go.splits option.splits)

text \<open>What a check and a creation amount to.\<close>

lemma ensure_call:
  "ensure (go_bind (call g) (\<lambda>res. go_return (was_found res))) (call c) w =
    (case g w of (e1, w1) \<Rightarrow> (case was_found e1 of
         Inl err \<Rightarrow> (Ret (Some err), w1)
       | Inr b \<Rightarrow> if b then (Ret None, w1) else (case c w1 of (e2, w2) \<Rightarrow> (Ret e2, w2))))"
  unfolding ensure_def go_bind_eta go_bind_assoc
  by (cases "g w") (simp add: go_bind_call call_apply split: sum.split prod.split)

lemma go_bind_return_eq: "go_bind (go_return a) f = f a"
  by (auto simp: fun_eq_iff go_bind_def)

section \<open>The cluster\<close>

text \<open>Reads that see the cluster as it is, and creations that succeed where the name is free.\<close>

definition live_reads :: "'w kube_Client \<Rightarrow> ('w \<Rightarrow> NamespacedName \<rightharpoonup> Deployment) \<Rightarrow>
    ('w \<Rightarrow> NamespacedName \<rightharpoonup> kube_Service) \<Rightarrow> bool" where
  "live_reads K deps svcs \<longleftrightarrow>
    (\<forall>k w. was_found (fst (kc_GetDeployment K k w)) = Inr (deps w k \<noteq> None)) \<and>
    (\<forall>k w. was_found (fst (kc_GetService K k w)) = Inr (svcs w k \<noteq> None))"

definition creates :: "'w kube_Client \<Rightarrow> ('w \<Rightarrow> NamespacedName \<rightharpoonup> Deployment) \<Rightarrow>
    ('w \<Rightarrow> NamespacedName \<rightharpoonup> kube_Service) \<Rightarrow> bool" where
  "creates K deps svcs \<longleftrightarrow>
    (\<forall>d w. deps w (dep_key d) = None \<longrightarrow> fst (kc_CreateDeployment K d w) = None) \<and>
    (\<forall>s w. svcs w (ksv_key s) = None \<longrightarrow> fst (kc_CreateService K s w) = None)"

locale kube_api =
  fixes K :: "'w kube_Client" and deps :: "'w \<Rightarrow> NamespacedName \<rightharpoonup> Deployment"
    and svcs :: "'w \<Rightarrow> NamespacedName \<rightharpoonup> kube_Service"
  assumes get_profile: "kc_GetProfile K k w = (x, w') \<Longrightarrow> deps w' = deps w \<and> svcs w' = svcs w"
    and get_deployment: "kc_GetDeployment K k w = (e, w') \<Longrightarrow> deps w' = deps w \<and> svcs w' = svcs w"
    and get_service: "kc_GetService K k w = (e, w') \<Longrightarrow> deps w' = deps w \<and> svcs w' = svcs w"
    and create_deployment: "kc_CreateDeployment K d w = (e, w') \<Longrightarrow> svcs w' = svcs w \<and>
      (deps w' = deps w \<and> e \<noteq> None \<or>
       deps w (dep_key d) = None \<and> deps w' = (deps w)(dep_key d \<mapsto> d))"
    and create_service: "kc_CreateService K s w = (e, w') \<Longrightarrow> deps w' = deps w \<and>
      (svcs w' = svcs w \<and> e \<noteq> None \<or>
       svcs w (ksv_key s) = None \<and> svcs w' = (svcs w)(ksv_key s \<mapsto> s))"
begin

definition ensure_deployment :: "Deployment \<Rightarrow> ('w, error option) proc" where
  "ensure_deployment d = ensure
    (go_bind (call (kc_GetDeployment K (dep_key d))) (\<lambda>res. go_return (was_found res)))
    (call (kc_CreateDeployment K d))"

definition ensure_service :: "kube_Service \<Rightarrow> ('w, error option) proc" where
  "ensure_service s = ensure
    (go_bind (call (kc_GetService K (ksv_key s))) (\<lambda>res. go_return (was_found res)))
    (call (kc_CreateService K s))"

lemma ensure_deployment_spec:
  assumes "ensure_deployment d w = (r, w')"
  shows "svcs w' = svcs w \<and> (\<exists>e. r = Ret e) \<and>
    (deps w' = deps w \<or> deps w (dep_key d) = None \<and> deps w' = (deps w)(dep_key d \<mapsto> d))"
proof -
  obtain e1 w1 where g: "kc_GetDeployment K (dep_key d) w = (e1, w1)" by force
  obtain e2 w2 where c: "kc_CreateDeployment K d w1 = (e2, w2)" by force
  from assms g c get_deployment [OF g] create_deployment [OF c] show ?thesis
    unfolding ensure_deployment_def ensure_call by (auto split: sum.splits if_splits)
qed

lemma ensure_service_spec:
  assumes "ensure_service s w = (r, w')"
  shows "deps w' = deps w \<and> (\<exists>e. r = Ret e) \<and>
    (svcs w' = svcs w \<or> svcs w (ksv_key s) = None \<and> svcs w' = (svcs w)(ksv_key s \<mapsto> s))"
proof -
  obtain e1 w1 where g: "kc_GetService K (ksv_key s) w = (e1, w1)" by force
  obtain e2 w2 where c: "kc_CreateService K s w1 = (e2, w2)" by force
  from assms g c get_service [OF g] create_service [OF c] show ?thesis
    unfolding ensure_service_def ensure_call by (auto split: sum.splits if_splits)
qed

lemma ensure_deployment_live:
  assumes live: "live_reads K deps svcs" and new: "deps w (dep_key d) = None \<longrightarrow> creates K deps svcs"
  shows "\<exists>w'. ensure_deployment d w = (Ret None, w') \<and> svcs w' = svcs w \<and>
    deps w' = keyed dep_key [d] ++ deps w"
proof -
  obtain e1 w1 where g: "kc_GetDeployment K (dep_key d) w = (e1, w1)" by force
  from live have f: "was_found e1 = Inr (deps w (dep_key d) \<noteq> None)"
    unfolding live_reads_def by (metis g fst_conv)
  show ?thesis
  proof (cases "deps w (dep_key d)")
    case None
    with new get_deployment [OF g] obtain w2 where c: "kc_CreateDeployment K d w1 = (None, w2)"
      unfolding creates_def by (metis fst_conv surj_pair)
    from create_deployment [OF c] get_deployment [OF g] None g f c show ?thesis
      unfolding ensure_deployment_def ensure_call by (simp add: keyed_missing)
  next
    case (Some x)
    with g f get_deployment [OF g] show ?thesis
      unfolding ensure_deployment_def ensure_call by (simp add: keyed_present)
  qed
qed

lemma ensure_service_live:
  assumes live: "live_reads K deps svcs" and new: "svcs w (ksv_key s) = None \<longrightarrow> creates K deps svcs"
  shows "\<exists>w'. ensure_service s w = (Ret None, w') \<and> deps w' = deps w \<and>
    svcs w' = keyed ksv_key [s] ++ svcs w"
proof -
  obtain e1 w1 where g: "kc_GetService K (ksv_key s) w = (e1, w1)" by force
  from live have f: "was_found e1 = Inr (svcs w (ksv_key s) \<noteq> None)"
    unfolding live_reads_def by (metis g fst_conv)
  show ?thesis
  proof (cases "svcs w (ksv_key s)")
    case None
    with new get_service [OF g] obtain w2 where c: "kc_CreateService K s w1 = (None, w2)"
      unfolding creates_def by (metis fst_conv surj_pair)
    from create_service [OF c] get_service [OF g] None g f c show ?thesis
      unfolding ensure_service_def ensure_call by (simp add: keyed_missing)
  next
    case (Some x)
    with g f get_service [OF g] show ?thesis
      unfolding ensure_service_def ensure_call by (simp add: keyed_present)
  qed
qed

text \<open>A sequence of such steps.\<close>

lemma ensure_deployments_spec:
  assumes "range_until ensure_deployment ds w = (r, w')"
  shows "svcs w' = svcs w \<and> (\<exists>e. r = Ret e) \<and> deps w \<subseteq>\<^sub>m deps w' \<and>
    (\<forall>k d. deps w' k = Some d \<longrightarrow> deps w k = Some d \<or> d \<in> set ds \<and> k = dep_key d)"
  using assms
proof (induction ds arbitrary: w)
  case Nil
  then show ?case by auto
next
  case (Cons d ds)
  obtain q w1 where q: "ensure_deployment d w = (q, w1)" by force
  from ensure_deployment_spec [OF q] obtain e where e1: "q = Ret e" "svcs w1 = svcs w" and
    one: "deps w1 = deps w \<or> deps w (dep_key d) = None \<and> deps w1 = (deps w)(dep_key d \<mapsto> d)" by blast
  from one have "deps w \<subseteq>\<^sub>m deps w1" by (auto simp: map_le_def dom_def)
  moreover from one have "\<forall>k x. deps w1 k = Some x \<longrightarrow> deps w k = Some x \<or> x = d \<and> k = dep_key d"
    by (metis fun_upd_apply option.inject)
  ultimately have e: "q = Ret e" "svcs w1 = svcs w" "deps w \<subseteq>\<^sub>m deps w1"
    "\<forall>k x. deps w1 k = Some x \<longrightarrow> deps w k = Some x \<or> x = d \<and> k = dep_key d" using e1 by blast+
  show ?case
  proof (cases e)
    case None
    with Cons.prems q e(1) have "range_until ensure_deployment ds w1 = (r, w')" by (simp add: go_bind_def)
    note rest = Cons.IH [OF this]
    have "deps w k = Some x \<or> x \<in> set (d # ds) \<and> k = dep_key x" if "deps w' k = Some x" for k x
    proof -
      from rest that have "deps w1 k = Some x \<or> x \<in> set ds \<and> k = dep_key x" by blast
      with e(4) have "deps w k = Some x \<or> x = d \<and> k = dep_key d \<or> x \<in> set ds \<and> k = dep_key x" by blast
      then show ?thesis by auto
    qed
    with rest e(2,3) show ?thesis by (auto intro: map_le_trans)
  next
    case (Some err)
    with Cons.prems q e show ?thesis by (auto simp: go_bind_def)
  qed
qed

lemma ensure_deployments_live:
  assumes live: "live_reads K deps svcs" and new: "\<forall>d \<in> set ds. deps w (dep_key d) = None \<longrightarrow> creates K deps svcs"
  shows "\<exists>w'. range_until ensure_deployment ds w = (Ret None, w') \<and> svcs w' = svcs w \<and>
    deps w' = keyed dep_key ds ++ deps w"
  using new
proof (induction ds arbitrary: w)
  case Nil
  show ?case by (simp add: keyed_def)
next
  case (Cons d ds)
  from Cons.prems have "deps w (dep_key d) = None \<longrightarrow> creates K deps svcs" by simp
  from ensure_deployment_live [OF live this] obtain w1 where w1:
    "ensure_deployment d w = (Ret None, w1)" "svcs w1 = svcs w" "deps w1 = keyed dep_key [d] ++ deps w"
    by blast
  have "\<forall>x \<in> set ds. deps w1 (dep_key x) = None \<longrightarrow> creates K deps svcs"
    using Cons.prems w1(3) by (auto simp: map_add_def split: option.splits)
  from Cons.IH [OF this] w1 keyed_append [of dep_key "[d]" ds] show ?case
    by (auto simp: go_bind_def)
qed

end

section \<open>The reconciler\<close>

locale kube_reconciler = kube_api K deps svcs
  for K :: "'w kube_Client" and deps :: "'w \<Rightarrow> NamespacedName \<rightharpoonup> Deployment"
    and svcs :: "'w \<Rightarrow> NamespacedName \<rightharpoonup> kube_Service" +
  fixes r :: "'w ProfileReconciler"
  assumes client: "pr_Client r = K"
    and yaml_Deployment: "t \<noteq> FrontendServiceYaml \<Longrightarrow> pr_yaml_Deployment r t = Inr (template_Deployment t)"
    and yaml_Service: "pr_yaml_Service r FrontendServiceYaml = Inr template_Service"
    and set_reference: "meta_Controller mt = None \<Longrightarrow> meta_Namespace mt = prof_Namespace i \<Longrightarrow>
      pr_SetControllerReference r i mt =
        Inr (mt\<lparr>meta_Controller := Some (prof_Namespace i, prof_Name i)\<rparr>)"
begin

lemma create_owned_eq:
  "meta_Controller (dep_Meta s) = None \<Longrightarrow> meta_Namespace (dep_Meta s) = prof_Namespace i \<Longrightarrow>
    create_owned r i s = call (kc_CreateDeployment K
      (s\<lparr>dep_Meta := (dep_Meta s)\<lparr>meta_Controller := Some (prof_Namespace i, prof_Name i)\<rparr>\<rparr>))"
  by (simp add: create_owned_def set_reference client go_bind_eta)

text \<open>Each \<open>configure\<close> is the creation of the object that the profile asks for.\<close>

lemmas configure_simps = yaml_Deployment at_container0_def add_args_def go_bind_return_eq create_owned_eq
  template_meta_def desired_def owned_def Let_def deref_def

lemma configureDispenser_eq:
  "configureDispenserDeployment r i = call (kc_CreateDeployment K (desired_dispenser i))"
  unfolding configureDispenserDeployment_def desired_dispenser_def
  by (simp add: configure_simps DispenserName_def)

lemma configureAccumulator_eq:
  "configureAccumulatorDeployment r i (Some mp) = call (kc_CreateDeployment K (desired_accumulator i mp))"
  unfolding configureAccumulatorDeployment_def desired_accumulator_def
  by (simp add: configure_simps)

lemma configureMatcher_eq:
  "configureMatcherDeployment r i (Some mp) = call (kc_CreateDeployment K (desired_matcher i mp))"
  unfolding configureMatcherDeployment_def desired_matcher_def
  by (simp add: configure_simps)

lemma reconcileDispenser_eq: "reconcileDispenser r i = ensure_deployment (desired_dispenser i)"
  unfolding reconcileDispenser_def ensure_deployment_def dispenserDeploymentIsConfigured_def
    configureDispenser_eq client
  by (simp add: desired_dispenser_def desired_key)

lemma accumulator_eq:
  "ensure (accumulatorIsConfigured r i (Some mp)) (configureAccumulatorDeployment r i (Some mp)) =
    ensure_deployment (desired_accumulator i mp)"
  unfolding ensure_deployment_def accumulatorIsConfigured_def configureAccumulator_eq client
  by (simp add: desired_accumulator_def desired_key go_bind_return_eq deref_def)

lemma matcher_eq:
  "ensure (matcherIsConfigured r i (Some mp)) (configureMatcherDeployment r i (Some mp)) =
    ensure_deployment (desired_matcher i mp)"
  unfolding ensure_deployment_def matcherIsConfigured_def configureMatcher_eq client
  by (simp add: desired_matcher_def desired_key go_bind_return_eq deref_def)

lemma queue_args_eq:
  assumes "None \<notin> set qs"
  shows "queue_args qs (s\<lparr>dep_Containers := [c]\<rparr>) = go_return (s\<lparr>dep_Containers :=
    [c\<lparr>ctr_Args := ctr_Args c @ concat (map (\<lambda>q. [''--queues'', mq_Name (the q)]) qs)\<rparr>]\<rparr>)"
  using assms
proof (induction qs arbitrary: c)
  case (Cons q qs)
  then obtain x where "q = Some x" by (cases q) auto
  with Cons.prems Cons.IH [of "c\<lparr>ctr_Args := ctr_Args c @ [''--queues'', mq_Name x]\<rparr>"] show ?case
    by (simp add: at_container0_def add_args_def go_bind_return_eq deref_def)
qed simp

lemma configureFrontend_eq:
  assumes "queues_given i"
  shows "configureFrontendDeployment r i = call (kc_CreateDeployment K (desired_frontend i))"
proof -
  let ?qs = "spec_MatchmakingQueues (prof_Spec i)"
  let ?s = "(template_Deployment FrontendDeploymentYaml)\<lparr>dep_Meta :=
      (template_meta ''rivalry-frontend'')\<lparr>meta_Namespace := prof_Namespace i\<rparr>\<rparr>"
  have "queue_args ?qs (?s\<lparr>dep_Containers := [c]\<rparr>) = (go_return (?s\<lparr>dep_Containers :=
      [c\<lparr>ctr_Args := ctr_Args c @ concat (map (\<lambda>q. [''--queues'', mq_Name (the q)]) ?qs)\<rparr>]\<rparr>)
      :: ('w, Deployment) proc)" for c
    by (rule queue_args_eq [OF assms [unfolded queues_given_def]])
  then show ?thesis
    by (simp add: configureFrontendDeployment_def configure_simps desired_frontend_def FrontendName_def)
qed

lemma frontend_deployment_eq:
  assumes "queues_given i"
  shows "ensure (frontendDeploymentIsConfigured r i) (configureFrontendDeployment r i) =
    ensure_deployment (desired_frontend i)"
  unfolding ensure_deployment_def frontendDeploymentIsConfigured_def configureFrontend_eq [OF assms] client
  by (simp add: desired_frontend_def desired_key)

lemma frontend_service_eq:
  "ensure (frontendServiceIsConfigured r i) (configureFrontendService r i) =
    ensure_service (desired_Service i)"
  unfolding ensure_service_def frontendServiceIsConfigured_def configureFrontendService_def
    desired_Service_key client
  by (simp add: yaml_Service set_reference desired_Service_def template_Service_def template_meta_def
      owned_def FrontendName_def Let_def go_bind_eta)

text \<open>\<open>Reconcile\<close> is the sequence of the steps for the objects of the profile.\<close>

lemma Reconcile_eq:
  assumes given: "queues_given i" and get: "kc_GetProfile K req w = (Inr i, w1)"
  shows "Reconcile r req w = go_bind (ensure_service (desired_Service i)) (\<lambda>err.
    case err of Some e \<Rightarrow> go_return (Some e)
    | None \<Rightarrow> range_until ensure_deployment (desired_Deployments i)) w1"
proof -
  let ?qs = "spec_MatchmakingQueues (prof_Spec i)"
  have some: "\<exists>mp. x = Some mp" if "x \<in> set ?qs" for x
    using given that by (cases x) (auto simp: queues_given_def)
  have "reconcileAccumulators r i = range_until (\<lambda>x. ensure_deployment (desired_accumulator i (the x))) ?qs"
    unfolding reconcileAccumulators_def
    by (rule range_until_cong) (use some accumulator_eq in force)
  then have acc: "reconcileAccumulators r i =
      range_until ensure_deployment (map (desired_accumulator i) (map the ?qs))"
    by (simp add: range_until_map)
  have "reconcileMatchers r i = range_until (\<lambda>x. ensure_deployment (desired_matcher i (the x))) ?qs"
    unfolding reconcileMatchers_def
    by (rule range_until_cong) (use some matcher_eq in force)
  then have mat: "reconcileMatchers r i =
      range_until ensure_deployment (map (desired_matcher i) (map the ?qs))"
    by (simp add: range_until_map)
  have "Reconcile r req w = andthen (reconcileFrontend r i) (andthen (reconcileAccumulators r i)
      (andthen (reconcileMatchers r i) (reconcileDispenser r i))) w1"
    unfolding Reconcile_def client go_bind_eta using get by (simp add: go_bind_call)
  also have "\<dots> = andthen (ensure_service (desired_Service i))
      (range_until ensure_deployment (desired_Deployments i)) w1"
    unfolding reconcileFrontend_def acc mat reconcileDispenser_eq frontend_service_eq
      frontend_deployment_eq [OF given] desired_Deployments_def Let_def range_until.simps
      range_until_append go_bind_eta andthen_assoc ..
  finally show ?thesis .
qed

text \<open>Whatever the cluster answers: nothing that exists changes, and what is new is of the profile.\<close>

lemma Reconcile_safe:
  assumes run: "Reconcile r req w = (q, w')" and get: "kc_GetProfile K req w = (x, w1)"
    and given: "\<forall>i. x = Inr i \<longrightarrow> queues_given i"
  shows "(\<exists>e. q = Ret e) \<and> deps w \<subseteq>\<^sub>m deps w' \<and> svcs w \<subseteq>\<^sub>m svcs w' \<and>
    (\<forall>k d. deps w' k = Some d \<longrightarrow> deps w k = Some d \<or>
       (\<exists>i. x = Inr i \<and> d \<in> set (desired_Deployments i) \<and> k = dep_key d)) \<and>
    (\<forall>k s. svcs w' k = Some s \<longrightarrow> svcs w k = Some s \<or>
       (\<exists>i. x = Inr i \<and> s = desired_Service i \<and> k = ksv_key s))"
proof (cases x)
  case (Inl e)
  with run get get_profile [OF get] show ?thesis
    by (auto simp: Reconcile_def client go_bind_call split: if_splits)
next
  case (Inr i)
  obtain q1 w2 where s: "ensure_service (desired_Service i) w1 = (q1, w2)" by force
  from ensure_service_spec [OF s] get_profile [OF get] obtain e where e: "q1 = Ret e" "deps w2 = deps w"
    "svcs w2 = svcs w \<or> svcs w (ksv_key (desired_Service i)) = None \<and>
       svcs w2 = (svcs w)(ksv_key (desired_Service i) \<mapsto> desired_Service i)" by auto
  have le: "svcs w \<subseteq>\<^sub>m svcs w2" using e(3) by (auto simp: map_le_def dom_def)
  have new: "\<forall>k y. svcs w2 k = Some y \<longrightarrow> svcs w k = Some y \<or> y = desired_Service i \<and> k = ksv_key y"
    using e(3) by (metis fun_upd_apply option.inject)
  from run Reconcile_eq [OF _ get [unfolded Inr]] given Inr s e(1) have
    "(case e of Some err \<Rightarrow> go_return (Some err)
      | None \<Rightarrow> range_until ensure_deployment (desired_Deployments i)) w2 = (q, w')"
    by (simp add: go_bind_def)
  then show ?thesis
  proof (cases e)
    case None
    then have "range_until ensure_deployment (desired_Deployments i) w2 = (q, w')"
      using \<open>(case e of Some err \<Rightarrow> _ err | None \<Rightarrow> _) w2 = (q, w')\<close> by simp
    from ensure_deployments_spec [OF this] e(2) le new Inr show ?thesis by auto
  next
    case (Some err)
    then have "q = Ret (Some err)" "w' = w2"
      using \<open>(case e of Some err \<Rightarrow> _ err | None \<Rightarrow> _) w2 = (q, w')\<close> by simp_all
    with e(2) le new Inr show ?thesis by auto
  qed
qed

text \<open>With a live cluster: the missing objects are created and the others are left alone.\<close>

lemma Reconcile_live:
  assumes live: "live_reads K deps svcs" and given: "queues_given i"
    and get: "kc_GetProfile K req w = (Inr i, w1)"
    and new_service: "svcs w (ksv_key (desired_Service i)) = None \<longrightarrow> creates K deps svcs"
    and new: "\<forall>d \<in> set (desired_Deployments i). deps w (dep_key d) = None \<longrightarrow> creates K deps svcs"
  shows "\<exists>w'. Reconcile r req w = (Ret None, w') \<and>
    svcs w' = keyed ksv_key [desired_Service i] ++ svcs w \<and>
    deps w' = keyed dep_key (desired_Deployments i) ++ deps w"
proof -
  from get_profile [OF get] have k: "deps w1 = deps w" "svcs w1 = svcs w" by simp_all
  obtain w2 where s: "ensure_service (desired_Service i) w1 = (Ret None, w2)" "deps w2 = deps w1"
    "svcs w2 = keyed ksv_key [desired_Service i] ++ svcs w1"
    using ensure_service_live [OF live] new_service k by metis
  from ensure_deployments_live [OF live, of "desired_Deployments i" w2] new s(2) k obtain w' where
    "range_until ensure_deployment (desired_Deployments i) w2 = (Ret None, w')" "svcs w' = svcs w2"
    "deps w' = keyed dep_key (desired_Deployments i) ++ deps w2" by auto
  with s k Reconcile_eq [OF given get] show ?thesis by (auto simp: go_bind_def)
qed

end

end
