(* ===== verification/Operator_Properties.thy ===== *)
theory Operator_Properties
  imports Operator_Laws
begin

text \<open>
  The properties of the operator, and a cluster in memory on which the reconciler runs. The cluster
  is not a model of code of the repository: it shows that the hypotheses can hold together.
\<close>

section \<open>A cluster in memory\<close>

record cluster =
  cl_profiles :: "(NamespacedName \<times> Profile) list"
  cl_deployments :: "(NamespacedName \<times> Deployment) list"
  cl_services :: "(NamespacedName \<times> kube_Service) list"

definition cluster_deps :: "cluster \<Rightarrow> NamespacedName \<rightharpoonup> Deployment" where
  "cluster_deps w = map_of (cl_deployments w)"

definition cluster_svcs :: "cluster \<Rightarrow> NamespacedName \<rightharpoonup> kube_Service" where
  "cluster_svcs w = map_of (cl_services w)"

definition kube_not_found :: error where
  "kube_not_found = ErrStatus ''NotFound'' ''not found''"

text \<open>A cluster that refuses to create anything when \<open>up\<close> is false.\<close>

definition mem_kube :: "bool \<Rightarrow> cluster kube_Client" where
  "mem_kube up =
    \<lparr>kc_GetProfile = (\<lambda>k w. (case map_of (cl_profiles w) k of
         None \<Rightarrow> Inl kube_not_found | Some i \<Rightarrow> Inr i, w)),
     kc_GetDeployment = (\<lambda>k w. (case cluster_deps w k of None \<Rightarrow> Some kube_not_found | Some _ \<Rightarrow> None, w)),
     kc_GetService = (\<lambda>k w. (case cluster_svcs w k of None \<Rightarrow> Some kube_not_found | Some _ \<Rightarrow> None, w)),
     kc_CreateDeployment = (\<lambda>d w. if up \<and> cluster_deps w (dep_key d) = None
       then (None, w\<lparr>cl_deployments := (dep_key d, d) # cl_deployments w\<rparr>)
       else (Some (ErrStatus ''AlreadyExists'' ''not created''), w)),
     kc_CreateService = (\<lambda>s w. if up \<and> cluster_svcs w (ksv_key s) = None
       then (None, w\<lparr>cl_services := (ksv_key s, s) # cl_services w\<rparr>)
       else (Some (ErrStatus ''AlreadyExists'' ''not created''), w))\<rparr>"

definition mem_reconciler :: "bool \<Rightarrow> cluster ProfileReconciler" where
  "mem_reconciler up =
    \<lparr>pr_Client = mem_kube up,
     pr_SetControllerReference = (\<lambda>i mt. if meta_Controller mt = None
       then Inr (mt\<lparr>meta_Controller := Some (prof_Namespace i, prof_Name i)\<rparr>)
       else Inl (ErrExt ''already owned'')),
     pr_yaml_Deployment = (\<lambda>t. Inr (template_Deployment t)),
     pr_yaml_Service = (\<lambda>t. Inr template_Service)\<rparr>"

interpretation mem_kube: kube_api "mem_kube up" cluster_deps cluster_svcs
  by unfold_locales
    (auto simp: mem_kube_def cluster_deps_def cluster_svcs_def fun_eq_iff split: if_splits)

interpretation mem_reconciler: kube_reconciler "mem_kube up" cluster_deps cluster_svcs "mem_reconciler up"
  by unfold_locales (simp_all add: mem_reconciler_def)

lemma mem_live_reads: "live_reads (mem_kube up) cluster_deps cluster_svcs"
proof -
  have "was_found (Some kube_not_found) = Inr False" "was_found None = Inr True"
    by (simp_all add: was_found_def IsNotFound_def kube_not_found_def)
  then show ?thesis by (simp add: live_reads_def mem_kube_def split: option.split)
qed

lemma mem_creates: "creates (mem_kube True) cluster_deps cluster_svcs"
  by (simp add: creates_def mem_kube_def)

definition sample_queue :: "string \<Rightarrow> MatchmakingQueue option" where
  "sample_queue q = Some \<lparr>mq_Name = q, mq_MatchmakerTarget = ''matchmaker:50051'', mq_MaxTickets = 200, mq_MaxDelay = 0\<rparr>"

definition sample_profile :: "string \<Rightarrow> Profile" where
  "sample_profile img = \<lparr>prof_Namespace = ''games'', prof_Name = ''profile'',
     prof_Spec = \<lparr>spec_NatsAddress = ''nats:4222'', spec_RedisAddress = ''redis:6379'',
       spec_FrontendService = \<lparr>fes_Image = img\<rparr>, spec_AccumulatorService = \<lparr>acs_Image = img\<rparr>,
       spec_MatcherService = \<lparr>mas_Image = img\<rparr>,
       spec_DispenserService = \<lparr>dis_Image = img, dis_AssignmentTarget = ''assignment:50051''\<rparr>,
       spec_MatchmakingQueues = [sample_queue ''a'', sample_queue ''b'']\<rparr>\<rparr>"

definition cluster0 :: "string \<Rightarrow> cluster" where
  "cluster0 img = \<lparr>cl_profiles = [((''games'', ''profile''), sample_profile img)],
     cl_deployments = [], cl_services = []\<rparr>"

lemma get_sample: "kc_GetProfile (mem_kube up) (''games'', ''profile'') (cluster0 img) =
    (Inr (sample_profile img), cluster0 img)"
  by (simp add: mem_kube_def cluster0_def)

lemma sample_queues_given: "queues_given (sample_profile img)"
  by (simp add: queues_given_def sample_profile_def sample_queue_def)

section \<open>Properties\<close>

text \<open>C19: The operator only adds. Whatever the cluster answers, and for every profile whose list of queues has no
  null entry (the schema allows none), \<open>Reconcile\<close> changes and deletes no deployment and no service, and what
  is new afterwards are objects of the profile that was read, under their own names.\<close>

theorem reconcile_only_adds:
  assumes "kube_reconciler K deps svcs r"
    and "Reconcile r req w = (q, w')" and "kc_GetProfile K req w = (x, w1)"
    and "\<forall>i. x = Inr i \<longrightarrow> queues_given i"
  shows "(\<exists>e. q = Ret e) \<and> deps w \<subseteq>\<^sub>m deps w' \<and> svcs w \<subseteq>\<^sub>m svcs w' \<and>
    (\<forall>k d. deps w' k = Some d \<longrightarrow> deps w k = Some d \<or>
       (\<exists>i. x = Inr i \<and> d \<in> set (desired_Deployments i) \<and> k = dep_key d)) \<and>
    (\<forall>k s. svcs w' k = Some s \<longrightarrow> svcs w k = Some s \<or>
       (\<exists>i. x = Inr i \<and> s = desired_Service i \<and> k = ksv_key s))"
  by (rule kube_reconciler.Reconcile_safe [OF assms])

theorem reconcile_only_adds_witness:
  "\<exists>e. fst (Reconcile (mem_reconciler False) (''games'', ''profile'') (cluster0 ''v1'')) = Ret e"
  using reconcile_only_adds [OF mem_reconciler.kube_reconciler_axioms prod.collapse [symmetric] get_sample
      [of False "''v1''"]] sample_queues_given by blast

text \<open>C20: On a cluster that answers, for a profile whose list of queues has no null entry (the schema allows
  none), \<open>Reconcile\<close> brings the cluster to the profile: it returns no error, and afterwards the service and
  every deployment of the profile exist, the missing ones as the profile describes them and the others as
  they were.\<close>

theorem reconcile_converges:
  assumes "kube_reconciler K deps svcs r"
    and "live_reads K deps svcs" and "queues_given i" and "kc_GetProfile K req w = (Inr i, w1)"
    and "svcs w (ksv_key (desired_Service i)) = None \<longrightarrow> creates K deps svcs"
    and "\<forall>d \<in> set (desired_Deployments i). deps w (dep_key d) = None \<longrightarrow> creates K deps svcs"
  shows "\<exists>w'. Reconcile r req w = (Ret None, w') \<and>
    svcs w' = keyed ksv_key [desired_Service i] ++ svcs w \<and>
    deps w' = keyed dep_key (desired_Deployments i) ++ deps w"
  by (rule kube_reconciler.Reconcile_live [OF assms])

text \<open>The cluster after the first reconciliation.\<close>

definition cluster1 :: cluster where
  "cluster1 = snd (Reconcile (mem_reconciler True) (''games'', ''profile'') (cluster0 ''v1''))"

theorem reconcile_converges_witness:
  "cluster_deps cluster1 = keyed dep_key (desired_Deployments (sample_profile ''v1'')) \<and>
    cluster_svcs cluster1 = keyed ksv_key [desired_Service (sample_profile ''v1'')]"
proof -
  have "cluster_deps (cluster0 ''v1'') = Map.empty" "cluster_svcs (cluster0 ''v1'') = Map.empty"
    by (simp_all add: cluster_deps_def cluster_svcs_def cluster0_def)
  with reconcile_converges [OF mem_reconciler.kube_reconciler_axioms mem_live_reads sample_queues_given
      get_sample] mem_creates
  obtain w' where "Reconcile (mem_reconciler True) (''games'', ''profile'') (cluster0 ''v1'') = (Ret None, w')"
    "cluster_svcs w' = keyed ksv_key [desired_Service (sample_profile ''v1'')]"
    "cluster_deps w' = keyed dep_key (desired_Deployments (sample_profile ''v1''))"
    by (metis map_add_empty)
  then show ?thesis by (simp add: cluster1_def)
qed

text \<open>A change of the profile does not reach objects that exist: once every object of a profile has
  been created, reconciling it again, with other images, addresses, limits or targets, returns
  no error and changes nothing.\<close>

theorem reconcile_ignores_changes:
  assumes "kube_reconciler K deps svcs r"
    and "live_reads K deps svcs" and "queues_given i" and "kc_GetProfile K req w = (Inr i, w1)"
    and "svcs w (ksv_key (desired_Service i)) \<noteq> None"
    and "\<forall>d \<in> set (desired_Deployments i). deps w (dep_key d) \<noteq> None"
  shows "\<exists>w'. Reconcile r req w = (Ret None, w') \<and> svcs w' = svcs w \<and> deps w' = deps w"
proof -
  have "keyed ksv_key [desired_Service i] ++ svcs w = svcs w"
    using assms(5) by (auto intro: keyed_present)
  moreover have "keyed dep_key (desired_Deployments i) ++ deps w = deps w"
    by (rule keyed_all_present) (fact assms(6))
  ultimately show ?thesis using kube_reconciler.Reconcile_live [OF assms(1-4)] assms(5,6) by auto
qed

theorem reconcile_ignores_changes_witness:
  "\<exists>w'. Reconcile (mem_reconciler True) (''games'', ''profile'')
      (cluster1\<lparr>cl_profiles := cl_profiles (cluster0 ''v2'')\<rparr>) = (Ret None, w') \<and>
    cluster_deps w' = cluster_deps cluster1"
proof -
  let ?w = "cluster1\<lparr>cl_profiles := cl_profiles (cluster0 ''v2'')\<rparr>"
  have g: "kc_GetProfile (mem_kube True) (''games'', ''profile'') ?w = (Inr (sample_profile ''v2''), ?w)"
    by (simp add: mem_kube_def cluster0_def)
  have s: "cluster_svcs ?w (ksv_key (desired_Service (sample_profile ''v2''))) \<noteq> None"
    "\<forall>d \<in> set (desired_Deployments (sample_profile ''v2'')). cluster_deps ?w (dep_key d) \<noteq> None"
    by code_simp+
  have e: "cluster_deps ?w = cluster_deps cluster1" by (simp add: cluster_deps_def)
  have "\<exists>w'. Reconcile (mem_reconciler True) (''games'', ''profile'') ?w = (Ret None, w') \<and>
      cluster_svcs w' = cluster_svcs ?w \<and> cluster_deps w' = cluster_deps ?w"
    by (rule reconcile_ignores_changes [OF mem_reconciler.kube_reconciler_axioms mem_live_reads
          sample_queues_given]) (fact g s)+
  with e show ?thesis by auto
qed

end
