(* ===== verification/System.thy ===== *)
theory System
  imports Pipeline Frontend_Laws
begin

text \<open>
  The whole program as a state machine: the services act on the store and on the messages by calls of
  the two managers. \<open>manager_call\<close> is one such call, with whatever arguments and whatever outcome: it
  may fail, lose its reply or panic. A call is one step. A run of the program is a sequence of calls, of
  whichever processes and in whatever order: processes interleave between calls, not inside of one. The invariant: a ticket is in at most one announced match.
\<close>

section \<open>Calls\<close>

definition announced :: "message_log \<Rightarrow> string \<Rightarrow> bool" where
  "announced l k \<longleftrightarrow> (GetUnassignedMatchesTopic, k) \<in> set l"

text \<open>The id under which \<open>CreateMatch\<close> stores a match: its own, or the one drawn for it.\<close>

definition used_id :: "'w runtime \<Rightarrow> 'w \<Rightarrow> api_Match \<Rightarrow> string" where
  "used_id rt w mt = (if match_MatchId mt = [] then fst (rt_xid rt w) else match_MatchId mt)"

text \<open>
  \<open>again\<close> is the requeue of a match that was announced before; \<open>aside\<close> is anything that touches
  neither the store nor the messages: a custom service, a ticker, a draw of an id, a send to a client.
\<close>

inductive manager_call ::
  "'w runtime \<Rightarrow> 'w tickets_manager \<Rightarrow> ('w \<Rightarrow> table) \<Rightarrow> ('w \<Rightarrow> message_log) \<Rightarrow> 'w \<Rightarrow> 'w \<Rightarrow> bool"
  for rt m tab log where
  ticket: "ticket_call rt m {} w w' \<Longrightarrow> manager_call rt m tab log w w'"
| create: "CreateMatch rt (matches_manager_of rt m) (Some mt) w = (r, w') \<Longrightarrow>
    \<not> announced (log w) (used_id rt w mt) \<Longrightarrow> manager_call rt m tab log w w'"
| again: "matches_Requeue (matches_manager_of rt m) k w = (e, w') \<Longrightarrow>
    announced (log w) k \<Longrightarrow> manager_call rt m tab log w w'"
| aside: "tab w' = tab w \<Longrightarrow> log w' = log w \<Longrightarrow> manager_call rt m tab log w w'"

abbreviation manager_calls where
  "manager_calls rt m tab log \<equiv> (manager_call rt m tab log)\<^sup>*\<^sup>*"

section \<open>The invariant\<close>

text \<open>An announced match that is stored is stored under its own id, and its tickets are linked to it.\<close>

definition matches_wf :: "'w runtime \<Rightarrow> table \<Rightarrow> message_log \<Rightarrow> bool" where
  "matches_wf rt t l \<longleftrightarrow> (\<forall>k mt. announced l k \<longrightarrow> match_at rt t k = Some mt \<longrightarrow>
    match_MatchId mt = k \<and>
    (\<forall>i \<in> set (match_MatchRequestIds mt). t collectionTicketAssignments i = Some k))"

text \<open>So two announced matches share no ticket.\<close>

lemma matches_wf_disjoint:
  assumes "matches_wf rt t l" and "announced l k" and "announced l k'" and "k \<noteq> k'"
    and "match_at rt t k = Some mt" and "match_at rt t k' = Some mt'"
  shows "set (match_MatchRequestIds mt) \<inter> set (match_MatchRequestIds mt') = {}"
proof -
  from assms(1) have wf: "\<And>k mt. announced l k \<Longrightarrow> match_at rt t k = Some mt \<Longrightarrow>
      \<forall>i \<in> set (match_MatchRequestIds mt). t collectionTicketAssignments i = Some k"
    by (simp add: matches_wf_def)
  from wf [OF assms(2,5)] wf [OF assms(3,6)] assms(4) show ?thesis by fastforce
qed

lemma matches_wf_keep:
  assumes "matches_wf rt t l" and "\<And>k. announced l' k \<Longrightarrow> announced l k"
    and "\<And>k. announced l k \<Longrightarrow> t' collectionMatch k = t collectionMatch k"
    and "\<And>i k. t collectionTicketAssignments i = Some k \<Longrightarrow> t' collectionTicketAssignments i = Some k"
  shows "matches_wf rt t' l'"
  using assms by (simp add: matches_wf_def match_at_def)

text \<open>The topic of the matches is none of the tickets' topics.\<close>

lemma unassigned_topic [simp]:
  "GetMatchRequestTopic q \<noteq> GetUnassignedMatchesTopic" "GetUnassignedMatchesTopic \<noteq> GetMatchRequestTopic q"
  "GetAccumulatedMatchRequestTopic q \<noteq> GetUnassignedMatchesTopic"
  "GetUnassignedMatchesTopic \<noteq> GetAccumulatedMatchRequestTopic q"
  "GetMatchRequestSubject q \<noteq> GetUnassignedMatchesTopic" "GetUnassignedMatchesTopic \<noteq> GetMatchRequestSubject q"
  by (simp_all add: GetMatchRequestTopic_def GetAccumulatedMatchRequestTopic_def GetMatchRequestSubject_def
      topicMatchRequestPrefix_def topicAccumulatedMatchRequestPrefix_def subjectTicketUpdatesPrefix_def
      GetUnassignedMatchesTopic_def topicUnassignedMatches_def)

lemma announced_append [simp]: "announced (l @ out) k \<longleftrightarrow> announced l k \<or> announced out k"
  by (auto simp: announced_def)

lemma announced_other [simp]:
  "\<not> announced [] k" "\<not> announced [ticket_msg rt st] k" "\<not> announced [batch_msg rt q sts] k"
  "\<not> announced (map (ticket_msg rt) ys) k" "\<not> announced (map assigned_msg ks) k"
  "announced [match_msg mt] k \<longleftrightarrow> k = match_MatchId mt"
  by (auto simp: announced_def ticket_msg_def batch_msg_def assigned_msg_def match_msg_def)

context matches_env
begin

subsection \<open>Calls of the ticket manager\<close>

text \<open>What such a call does to the collection of the matches and to their topic: nothing.\<close>

lemma AddAssignment_log:
  assumes wf: "tickets_wf rt (tab w)"
    and run: "AddAssignmentToMatchRequests rt m ctx gp mp w = (r, w')"
  shows "\<exists>ks. log w' = log w @ map assigned_msg ks"
proof (cases mp)
  case None
  with run show ?thesis by (auto simp: AddAssignmentToMatchRequests_def intro: exI [of _ "[]"])
next
  case mp: (Some mt)
  show ?thesis
  proof (cases gp)
    case (Some gsv)
    from AddAssignment_spec [OF wf run [unfolded mp Some], unfolded Let_def] obtain e where
      "r = Ret e" "case e of None \<Rightarrow> \<exists>ks. log w' = log w @ map assigned_msg ks | Some _ \<Rightarrow> log w' = log w"
      by (fastforce split: option.splits)
    then show ?thesis by (cases e) (auto intro: exI [of _ "[]"])
  next
    case None
    obtain q w1 where g: "GetMatchRequests rt m (match_MatchRequestIds mt) w = (q, w1)" by force
    from GetMatchRequests_spec [OF g] obtain x where "q = Ret x" "log w1 = log w" by blast
    with run mp None g show ?thesis
      by (cases x) (auto simp: AddAssignmentToMatchRequests_def go_bind_Ret intro: exI [of _ "[]"] split: if_splits)
  qed
qed

lemma ticket_call_frame:
  assumes "ticket_call rt m {} w w'" and "tickets_wf rt (tab w)"
  shows "tab w' collectionMatch = tab w collectionMatch \<and> (announced (log w') k \<longleftrightarrow> announced (log w) k)"
  using assms(1)
proof cases
  case (create ctx req r)
  from CreateMatchRequest_spec [OF create(1) refl] show ?thesis by (auto split: option.splits)
next
  case (delete k' r)
  from DeleteMatchRequest_spec [OF delete(1)] show ?thesis
    by (auto intro: write_outcome_inv [where P = "\<lambda>t. t collectionMatch = tab w collectionMatch"])
next
  case (get k r)
  with GetMatchRequest_spec [OF get(1)] show ?thesis by simp
next
  case (gets ks r)
  with GetMatchRequests_spec [OF gets(1)] show ?thesis by simp
next
  case (batch ctx queue sts r)
  with PublishAccumulated_spec [OF batch(1)] show ?thesis by (auto split: option.splits)
next
  case (assign mp r)
  show ?thesis
  proof (cases mp)
    case None
    with assign(1) show ?thesis by (simp add: AssignMatchRequestsToMatch_None)
  next
    case (Some mt)
    from AssignMatchRequestsToMatch_spec [OF assign(1) [unfolded Some]] show ?thesis
      by (auto split: if_splits intro: write_nx_outcome_inv
          [where P = "\<lambda>t. t collectionMatch = tab w collectionMatch"])
  qed
next
  case (release mp r)
  show ?thesis
  proof (cases mp)
    case None
    with release(2) show ?thesis by (simp add: ReleaseMatchRequestsFromMatch_None)
  next
    case (Some mt)
    from ReleaseMatchRequestsFromMatch_spec [OF release(2) [unfolded Some]] show ?thesis
      by (auto split: if_splits intro: write_outcome_inv
          [where P = "\<lambda>t. t collectionMatch = tab w collectionMatch"])
  qed
next
  case (announce ctx gp mp r)
  from AddAssignment_tab [OF assms(2) announce(1)] AddAssignment_log [OF assms(2) announce(1)]
  show ?thesis by auto
next
  case (requeue ctx ts r)
  show ?thesis
  proof (cases "None \<in> set ts")
    case True
    with requeue(1) show ?thesis by (simp add: RequeueMatchRequests_nil)
  next
    case False
    with requeue(1) RequeueMatchRequests_spec [of ctx "map the ts" w r w'] show ?thesis
      unfolding map_Some_the [OF False] by auto
  qed
qed

subsection \<open>Creations\<close>

text \<open>A creation is one with the id that is used.\<close>

lemma CreateMatch_used:
  assumes "mt' = mt\<lparr>match_MatchId := used_id rt w mt\<rparr>"
  shows "\<exists>w0. CreateMatch rt mm (Some mt) w = CreateMatch rt mm (Some mt') w0 \<and>
    match_MatchId mt' \<noteq> [] \<and> tab w0 = tab w \<and> log w0 = log w"
proof (cases "match_MatchId mt = []")
  case False
  then show ?thesis by (intro exI [of _ w]) (simp add: assms used_id_def)
next
  case True
  obtain i w0 where x: "rt_xid rt w = (i, w0)" by force
  with True rt_keeps [OF x] xid_nonempty [OF x] show ?thesis
    by (intro exI [of _ w0]) (simp add: assms used_id_def CreateMatch_def go_bind_def call_def)
qed

lemma CreateMatch_used_spec:
  assumes "CreateMatch rt (matches_manager_of rt m) (Some mt) w = (r, w')"
  shows "\<exists>mt'. match_MatchId mt' = used_id rt w mt \<and> (\<exists>ok. r = Ret ok \<and> (case ok of
       Inl _ \<Rightarrow> log w' = log w \<and> match_residue mt' (tab w) (tab w')
     | Inr True \<Rightarrow> links_free (tab w) mt' \<and> (\<exists>bs. rt_marshal_Match rt mt' = Inr bs \<and>
         tab w' = tput collectionMatch (match_MatchId mt') bs
           (tputs collectionTicketAssignments (links mt') (tab w))) \<and>
         log w' = log w @ [match_msg mt']
     | Inr False \<Rightarrow> \<not> links_free (tab w) mt' \<and> tab w' = tab w \<and> log w' = log w))"
proof -
  let ?mt = "mt\<lparr>match_MatchId := used_id rt w mt\<rparr>"
  from CreateMatch_used [OF refl, where mm = "matches_manager_of rt m" and mt = mt and w = w] assms obtain w0 where
    w0: "CreateMatch rt (matches_manager_of rt m) (Some ?mt) w0 = (r, w')" "match_MatchId ?mt \<noteq> []"
      "tab w0 = tab w" "log w0 = log w" by auto
  from CreateMatch_spec [OF w0(1)] obtain mt' where "mt' = ?mt" and "\<exists>ok. r = Ret ok \<and> (case ok of
       Inl _ \<Rightarrow> log w' = log w0 \<and> match_residue mt' (tab w0) (tab w')
     | Inr True \<Rightarrow> links_free (tab w0) mt' \<and> (\<exists>bs. rt_marshal_Match rt mt' = Inr bs \<and>
         tab w' = tput collectionMatch (match_MatchId mt') bs
           (tputs collectionTicketAssignments (links mt') (tab w0))) \<and>
         log w' = log w0 @ [match_msg mt']
     | Inr False \<Rightarrow> \<not> links_free (tab w0) mt' \<and> tab w' = tab w0 \<and> log w' = log w0)"
    using w0(2) by (elim exE conjE) (rule that, blast+)
  then show ?thesis unfolding w0(3,4) by (intro exI [of _ mt']) simp
qed

lemma links_added:
  "links_free t mt \<Longrightarrow> t collectionTicketAssignments i = Some k \<Longrightarrow>
    (t collectionTicketAssignments ++ links mt) i = Some k"
  by (auto simp: links_free_def links_def map_add_def)

lemma CreateMatch_matches_wf:
  assumes "CreateMatch rt (matches_manager_of rt m) (Some mt) w = (r, w')"
    and "\<not> announced (log w) (used_id rt w mt)" and wf: "matches_wf rt (tab w) (log w)"
  shows "matches_wf rt (tab w') (log w')"
proof -
  from CreateMatch_used_spec [OF assms(1)] obtain mt' and ok :: "error + bool" where
    id: "match_MatchId mt' = used_id rt w mt" and c: "case ok of
       Inl _ \<Rightarrow> log w' = log w \<and> match_residue mt' (tab w) (tab w')
     | Inr True \<Rightarrow> links_free (tab w) mt' \<and> (\<exists>bs. rt_marshal_Match rt mt' = Inr bs \<and>
         tab w' = tput collectionMatch (match_MatchId mt') bs
           (tputs collectionTicketAssignments (links mt') (tab w))) \<and>
         log w' = log w @ [match_msg mt']
     | Inr False \<Rightarrow> \<not> links_free (tab w) mt' \<and> tab w' = tab w \<and> log w' = log w"
    by (elim exE conjE) (rule that)
  from assms(2) id have new: "\<And>k. announced (log w) k \<Longrightarrow> k \<noteq> match_MatchId mt'" by auto
  consider (failed) e where "ok = Inl e" | (refused) "ok = Inr False" | (created) "ok = Inr True"
    by (metis (full_types) sum.exhaust)
  then show ?thesis
  proof cases
    case (failed e)
    with c have l: "log w' = log w" and res: "match_residue mt' (tab w) (tab w')" by simp_all
    show ?thesis
      by (rule matches_wf_keep [OF wf])
        (use l res new links_added [of "tab w" mt'] in \<open>auto simp: match_residue_def\<close>)
  next
    case refused
    with c wf show ?thesis by simp
  next
    case created
    with c obtain bs where bs: "links_free (tab w) mt'" "rt_marshal_Match rt mt' = Inr bs"
      "tab w' = tput collectionMatch (match_MatchId mt') bs
        (tputs collectionTicketAssignments (links mt') (tab w))" "log w' = log w @ [match_msg mt']" by auto
    have "matches_wf rt (tab w') (log w)"
      by (rule matches_wf_keep [OF wf]) (use bs(1,3) new links_added [OF bs(1)] in auto)
    moreover have "match_at rt (tab w') (match_MatchId mt') = Some mt'"
      using bs(3) codec_Match [OF bs(2)] by (simp add: match_at_Some)
    moreover have "tab w' collectionTicketAssignments i = Some (match_MatchId mt')"
      if "i \<in> set (match_MatchRequestIds mt')" for i
      using that bs(3) by (simp add: links_def map_add_def)
    ultimately show ?thesis unfolding bs(4) matches_wf_def by auto
  qed
qed

subsection \<open>Runs\<close>

lemma manager_call_inv:
  assumes "manager_call rt m tab log w w'" and "tickets_wf rt (tab w)" and "matches_wf rt (tab w) (log w)"
  shows "tickets_wf rt (tab w') \<and> matches_wf rt (tab w') (log w')"
  using assms(1)
proof cases
  case ticket
  have "matches_wf rt (tab w') (log w')"
    by (rule matches_wf_keep [OF assms(3)])
      (use ticket_call_frame [OF ticket assms(2)] ticket_call_link [OF ticket assms(2)] in auto)
  with ticket_call_wf [OF ticket assms(2)] show ?thesis by simp
next
  case (create mt r)
  with CreateMatch_wf [OF create(1) assms(2)] CreateMatch_matches_wf [OF create assms(3)]
  show ?thesis by simp
next
  case (again k e)
  from again(1) have s: "SendMessage (tm_streamClient m) GetUnassignedMatchesTopic k w = (e, w')"
    by (simp add: matches_Requeue_def)
  from send_message [OF s] have
    "tab w' = tab w" "log w' = log w \<or> log w' = log w @ [(GetUnassignedMatchesTopic, k)]"
    by (auto simp: sent_def split: if_splits)
  moreover from this(2) again(2) have "announced (log w') k' \<Longrightarrow> announced (log w) k'" for k'
    by (auto simp: announced_def)
  ultimately show ?thesis using assms(2,3) by (auto intro: matches_wf_keep)
next
  case aside
  with assms show ?thesis by simp
qed

lemma manager_calls_inv:
  "manager_calls rt m tab log w w' \<Longrightarrow> tickets_wf rt (tab w) \<Longrightarrow> matches_wf rt (tab w) (log w) \<Longrightarrow>
    tickets_wf rt (tab w') \<and> matches_wf rt (tab w') (log w')"
  by (induction rule: rtranclp_induct) (auto dest: manager_call_inv)

text \<open>The invariant of the system.\<close>

definition sys_inv :: "'w \<Rightarrow> bool" where
  "sys_inv w \<longleftrightarrow> tickets_wf rt (tab w) \<and> matches_wf rt (tab w) (log w)"

lemma sys_inv_aside: "sys_inv w \<Longrightarrow> tab w' = tab w \<Longrightarrow> log w' = log w \<Longrightarrow> sys_inv w'"
  by (simp add: sys_inv_def)

lemma sys_inv_call: "sys_inv w \<Longrightarrow> manager_call rt m tab log w w' \<Longrightarrow> sys_inv w'"
  using manager_call_inv by (auto simp: sys_inv_def)

lemma sys_inv_calls: "sys_inv w \<Longrightarrow> manager_calls rt m tab log w w' \<Longrightarrow> sys_inv w'"
  using manager_calls_inv by (auto simp: sys_inv_def)

lemma sys_inv_ticket: "sys_inv w \<Longrightarrow> ticket_call rt m {} w w' \<Longrightarrow> sys_inv w'"
  by (rule sys_inv_call [OF _ manager_call.ticket])

lemma go_bind_inv:
  assumes "go_bind f g w = (r, w')" and "\<And>q v. f w = (q, v) \<Longrightarrow> I v"
    and "\<And>a v. f w = (Ret a, v) \<Longrightarrow> I v \<Longrightarrow> g a v = (r, w') \<Longrightarrow> I w'"
  shows "I w'"
  using assms(1) by (cases rule: go_bind_cases) (use assms(2,3) in blast)+

lemma RetryOp_inv:
  assumes "RetryOp rt ctx f config w = (r, w')" and "I w"
    and "\<And>v q v'. I v \<Longrightarrow> f v = (q, v') \<Longrightarrow> I v'"
  shows "I w'"
proof -
  have "\<exists>w1. I w1 \<and>
    (r = Ret None \<and> f w1 = (Ret None, w') \<or>
     (\<exists>e e'. r = Ret (Some e') \<and> f w1 = (Ret (Some e), w')) \<or>
     (\<exists>p. r = Panic p \<and> f w1 = (Panic p, w')) \<or>
     r = Blocked \<and> f w1 = (Blocked, w'))"
    by (rule RetryOp_last [where I = I, OF assms(1,2)]) (use assms(3) in blast)
  then show ?thesis using assms(3) by blast
qed

end

section \<open>The services\<close>

context accumulator_env
begin

lemma acc_step_ticket_call:
  assumes "acc_step rt acc ev a w = (r, w')"
  shows "w' = w \<or> ticket_call rt m {} w w'"
proof (cases ev)
  case (Delivery b)
  with assms show ?thesis by (simp add: delivery_state)
next
  case Tick
  with assms show ?thesis by simp
next
  case (Forwarding i)
  show ?thesis
  proof (cases "i < length (acc_forwards a)")
    case False
    with assms Forwarding show ?thesis by simp
  next
    case True
    obtain q w1 where p: "PublishAccumulatedMatchRequests rt m (acc_ctx acc) (acc_matchmakingQueue acc)
        (acc_forwards a ! i) w = (q, w1)" by force
    from PublishAccumulated_spec [OF p] obtain e where "q = Ret e" by blast
    with assms Forwarding True p have "w' = w1"
      by (simp add: forwardAccumulatedRequests_def manager go_bind_def)
    with p show ?thesis by (auto intro: ticket_call.batch)
  qed
qed

end

text \<open>The proposals of a stream have ids of their own: given, and not used before.\<close>

fun fresh_proposals :: "(string \<Rightarrow> bool) \<Rightarrow> recv list \<Rightarrow> bool" where
  "fresh_proposals used (RecvResponse resp # rs) =
    (case mmresp_Match resp of
       None \<Rightarrow> True
     | Some mt \<Rightarrow> match_MatchId mt \<noteq> [] \<and> \<not> used (match_MatchId mt) \<and>
         fresh_proposals (\<lambda>k. used k \<or> k = match_MatchId mt) rs)"
| "fresh_proposals used _ = True"

text \<open>A matchmaker that proposes new matches in every world that the ticket manager reaches from here.\<close>

definition proposes_fresh :: "'w runtime \<Rightarrow> 'w tickets_manager \<Rightarrow> ('w \<Rightarrow> message_log) \<Rightarrow>
  'w MatchMakerServiceClient \<Rightarrow> 'w \<Rightarrow> bool" where
  "proposes_fresh rt m log client w \<longleftrightarrow> (\<forall>v ctx req rs v'. (ticket_call rt m {})\<^sup>*\<^sup>* w v \<longrightarrow>
    client ctx req v = (Inr rs, v') \<longrightarrow> fresh_proposals (announced (log v)) rs)"

lemma proposes_fresh_step:
  "proposes_fresh rt m log client w \<Longrightarrow> ticket_call rt m {} w w1 \<Longrightarrow> proposes_fresh rt m log client w1"
  unfolding proposes_fresh_def by (meson converse_rtranclp_into_rtranclp)

context matcher_env
begin

lemma requeue_inv: "sys_inv w \<Longrightarrow> RequeueMatchRequests rt m ctx ts w = (r, w') \<Longrightarrow> sys_inv w'"
  by (rule sys_inv_ticket [OF _ ticket_call.requeue])

lemma requeue_announced:
  assumes "RequeueMatchRequests rt m ctx ts w = (r, w')"
  shows "announced (log w') k \<longleftrightarrow> announced (log w) k"
proof (cases "None \<in> set ts")
  case True
  with assms show ?thesis by (simp add: RequeueMatchRequests_nil)
next
  case False
  with assms RequeueMatchRequests_spec [of ctx "map the ts" w r w'] show ?thesis
    unfolding map_Some_the [OF False] by auto
qed

lemma CreateMatch_announced:
  assumes "CreateMatch rt (matches_manager_of rt m) (Some mt) w = (r, w')" and "announced (log w') k"
  shows "announced (log w) k \<or> k = used_id rt w mt"
proof -
  from CreateMatch_used_spec [OF assms(1)] obtain mt' and ok :: "error + bool" where
    "match_MatchId mt' = used_id rt w mt" "case ok of
       Inl _ \<Rightarrow> log w' = log w \<and> match_residue mt' (tab w) (tab w')
     | Inr True \<Rightarrow> links_free (tab w) mt' \<and> (\<exists>bs. rt_marshal_Match rt mt' = Inr bs \<and>
         tab w' = tput collectionMatch (match_MatchId mt') bs
           (tputs collectionTicketAssignments (links mt') (tab w))) \<and>
         log w' = log w @ [match_msg mt']
     | Inr False \<Rightarrow> \<not> links_free (tab w) mt' \<and> tab w' = tab w \<and> log w' = log w"
    by (elim exE conjE) (rule that)
  with assms(2) show ?thesis by (cases ok) (auto split: bool.splits)
qed

lemma on_match_sys_inv:
  assumes "on_match mat ctx mp (w, mm) = (r, (w', mm'))" and "sys_inv w"
    and "\<And>mt. mp = Some mt \<Longrightarrow> \<not> announced (log w) (used_id rt w mt)"
  shows "sys_inv w' \<and> (\<forall>k. announced (log w') k \<longrightarrow>
    announced (log w) k \<or> (\<exists>mt. mp = Some mt \<and> k = used_id rt w mt))"
proof (cases mp)
  case None
  with assms show ?thesis
    by (simp add: on_match_def mat_matches CreateMatch_None no_capture_def go_bind_def)
next
  case (Some mt)
  obtain q w1 where c: "CreateMatch rt (matches_manager_of rt m) (Some mt) w = (q, w1)" by force
  from CreateMatch_used_spec [OF c] obtain ok where q: "q = Ret ok" by blast
  have "manager_call rt m tab log w w1"
    by (rule manager_call.create [where log = log, OF c]) (rule assms(3) [OF Some])
  with assms(2) have i1: "sys_inv w1" by (rule sys_inv_call)
  have a1: "announced (log w1) k \<Longrightarrow> announced (log w) k \<or> k = used_id rt w mt" for k
    by (rule CreateMatch_announced [OF c])
  show ?thesis
  proof (cases "ok = Inr True")
    case True
    with assms(1) Some c q have "w' = w1"
      by (simp add: on_match_def mat_matches no_capture_def go_bind_def)
    with i1 a1 Some show ?thesis by simp
  next
    case False
    obtain q2 w2 where t: "RequeueMatchRequests rt m ctx (map (fmlookup mm) (match_MatchRequestIds mt)) w1 = (q2, w2)"
      by force
    from assms(1) Some c q False t have "w' = w2"
      by (simp add: on_match_def mat_matches mat_tickets no_capture_def go_bind_def split: go.splits)
    with requeue_inv [OF i1 t] requeue_announced [OF t] a1 Some show ?thesis by simp
  qed
qed

lemma recv_loop_sys_inv:
  assumes "recv_loop (on_match mat ctx) rs (w, mm) = (r, (w', mm'))" and "sys_inv w"
    and "fresh_proposals used rs" and "\<And>k. announced (log w) k \<Longrightarrow> used k"
  shows "sys_inv w'"
  using assms
proof (induction rs arbitrary: w mm used)
  case (Cons x rs)
  show ?case
  proof (cases x)
    case (RecvError err)
    with Cons.prems(1,2) show ?thesis by (simp split: if_splits)
  next
    case (RecvResponse resp)
    obtain q w1 mm1 where o: "on_match mat ctx (mmresp_Match resp) (w, mm) = (q, (w1, mm1))"
      by (metis prod.exhaust)
    have fresh: "\<not> announced (log w) (used_id rt w mt)" if "mmresp_Match resp = Some mt" for mt
      using Cons.prems(3,4) RecvResponse that by (auto simp: used_id_def)
    note i1 = on_match_sys_inv [OF o Cons.prems(2) fresh]
    show ?thesis
    proof (cases q)
      case (Ret u)
      show ?thesis
      proof (cases "mmresp_Match resp")
        case None
        with o Ret show ?thesis by (simp add: on_match_def mat_matches CreateMatch_None no_capture_def go_bind_def)
      next
        case (Some mt)
        from Cons.prems(1) RecvResponse o Ret have l: "recv_loop (on_match mat ctx) rs (w1, mm1) = (r, (w', mm'))"
          by (simp add: go_bind_Ret)
        from Cons.prems(3) RecvResponse Some have f: "match_MatchId mt \<noteq> []"
          "fresh_proposals (\<lambda>k. used k \<or> k = match_MatchId mt) rs" by simp_all
        show ?thesis
          by (rule Cons.IH [OF l _ f(2)]) (use i1 Some f(1) Cons.prems(4) in \<open>auto simp: used_id_def\<close>)
      qed
    next
      case (Panic p)
      with Cons.prems(1) RecvResponse o i1 show ?thesis by (simp add: go_bind_Panic)
    next
      case Blocked
      with Cons.prems(1) RecvResponse o i1 show ?thesis by (simp add: go_bind_Blocked)
    qed
  qed
qed simp

lemma makeMatches_sys_inv:
  assumes "makeMatches rt mat ctx reqs w = (r, w')" and "sys_inv w"
    and fresh: "proposes_fresh rt m log (mat_customLogic mat) w"
  shows "sys_inv w'"
proof -
  let ?req = "\<lparr>mmreq_Submissions = map SubmissionFromDBRequest reqs\<rparr>"
  obtain q w2 mm where mk: "MakeMatches (mat_customLogic mat) ctx ?req (on_match mat ctx)
      (w, request_map reqs) = (q, (w2, mm))" by (metis prod.exhaust)
  obtain res w1 where cl: "mat_customLogic mat ctx ?req w = (res, w1)" by force
  from client_frame [OF cl] sys_inv_aside [OF assms(2)] have i1: "sys_inv w1" "log w1 = log w" by auto
  have i2: "sys_inv w2"
  proof (cases res)
    case (Inl err)
    with mk cl i1 show ?thesis by (simp add: MakeMatches_def)
  next
    case (Inr rs)
    with mk cl have l: "recv_loop (on_match mat ctx) rs (w1, request_map reqs) = (q, (w2, mm))"
      by (simp add: MakeMatches_def)
    have "fresh_proposals (announced (log w)) rs"
      using fresh cl [unfolded Inr] unfolding proposes_fresh_def by blast
    then show ?thesis by (rule recv_loop_sys_inv [OF l i1(1)]) (simp add: i1(2))
  qed
  show ?thesis
  proof (cases q)
    case (Ret err)
    with assms(1) mk have g: "go_bind (if err \<noteq> None then requeueAll mat ctx reqs else go_return ())
        (\<lambda>_. requeueUnmatched rt mat ctx mm) w2 = (r, w')"
      by (simp add: makeMatches_def Let_def)
    show ?thesis
    proof (rule go_bind_inv [where I = sys_inv, OF g])
      fix q v
      assume "(if err \<noteq> None then requeueAll mat ctx reqs else go_return ()) w2 = (q, v)"
      with i2 requeue_inv show "sys_inv v"
        by (auto simp: requeueAll_def mat_tickets split: if_splits)
    next
      fix a v
      assume "sys_inv v" and "requeueUnmatched rt mat ctx mm v = (r, w')"
      with requeue_inv show "sys_inv w'"
        by (auto simp: requeueUnmatched_def mat_tickets Let_def split: if_splits)
    qed
  next
    case (Panic p)
    with assms(1) mk i2 show ?thesis by (simp add: makeMatches_def Let_def)
  next
    case Blocked
    with assms(1) mk i2 show ?thesis by (simp add: makeMatches_def Let_def)
  qed
qed

lemma on_batch_sys_inv:
  assumes "on_batch rt mat ctx sts w = (r, w')" and "sys_inv w"
    and fresh: "proposes_fresh rt m log (mat_customLogic mat) w"
  shows "sys_inv w'"
proof -
  let ?I = "\<lambda>v. sys_inv v \<and> proposes_fresh rt m log (mat_customLogic mat) v"
  have I: "?I v'" if "?I v" "ticket_call rt m {} v v'" for v v'
    using that(1) sys_inv_ticket [OF _ that(2)] proposes_fresh_step [OF _ that(2)] by simp
  obtain q w1 where g: "GetMatchRequests rt m (map st_MatchRequestId sts) w = (q, w1)" by force
  have i1: "?I w1" by (rule I [OF _ ticket_call.gets [OF g]]) (use assms in simp)
  from GetMatchRequests_spec [OF g] obtain x where q: "q = Ret x" by blast
  show ?thesis
  proof (cases x)
    case (Inr reqs)
    with assms(1) g q have "makeMatches rt mat ctx reqs w1 = (r, w')"
      by (simp add: on_batch_def mat_tickets go_bind_Ret Let_def)
    with i1 show ?thesis using makeMatches_sys_inv by blast
  next
    case (Inl err)
    obtain q2 w2 where t: "RequeueMatchRequests rt m ctx (map Some sts) w1 = (q2, w2)" by force
    have i2: "?I w2" by (rule I [OF i1 ticket_call.requeue [OF t]])
    from assms(1) g q Inl t have "go_bind (\<lambda>v. (q2, w2)) (\<lambda>_. makeMatches rt mat ctx []) w1 = (r, w')"
      by (simp add: on_batch_def mat_tickets go_bind_Ret Let_def go_bind_def)
    then show ?thesis
    proof (cases q2)
      case (Ret u)
      with \<open>go_bind _ _ _ = _\<close> have "makeMatches rt mat ctx [] w2 = (r, w')" by (simp add: go_bind_Ret)
      with i2 show ?thesis using makeMatches_sys_inv by blast
    qed (use i2 in \<open>simp_all add: go_bind_def\<close>)
  qed
qed

lemma Matcher_delivery_sys_inv:
  assumes "Matcher_delivery rt mat data w = (r, w')" and "sys_inv w"
    and fresh: "proposes_fresh rt m log (mat_customLogic mat) w"
  shows "sys_inv w'"
proof (cases "rt_unmarshal_Accumulated rt data")
  case (Inl err)
  with assms show ?thesis by (simp add: Matcher_delivery_def StreamAccumulatedMatchRequests_callback_def)
next
  case (Inr st)
  with assms(1) have "on_batch rt mat (mat_ctx mat) (ast_StreamTickets st) w = (r, w')"
    by (simp add: Matcher_delivery_def StreamAccumulatedMatchRequests_callback_def)
  from on_batch_sys_inv [OF this assms(2) fresh] show ?thesis .
qed

end

context dispenser_env
begin

lemma requeueMatch_sys_inv:
  assumes "requeueMatch rt dis ctx (Some mt) w = (r, w')" and "sys_inv w"
    and "announced (log w) (match_MatchId mt)"
  shows "sys_inv w'"
proof -
  let ?f = "go_bind (deref (Some mt)) (\<lambda>match. MM_Requeue (dis_matchesManager dis) (match_MatchId match))"
  let ?I = "\<lambda>v. sys_inv v \<and> announced (log v) (match_MatchId mt)"
  have f: "?I v'" if "?I v" "?f v = (q, v')" for v q v'
  proof -
    from that(2) have z: "matches_Requeue (matches_manager_of rt m) (match_MatchId mt) v = (q, v')"
      by (simp add: dis_matches)
    from that(1) sys_inv_call manager_call.again [where log = log, OF z] have "sys_inv v'" by blast
    moreover from z have s: "SendMessage (tm_streamClient m) GetUnassignedMatchesTopic (match_MatchId mt) v = (q, v')"
      by (simp add: matches_Requeue_def)
    from send_message [OF s] that(1) have "announced (log v') (match_MatchId mt)"
      by (auto simp: sent_def split: if_splits)
    ultimately show ?thesis by blast
  qed
  obtain q w1 where o: "RetryOp rt ctx ?f [Exponential] w = (q, w1)" by force
  have "?I w1" by (rule RetryOp_inv [where I = ?I, OF o]) (use assms(2,3) f in blast)+
  moreover from assms(1) o have "w' = w1"
    by (auto simp: requeueMatch_def go_bind_def split: go.splits if_splits)
  ultimately show ?thesis by simp
qed

lemma addAssignment_sys_inv:
  assumes "addAssignmentToTickets rt dis ctx mp gp w = (r, w')" and "sys_inv w"
  shows "sys_inv w'"
proof -
  let ?f = "TM_AddAssignmentToMatchRequests (dis_ticketsManager dis) ctx gp mp"
  obtain q w1 where o: "RetryOp rt ctx ?f [Exponential] w = (q, w1)" by force
  have "sys_inv v'" if "sys_inv v" "?f v = (q, v')" for v q v'
    by (rule sys_inv_ticket [OF that(1) ticket_call.announce])
      (use that(2) in \<open>simp add: dis_tickets\<close>)
  then have "sys_inv w1" by (rule RetryOp_inv [where I = sys_inv, OF o assms(2)])
  moreover from assms(1) o have "w' = w1"
    by (cases mp) (auto simp: addAssignmentToTickets_def go_bind_def split: go.splits if_splits)
  ultimately show ?thesis by simp
qed

lemma Dispenser_delivery_sys_inv:
  assumes "Dispenser_delivery rt dis ctx data w = (r, w')" and inv: "sys_inv w"
    and "announced (log w) data"
  shows "sys_inv w'"
proof -
  from StreamMatches_callback_spec [of ctx "on_unassigned rt dis ctx" data w] obtain x w1 where
    c: "Dispenser_delivery rt dis ctx data w = on_unassigned rt dis ctx x w1" "tab w1 = tab w" "log w1 = log w"
      "\<forall>mt. x = Some mt \<longrightarrow> match_at rt (tab w) data = Some mt"
    by (auto simp: Dispenser_delivery_def dis_matches)
  obtain q w2 where a: "makeAssignment rt dis ctx x w1 = (q, w2)" by force
  from makeAssignment_spec [OF a] obtain gs e where k: "tab w2 = tab w" "log w2 = log w" "q = Ret (gs, e)"
    using c(2,3) by auto
  from k(1,2) sys_inv_aside [OF inv] have i2: "sys_inv w2" by simp
  show ?thesis
  proof (cases "e = None")
    case True
    with assms(1) c(1) a k(3) have "addAssignmentToTickets rt dis ctx x gs w2 = (r, w')"
      by (simp add: on_unassigned_def go_bind_Ret)
    from addAssignment_sys_inv [OF this i2] show ?thesis .
  next
    case False
    show ?thesis
    proof (cases x)
      case None
      with assms(1) c(1) a k(3) False i2 show ?thesis by (auto simp: on_unassigned_def go_bind_Ret)
    next
      case (Some mt)
      with assms(1) c(1) a k(3) False have z: "requeueMatch rt dis ctx (Some mt) w2 = (r, w')"
        by (auto simp: on_unassigned_def go_bind_Ret)
      from inv assms(3) c(4) Some have "match_MatchId mt = data" by (simp add: sys_inv_def matches_wf_def)
      with requeueMatch_sys_inv [OF z i2] assms(3) k(2) show ?thesis by simp
    qed
  qed
qed

end

text \<open>A caller of the frontend: what is sent to it touches neither the store nor the messages.\<close>

definition sends_aside :: "('w \<Rightarrow> table) \<Rightarrow> ('w \<Rightarrow> message_log) \<Rightarrow> 'w MatchServer \<Rightarrow> bool" where
  "sends_aside tab log svr \<longleftrightarrow> (\<forall>resp v e v'. svr_Send svr resp v = (e, v') \<longrightarrow>
    tab v' = tab v \<and> log v' = log v)"

context matches_env
begin

lemma processTicket_sys_inv:
  assumes "processTicket rt svr cctx ctx t w = (r, w')" and "sys_inv w" and "sends_aside tab log svr"
  shows "sys_inv w'"
proof (cases "dbreq_GameServer t")
  case None
  with assms(1,2) show ?thesis by (simp add: processTicket_def)
next
  case (Some gs)
  let ?f = "call (svr_Send svr (match_response gs))"
  obtain q w1 where o: "RetryOp rt ctx ?f [Constant 100000000] w = (q, w1)" by force
  have "sys_inv v'" if "sys_inv v" "?f v = (a, v')" for v a v'
  proof -
    from call_eqD [OF that(2)] obtain e where "svr_Send svr (match_response gs) v = (e, v')" by blast
    with assms(3) have "tab v' = tab v" "log v' = log v" unfolding sends_aside_def by blast+
    with that(1) show ?thesis by (rule sys_inv_aside)
  qed
  then have i1: "sys_inv w1" by (rule RetryOp_inv [where I = sys_inv, OF o assms(2)])
  from assms(1) Some o consider "w' = w1" | "w' = rt_cancel rt cctx w1"
    by (auto simp: processTicket_def go_bind_def split: go.splits)
  then show ?thesis using i1 cancel_view [of cctx w1] by cases (auto intro: sys_inv_aside)
qed

lemma Match_wait_sys_inv:
  assumes run: "Match_wait rt svc k svr gap evs w = (r, w')" and inv: "sys_inv w"
    and svc: "svc_ticketsManager svc = tickets_of rt m" and send: "sends_aside tab log svr"
    and gap: "\<And>v. manager_calls rt m tab log v (gap v)"
    and evs: "\<And>g v. SubStep g \<in> set evs \<Longrightarrow> manager_calls rt m tab log v (g v)"
  shows "sys_inv w'"
proof -
  obtain cctx w1 where x: "rt_WithCancel rt w = (cctx, w1)" by force
  from WithCancel_view [OF x] sys_inv_aside [OF inv] have i1: "sys_inv w1" by simp
  obtain q w2 where g: "GetMatchRequest rt m k w1 = (q, w2)" by force
  have i2: "sys_inv w2" by (rule sys_inv_ticket [OF i1 ticket_call.get [OF g]])
  from GetMatchRequest_spec [OF g] obtain y where q: "q = Ret y" by blast
  show ?thesis
  proof (cases y)
    case (Inl err)
    with run x g q i2 show ?thesis by (simp add: Match_wait_def svc go_bind_call go_bind_Ret)
  next
    case (Inr t)
    let ?f = "\<lambda>t. go_bind (processTicket rt svr cctx cctx t) (\<lambda>_. go_return ())"
    let ?b = "\<lambda>b. go_bind (GetMatchRequest rt m k) (\<lambda>res. case res of Inl err \<Rightarrow> go_return () | Inr t \<Rightarrow> ?f t)"
    have f: "sys_inv v'" if "sys_inv v" "?f t v = (a, v')" for t v a v'
      by (rule go_bind_inv [where I = sys_inv, OF that(2)])
        (use processTicket_sys_inv [OF _ that(1) send] in auto)
    have b: "sys_inv v'" if "sys_inv v" "?b b v = (a, v')" for b v a v'
    proof (rule go_bind_inv [where I = sys_inv, OF that(2)])
      fix q u
      assume "GetMatchRequest rt m k v = (q, u)"
      from sys_inv_ticket [OF that(1) ticket_call.get [OF this]] show "sys_inv u" .
    next
      fix res u
      assume "sys_inv u" and "(case res of Inl err \<Rightarrow> go_return () | Inr t \<Rightarrow> ?f t) u = (a, v')"
      then show "sys_inv v'" using f by (auto split: sum.splits)
    qed
    from run x g q Inr have p: "go_bind (processTicket rt svr cctx (svr_Context svr) t) (\<lambda>is_done.
        if is_done then go_return None
        else (\<lambda>w. WatchMatchRequest rt m cctx k ?f evs (gap w))) w2 = (r, w')"
      by (simp add: Match_wait_def svc go_bind_call go_bind_Ret cong: if_cong)
    show ?thesis
    proof (rule go_bind_inv [where I = sys_inv, OF p])
      fix q v
      assume "processTicket rt svr cctx (svr_Context svr) t w2 = (q, v)"
      from processTicket_sys_inv [OF this i2 send] show "sys_inv v" .
    next
      fix a v
      assume "sys_inv v" and d: "(if a then go_return None
          else (\<lambda>w. WatchMatchRequest rt m cctx k ?f evs (gap w))) v = (r, w')"
      then show "sys_inv w'"
      proof (cases a)
        case False
        with d have s: "pubsub_Subscribe (tm_pubsubClient m) cctx (GetMatchRequestSubject k) ?b evs (gap v) = (r, w')"
          by (simp add: WatchMatchRequest_def)
        let ?I = "\<lambda>l tz. tickets_wf rt (fst tz) \<and> matches_wf rt (fst tz) l"
        have I: "?I (log v) (tab v, rest v) \<longleftrightarrow> sys_inv v" for v by (simp add: sys_inv_def)
        have "?I (log w') (tab w', rest w')"
        proof (rule subscribe_invariant [where I = ?I, OF s], unfold I)
          show "sys_inv v''" if "sys_inv v'" "?b z v' = (e, v'')" for z v' e v'' by (rule b [OF that])
          show "sys_inv (h v')" if "SubStep h \<in> set evs" "sys_inv v'" for h v'
            by (rule sys_inv_calls [OF that(2) evs [OF that(1)]])
          show "sys_inv (gap v)" by (rule sys_inv_calls [OF \<open>sys_inv v\<close> gap])
        qed
        then show ?thesis by (simp add: sys_inv_def)
      qed simp
    qed
  qed
qed

lemma Service_Match_sys_inv:
  assumes run: "Service_Match rt svc req svr gap evs w = (r, w')" and inv: "sys_inv w"
    and svc: "svc_ticketsManager svc = tickets_of rt m" and send: "sends_aside tab log svr"
    and gap: "\<And>v. manager_calls rt m tab log v (gap v)"
    and evs: "\<And>g v. SubStep g \<in> set evs \<Longrightarrow> manager_calls rt m tab log v (g v)"
  shows "sys_inv w'"
proof (rule go_bind_inv [where I = sys_inv, OF run [unfolded Service_Match_def]])
  fix q v
  assume "(if length (req_Id req) = 0 then go_bind (call (rt_xid rt)) (\<lambda>i. go_return (req\<lparr>req_Id := i\<rparr>))
    else go_return req) w = (q, v)"
  then have "v = w \<or> rt_xid rt w = (fst (rt_xid rt w), v)"
    by (auto simp: go_bind_call prod_eq_iff split: if_splits)
  then show "sys_inv v" using inv rt_keeps by (auto intro: sys_inv_aside)
next
  fix req' v
  assume i1: "sys_inv v" and rest: "(if req_MatchmakingQueue req' \<notin> svc_queues svc
      then go_return (Some (ErrStatus InvalidArgument ''invalid matchmaking queue''))
      else go_bind (TM_CreateMatchRequest (svc_ticketsManager svc) (svr_Context svr) req') (\<lambda>err.
          case err of
            Some e \<Rightarrow>
              if errors_Is e ErrDuplicateTicketID
              then go_return (Some (ErrStatus AlreadyExists (error_Error e)))
              else go_return (Some e)
          | None \<Rightarrow> Match_wait rt svc (req_Id req') svr gap evs)) v = (r, w')"
  show "sys_inv w'"
  proof (cases "req_MatchmakingQueue req' \<in> svc_queues svc")
    case False
    with rest i1 show ?thesis by simp
  next
    case True
    obtain q u where c: "CreateMatchRequest rt m (svr_Context svr) req' v = (q, u)" by force
    have i2: "sys_inv u" by (rule sys_inv_ticket [OF i1 ticket_call.create [OF c]])
    from CreateMatchRequest_spec [OF c refl] obtain e where q: "q = Ret e" by blast
    show ?thesis
    proof (cases e)
      case None
      with rest True c q have "Match_wait rt svc (req_Id req') svr gap evs u = (r, w')"
        by (simp add: svc go_bind_Ret)
      then show ?thesis
        by (rule Match_wait_sys_inv [OF _ i2 svc send]) (rule gap, erule evs)
    next
      case (Some err)
      with rest True c q i2 show ?thesis by (simp add: svc go_bind_Ret split: if_splits)
    qed
  qed
qed

end

section \<open>Runs of the program\<close>

text \<open>
  A step of the program: a service handles one message, tick, call or turn of a goroutine, in whatever
  world it finds; or a process makes a single call of a manager (a handler that stopped half way, the
  steps of other processes). While the frontend waits, the calls of other processes go on: \<open>gap\<close> and the
  steps among \<open>evs\<close>.
\<close>

inductive service_step ::
  "'w runtime \<Rightarrow> 'w tickets_manager \<Rightarrow> ('w \<Rightarrow> table) \<Rightarrow> ('w \<Rightarrow> message_log) \<Rightarrow> ('w \<Rightarrow> 'r) \<Rightarrow>
   (string \<Rightarrow> bool) \<Rightarrow> 'w \<Rightarrow> 'w \<Rightarrow> bool"
  for rt m tab log rest plain where
  serve: "svc_ticketsManager svc = tickets_of rt m \<Longrightarrow> sends_aside tab log svr \<Longrightarrow>
    (\<And>v. manager_calls rt m tab log v (gap v)) \<Longrightarrow>
    (\<And>g v. SubStep g \<in> set evs \<Longrightarrow> manager_calls rt m tab log v (g v)) \<Longrightarrow>
    Service_Match rt svc req svr gap evs w = (rs, w') \<Longrightarrow>
    service_step rt m tab log rest plain w w'"
| accumulate: "accumulator_env rt m tab log rest plain acc \<Longrightarrow> acc_step rt acc ev a w = (ra, w') \<Longrightarrow>
    service_step rt m tab log rest plain w w'"
| match_batch: "matcher_env rt m tab log rest plain mat \<Longrightarrow>
    proposes_fresh rt m log (mat_customLogic mat) w \<Longrightarrow>
    Matcher_delivery rt mat data w = (rm, w') \<Longrightarrow> service_step rt m tab log rest plain w w'"
| dispense: "dispenser_env rt m tab log rest plain dis \<Longrightarrow> announced (log w) data \<Longrightarrow>
    Dispenser_delivery rt dis ctx data w = (rd, w') \<Longrightarrow> service_step rt m tab log rest plain w w'"
| single: "manager_call rt m tab log w w' \<Longrightarrow> service_step rt m tab log rest plain w w'"

abbreviation service_steps where
  "service_steps rt m tab log rest plain \<equiv> (service_step rt m tab log rest plain)\<^sup>*\<^sup>*"

context matches_env
begin

lemma service_step_sys_inv:
  assumes "service_step rt m tab log rest plain w w'" and "sys_inv w"
  shows "sys_inv w'"
  using assms(1)
proof cases
  case (serve svc svr gap evs req rs)
  show ?thesis
    by (rule Service_Match_sys_inv [OF serve(5) assms(2) serve(1,2)]) (rule serve(3), erule serve(4))
next
  case (accumulate acc ev a ra)
  from accumulator_env.acc_step_ticket_call [OF accumulate] sys_inv_ticket [OF assms(2)] assms(2)
  show ?thesis by auto
next
  case (match_batch mat data rm)
  from matcher_env.Matcher_delivery_sys_inv [OF match_batch(1,3) assms(2) match_batch(2)] show ?thesis .
next
  case (dispense dis data ctx rd)
  from dispenser_env.Dispenser_delivery_sys_inv [OF dispense(1,3) assms(2) dispense(2)] show ?thesis .
next
  case single
  from sys_inv_call [OF assms(2) single] show ?thesis .
qed

lemma service_steps_sys_inv: "service_steps rt m tab log rest plain w w' \<Longrightarrow> sys_inv w \<Longrightarrow> sys_inv w'"
  by (induction rule: rtranclp_induct) (auto dest: service_step_sys_inv)

lemma service_steps_disjoint:
  assumes "service_steps rt m tab log rest plain w w'"
    and "tickets_wf rt (tab w)" and "matches_wf rt (tab w) (log w)"
    and "announced (log w') k" and "announced (log w') k'" and "k \<noteq> k'"
    and "match_at rt (tab w') k = Some mt" and "match_at rt (tab w') k' = Some mt'"
  shows "match_MatchId mt = k \<and>
    (\<forall>i \<in> set (match_MatchRequestIds mt). tab w' collectionTicketAssignments i = Some k) \<and>
    set (match_MatchRequestIds mt) \<inter> set (match_MatchRequestIds mt') = {}"
proof -
  from service_steps_sys_inv [OF assms(1)] assms(2,3) have wf: "matches_wf rt (tab w') (log w')"
    by (simp add: sys_inv_def)
  then have "match_MatchId mt = k"
    and "\<forall>i \<in> set (match_MatchRequestIds mt). tab w' collectionTicketAssignments i = Some k"
    using assms(4,7) by (simp_all add: matches_wf_def)
  with matches_wf_disjoint [OF wf assms(4-)] show ?thesis by blast
qed

text \<open>Calls of the ticket manager announce no match.\<close>

lemma ticket_calls_announced:
  assumes "(ticket_call rt m {})\<^sup>*\<^sup>* w v" and "tickets_wf rt (tab w)"
  shows "tickets_wf rt (tab v) \<and> (announced (log v) k \<longleftrightarrow> announced (log w) k)"
  using assms by (induction rule: rtranclp_induct) (auto dest: ticket_call_wf ticket_call_frame)

end

end
