(* ===== verification/Dlm.thy ===== *)
theory Dlm
  imports Prelude
begin

text \<open>
  \<open>internal/dlm\<close>: the lock manager interface and its implementation over redsync, which is a
  parameter: \<open>NewMutex\<close> returns a handle, \<open>Lock\<close> and \<open>Unlock\<close> act through a handle. The locale
  \<open>redsync_library\<close> states what the library documents: a handle locks under the name it was
  made for, and unlocks only the lock that it holds itself.
\<close>

record 'w redsync =
  rs_NewMutex :: "string \<Rightarrow> duration option \<Rightarrow> 'w \<Rightarrow> nat \<times> 'w"
  rs_Lock :: "nat \<Rightarrow> 'w \<Rightarrow> error option \<times> 'w"
  rs_Unlock :: "nat \<Rightarrow> 'w \<Rightarrow> (bool \<times> error option) \<times> 'w"

record 'w RedisDLM =
  dlm_redSync :: "'w redsync"
  dlm_prefix :: string

definition NewRedisDLM :: "'w redsync \<Rightarrow> string \<Rightarrow> 'w RedisDLM" where
  "NewRedisDLM redSync pfx = \<lparr>dlm_redSync = redSync, dlm_prefix = pfx\<rparr>"

definition RedisDLM_Lock :: "'w RedisDLM \<Rightarrow> string \<Rightarrow> duration \<Rightarrow> ('w, error option) proc" where
  "RedisDLM_Lock r name expiry =
    go_bind (call (rs_NewMutex (dlm_redSync r) (dlm_prefix r @ '':'' @ name) (Some expiry))) (\<lambda>mutex.
      call (rs_Lock (dlm_redSync r) mutex))"

definition RedisDLM_Unlock :: "'w RedisDLM \<Rightarrow> string \<Rightarrow> ('w, bool \<times> error option) proc" where
  "RedisDLM_Unlock r name =
    go_bind (call (rs_NewMutex (dlm_redSync r) (dlm_prefix r @ '':'' @ name) None)) (\<lambda>mutex.
      call (rs_Unlock (dlm_redSync r) mutex))"

text \<open>The interface.\<close>

record 'w DLM =
  DLM_Lock :: "string \<Rightarrow> duration \<Rightarrow> ('w, error option) proc"
  DLM_Unlock :: "string \<Rightarrow> ('w, bool \<times> error option) proc"

definition RedisDLM_DLM :: "'w RedisDLM \<Rightarrow> 'w DLM" where
  "RedisDLM_DLM r = \<lparr>DLM_Lock = RedisDLM_Lock r, DLM_Unlock = RedisDLM_Unlock r\<rparr>"

text \<open>
  \<open>holder w n\<close> is the handle that holds the lock \<open>n\<close>, \<open>name_of h\<close> the name a handle was made for.
\<close>

locale redsync_library =
  fixes S :: "'w redsync" and holder :: "'w \<Rightarrow> string \<rightharpoonup> nat" and name_of :: "'w \<Rightarrow> nat \<Rightarrow> string"
  assumes new_mutex: "rs_NewMutex S n d w = (h, w') \<Longrightarrow>
      holder w' = holder w \<and> name_of w' h = n \<and> h \<notin> ran (holder w)"
    and lock: "rs_Lock S h w = (e, w') \<Longrightarrow>
      (e = None \<longrightarrow> holder w (name_of w h) = None \<and> holder w' = (holder w)(name_of w h \<mapsto> h)) \<and>
      (e \<noteq> None \<longrightarrow> holder w' = holder w)"
    and unlock: "rs_Unlock S h w = ((ok, u), w') \<Longrightarrow>
      holder w' = (if ok then (holder w)(name_of w h := None) else holder w) \<and>
      (ok \<longrightarrow> holder w (name_of w h) = Some h)"
begin

lemma Unlock_releases_nothing:
  assumes "dlm_redSync r = S" and "RedisDLM_Unlock r name w = (q, w')"
  shows "holder w' = holder w \<and> (\<exists>e. q = Ret (False, e))"
proof -
  obtain h w1 where n: "rs_NewMutex S (dlm_prefix r @ '':'' @ name) None w = (h, w1)" by force
  obtain ok e w2 where u: "rs_Unlock S h w1 = ((ok, e), w2)" by (metis prod.exhaust)
  from new_mutex [OF n] have "holder w1 (name_of w1 h) \<noteq> Some h" by (auto simp: ran_def)
  with unlock [OF u] have "\<not> ok" "holder w2 = holder w1" by auto
  moreover have "RedisDLM_Unlock r name w = (Ret (ok, e), w2)"
    using n u by (simp add: RedisDLM_Unlock_def go_bind_call assms(1) call_eq)
  ultimately show ?thesis using assms(2) new_mutex [OF n] by simp
qed

lemma Lock_excludes:
  assumes "dlm_redSync r = S" and "RedisDLM_Lock r name d w = (q, w')"
  shows "\<exists>e. q = Ret e \<and> (if e = None
    then holder w (dlm_prefix r @ '':'' @ name) = None \<and> holder w' (dlm_prefix r @ '':'' @ name) \<noteq> None
    else holder w' = holder w)"
proof -
  obtain h w1 where n: "rs_NewMutex S (dlm_prefix r @ '':'' @ name) (Some d) w = (h, w1)" by force
  obtain e w2 where l: "rs_Lock S h w1 = (e, w2)" by force
  have "RedisDLM_Lock r name d w = (Ret e, w2)"
    using n l by (simp add: RedisDLM_Lock_def go_bind_call assms(1) call_eq)
  with assms(2) new_mutex [OF n] lock [OF l] show ?thesis by (cases e) auto
qed

end

text \<open>A lock server in memory, without expiry: it meets the contract.\<close>

record lock_world =
  lw_names :: "(nat \<times> string) list"
  lw_holders :: "(string \<times> nat) list"

definition lock_holder :: "lock_world \<Rightarrow> string \<rightharpoonup> nat" where
  "lock_holder w = map_of (lw_holders w)"

definition lock_name :: "lock_world \<Rightarrow> nat \<Rightarrow> string" where
  "lock_name w h = (case map_of (lw_names w) h of Some n \<Rightarrow> n | None \<Rightarrow> [])"

text \<open>A handle that no lock is held by.\<close>

definition fresh_handle :: "lock_world \<Rightarrow> nat" where
  "fresh_handle w = Suc (sum_list (map snd (lw_holders w)))"

definition mem_redsync :: "lock_world redsync" where
  "mem_redsync =
    \<lparr>rs_NewMutex = (\<lambda>n d w. (fresh_handle w, w\<lparr>lw_names := (fresh_handle w, n) # lw_names w\<rparr>)),
     rs_Lock = (\<lambda>h w. if lock_holder w (lock_name w h) = None
       then (None, w\<lparr>lw_holders := (lock_name w h, h) # lw_holders w\<rparr>)
       else (Some (ErrExt ''redsync: failed to acquire lock''), w)),
     rs_Unlock = (\<lambda>h w. if lock_holder w (lock_name w h) = Some h
       then ((True, None), w\<lparr>lw_holders := filter (\<lambda>(n, _). n \<noteq> lock_name w h) (lw_holders w)\<rparr>)
       else ((False, Some (ErrExt ''redsync: failed to unlock'')), w))\<rparr>"

lemma fresh_handle_free: "fresh_handle w \<notin> ran (lock_holder w)"
proof
  assume "fresh_handle w \<in> ran (lock_holder w)"
  then obtain n where "map_of (lw_holders w) n = Some (fresh_handle w)"
    by (auto simp: ran_def lock_holder_def)
  then have "fresh_handle w \<in> set (map snd (lw_holders w))" by (force dest: map_of_SomeD)
  from member_le_sum_list [OF this] show False by (simp add: fresh_handle_def)
qed

lemma map_of_filter_other: "map_of (filter (\<lambda>(n, _). n \<noteq> k) xs) = (map_of xs)(k := None)"
  by (induction xs) (auto simp: fun_eq_iff)

interpretation mem_redsync: redsync_library mem_redsync lock_holder lock_name
proof
  fix n d w h w'
  assume "rs_NewMutex mem_redsync n d w = (h, w')"
  then show "lock_holder w' = lock_holder w \<and> lock_name w' h = n \<and> h \<notin> ran (lock_holder w)"
    using fresh_handle_free [of w] by (auto simp: mem_redsync_def lock_holder_def lock_name_def)
next
  fix h w e w'
  assume "rs_Lock mem_redsync h w = (e, w')"
  then show "(e = None \<longrightarrow> lock_holder w (lock_name w h) = None \<and>
        lock_holder w' = (lock_holder w)(lock_name w h \<mapsto> h)) \<and>
      (e \<noteq> None \<longrightarrow> lock_holder w' = lock_holder w)"
    by (auto simp: mem_redsync_def lock_holder_def split: if_splits)
next
  fix h w ok u w'
  assume "rs_Unlock mem_redsync h w = ((ok, u), w')"
  then show "lock_holder w' = (if ok then (lock_holder w)(lock_name w h := None) else lock_holder w) \<and>
      (ok \<longrightarrow> lock_holder w (lock_name w h) = Some h)"
    by (auto simp: mem_redsync_def lock_holder_def map_of_filter_other split: if_splits)
qed

text \<open>\<open>Unlock\<close> never releases a lock. It makes a mutex of its own for the name, and a mutex only
  unlocks what it locked itself: the answer is \<open>false\<close> and every lock stays held until it
  expires, the one that the same manager took with \<open>Lock\<close> included.\<close>

theorem unlock_releases_nothing:
  assumes "redsync_library S holder name_of" and "dlm_redSync r = S"
    and "RedisDLM_Unlock r name w = (q, w')"
  shows "holder w' = holder w \<and> (\<exists>e. q = Ret (False, e))"
  using redsync_library.Unlock_releases_nothing [OF assms] .

definition sample_dlm :: "lock_world RedisDLM" where
  "sample_dlm = NewRedisDLM mem_redsync ''prefix''"

text \<open>Lock and unlock, as in the test of the package: the lock is still held.\<close>

theorem unlock_releases_nothing_witness:
  "\<exists>w1 w2 e. RedisDLM_Lock sample_dlm ''name'' 500 \<lparr>lw_names = [], lw_holders = []\<rparr> = (Ret None, w1) \<and>
    RedisDLM_Unlock sample_dlm ''name'' w1 = (Ret (False, e), w2) \<and>
    lock_holder w2 ''prefix:name'' \<noteq> None"
proof -
  have r: "dlm_redSync sample_dlm = mem_redsync" by (simp add: sample_dlm_def NewRedisDLM_def)
  let ?w1 = "\<lparr>lw_names = [(1, ''prefix:name'')], lw_holders = [(''prefix:name'', 1)]\<rparr>"
  have "RedisDLM_Lock sample_dlm ''name'' 500 \<lparr>lw_names = [], lw_holders = []\<rparr> = (Ret None, ?w1)"
    by (simp add: RedisDLM_Lock_def go_bind_call call_apply sample_dlm_def NewRedisDLM_def
        mem_redsync_def fresh_handle_def lock_holder_def lock_name_def)
  moreover obtain q w2 where u: "RedisDLM_Unlock sample_dlm ''name'' ?w1 = (q, w2)" by force
  moreover have "lock_holder ?w1 ''prefix:name'' \<noteq> None" by (simp add: lock_holder_def)
  ultimately show ?thesis
    using unlock_releases_nothing [OF mem_redsync.redsync_library_axioms r u] by metis
qed

end
