(* ===== verification/Commands_Properties.thy ===== *)
theory Commands_Properties
  imports Commands Client_Properties Pairs
begin

text \<open>
  The properties of the commands: which topics the processes wait on and with which clients, and
  when \<open>Stop\<close> returns.
\<close>

section \<open>What a run does to the shared variables\<close>

text \<open>A run that starts with variables of \<open>P\<close> ends, if it returns, with a result and variables of \<open>Q\<close>.\<close>

definition cmd_spec :: "(cmd_vars \<Rightarrow> bool) \<Rightarrow> ('w \<times> cmd_vars, 'a) proc \<Rightarrow> ('a \<Rightarrow> cmd_vars \<Rightarrow> bool) \<Rightarrow> bool" where
  "cmd_spec P f Q \<longleftrightarrow> (\<forall>s e s'. f s = (Ret e, s') \<longrightarrow> P (snd s) \<longrightarrow> Q e (snd s'))"

named_theorems cmd_intros

lemma cmd_specD: "cmd_spec P f Q \<Longrightarrow> f (w, v) = (Ret e, (w', v')) \<Longrightarrow> P v \<Longrightarrow> Q e v'"
  unfolding cmd_spec_def by (metis snd_conv)

lemma cmd_spec_call:
  assumes "\<And>x w w'. f w = (x, w') \<Longrightarrow> cmd_spec P (k x) Q"
  shows "cmd_spec P (go_bind (no_capture (call f)) k) Q"
  unfolding cmd_spec_def
proof (intro allI impI)
  fix s e s'
  assume f: "go_bind (no_capture (call f)) k s = (Ret e, s')" and a: "P (snd s)"
  obtain x w1 where x: "f (fst s) = (x, w1)" by force
  then have "no_capture (call f) s = (Ret x, (w1, snd s))"
    by (cases s) (simp add: no_capture_def call_def)
  with f have "k x (w1, snd s) = (Ret e, s')" by (simp add: go_bind_Ret)
  with assms [OF x] a show "Q e (snd s')" unfolding cmd_spec_def by (metis snd_conv)
qed

lemma cmd_spec_operation [cmd_intros]:
  "(\<And>x. cmd_spec P (k x) Q) \<Longrightarrow> cmd_spec P (go_bind (no_capture m) k) Q"
  unfolding cmd_spec_def
proof (intro allI impI)
  fix s e s'
  assume k: "\<And>x. \<forall>s e s'. k x s = (Ret e, s') \<longrightarrow> P (snd s) \<longrightarrow> Q e (snd s')"
    and f: "go_bind (no_capture m) k s = (Ret e, s')" and a: "P (snd s)"
  from f show "Q e (snd s')"
  proof (cases rule: go_bind_cases)
    case (ret x s1)
    from ret(1) have "snd s1 = snd s" by (cases s; cases s1) (simp add: no_capture_iff)
    with k ret(2) a show ?thesis by metis
  qed simp_all
qed

lemma cmd_spec_set_Stop [cmd_intros]:
  "cmd_spec (\<lambda>v. v = \<lparr>cmd_wg = 1, cmd_Stop = f\<rparr>) (k ()) Q \<Longrightarrow> cmd_spec P (go_bind (set_Stop f) k) Q"
  by (auto simp: cmd_spec_def set_Stop_def go_bind_def)

lemma cmd_spec_Done [cmd_intros]:
  "(\<And>v. P v \<Longrightarrow> Q e (v\<lparr>cmd_wg := cmd_wg v - 1\<rparr>)) \<Longrightarrow> cmd_spec P (go_bind wg_Done (\<lambda>_. go_return e)) Q"
  by (auto simp: cmd_spec_def wg_Done_def go_bind_def)

lemma cmd_spec_return [cmd_intros]: "(\<And>v. P v \<Longrightarrow> Q e v) \<Longrightarrow> cmd_spec P (go_return e) Q"
  by (auto simp: cmd_spec_def)

lemma cmd_spec_panic [cmd_intros]: "cmd_spec P (go_panic p) Q"
  by (auto simp: cmd_spec_def)

lemma cmd_spec_defer [cmd_intros]: "cmd_spec P f Q \<Longrightarrow> cmd_spec P (with_defer (no_capture d) f) Q"
  unfolding cmd_spec_def
proof (intro allI impI)
  fix s e s'
  assume f: "\<forall>s e s'. f s = (Ret e, s') \<longrightarrow> P (snd s) \<longrightarrow> Q e (snd s')"
    and d: "with_defer (no_capture d) f s = (Ret e, s')" and a: "P (snd s)"
  obtain r w1 v1 where r: "f s = (r, (w1, v1))" by (metis prod.exhaust)
  obtain u w2 where u: "d w1 = (u, w2)" by force
  then have "no_capture d (w1, v1) = (u, (w2, v1))" by (rule no_capture_eq)
  with d r have "r = Ret e \<and> s' = (w2, v1)" by (cases r; cases u) (simp_all add: with_defer_def)
  with f r a show "Q e (snd s')" by (metis snd_conv)
qed

lemmas RunE_defs = accumulator_RunE_def matcher_RunE_def dispenser_RunE_def frontend_RunE_def Let_def

definition zero_wg :: "error option \<Rightarrow> cmd_vars \<Rightarrow> bool" where
  "zero_wg e v \<longleftrightarrow> cmd_wg v = 0"

lemma RunE_zero:
  "cmd_spec (\<lambda>v. cmd_wg v = 0) (accumulator_RunE h fl) zero_wg"
  "cmd_spec (\<lambda>v. cmd_wg v = 0) (dispenser_RunE h fl) zero_wg"
  "cmd_spec (\<lambda>v. cmd_wg v = 0) (frontend_RunE h fl) zero_wg"
  by (auto simp: RunE_defs zero_wg_def intro!: cmd_intros split: prod.split sum.split)

lemma call_Stop_zero:
  assumes "cmd_wg v = 0" and "cmd_Stop v \<noteq> StopNil" and "\<forall>y. snd (g (y, v)) = v"
  shows "\<exists>w2. call_Stop h g (w1, v) = (Ret (), (w2, v))"
  using assms by (cases "cmd_Stop v") (auto simp: call_Stop_def Let_def prod_eq_iff)

text \<open>The matcher dials when the counter is already set: what happens then decides.\<close>

lemma cmd_spec_dial:
  assumes "\<And>w. \<exists>w'. f w = (c, w')" and "cmd_spec P (k c) Q"
  shows "cmd_spec P (go_bind (no_capture (call f)) k) Q"
  by (rule cmd_spec_call) (metis assms Pair_inject)

lemma matcher_spec:
  assumes "\<And>w. \<exists>w'. host_Dial h (GetString fl ''matchmaker_target'') w = (c, w')"
    and "\<And>ctx matcher err. c = Inl err \<Longrightarrow>
      Q (Some (ErrWrap ''failed to connect to assignment service'' err)) \<lparr>cmd_wg = 1, cmd_Stop = StopContext ctx\<rparr>"
    and "\<And>ctx e. \<exists>conn. c = Inr conn \<Longrightarrow> Q e \<lparr>cmd_wg = 0, cmd_Stop = StopContext ctx\<rparr>"
  shows "cmd_spec P (matcher_RunE h fl) Q"
  unfolding RunE_defs
  by (rule cmd_spec_operation, simp split: prod.split, intro allI impI, rule cmd_spec_defer,
      rule cmd_spec_operation, rule cmd_spec_set_Stop, rule cmd_spec_dial [OF assms(1)])
    (use assms(2,3) in \<open>auto intro!: cmd_intros split: sum.split\<close>)

lemma matcher_dialled:
  assumes "\<And>w. \<exists>w'. host_Dial h (GetString fl ''matchmaker_target'') w = (Inr c, w')"
  shows "cmd_spec (\<lambda>v. cmd_wg v = 0) (matcher_RunE h fl) zero_wg"
  by (rule matcher_spec [OF assms]) (auto simp: zero_wg_def)

lemma matcher_not_dialled:
  assumes "\<And>w. \<exists>w'. host_Dial h (GetString fl ''matchmaker_target'') w = (Inl err, w')"
  shows "cmd_spec P (matcher_RunE h fl) (\<lambda>e v. e = Some (ErrWrap ''failed to connect to assignment service'' err) \<and>
    (\<exists>ctx. v = \<lparr>cmd_wg = 1, cmd_Stop = StopContext ctx\<rparr>))"
  by (rule matcher_spec [OF assms]) auto

section \<open>What a process waits on\<close>

definition subscribes :: "'w nats_Conn \<Rightarrow> bool" where
  "subscribes nc \<longleftrightarrow> (\<forall>t g w. \<exists>n w'. nc_QueueSubscribe nc t g w = (Inr n, w'))"

text \<open>Dialling the target works, and ends no context.\<close>

definition dials :: "'w host \<Rightarrow> string \<Rightarrow> bool" where
  "dials h t \<longleftrightarrow> (\<forall>w. \<exists>c w'. host_Dial h t w = (Inr c, w') \<and>
    (\<forall>ctx. rt_done (host_rt h) ctx w' = rt_done (host_rt h) ctx w))"

text \<open>
  The command \<open>run\<close> ends up waiting for its context, the one of \<open>Stop\<close>, right after the stream client \<open>S\<close>
  has subscribed to the topic \<open>t\<close>.
\<close>

definition waits_on :: "('w \<times> cmd_vars, error option) proc \<Rightarrow> 'w runtime \<Rightarrow> 'w stream_Client \<Rightarrow> string \<Rightarrow> 'w \<Rightarrow> bool" where
  "waits_on run rt S t w \<longleftrightarrow>
    (\<exists>ctx w1 w2. run (w, cmd_vars0) = (Blocked, (w2, \<lparr>cmd_wg = 1, cmd_Stop = StopContext ctx\<rparr>)) \<and>
      stream_Subscribe S t w1 = (Ret None, w2) \<and> \<not> rt_done rt ctx w2)"

text \<open>The composition of the development over the connections of a process.\<close>

definition host_tickets :: "'w host \<Rightarrow> 'w nats_Conn \<Rightarrow> flags \<Rightarrow> 'w tickets_manager" where
  "host_tickets h nc fl = deployed_tickets_manager (host_rt h)
     (host_NewClient h (if GetBool fl ''redis_unix'' then ''unix'' else ''tcp'') (GetString fl ''redis_addr''))
     nc ''om'' ''om'' (host_subs h) (host_set_subs h)"

locale connected_host =
  go_runtime "host_rt h" "\<lambda>_. ()" +
  nats_stream nc log "\<lambda>w c. rt_done (host_rt h) c w" "''om''" "host_subs h" "host_set_subs h"
  for h :: "'w host" and nc :: "'w nats_Conn" and log :: "'w \<Rightarrow> message_log" +
  assumes connects: "\<exists>w'. host_Connect h url w = (Inr nc, w')"
    and nc_subscribes: "subscribes nc"
begin

lemma open_clients_connected:
  "\<exists>w'. open_clients h fl w =
    (Ret (tm_kvStore (host_tickets h nc fl), tm_streamClient (host_tickets h nc fl), tm_pubsubClient (host_tickets h nc fl)), w')"
proof -
  let ?url = "GetString fl ''nats_addr''"
  obtain w1 where w1: "host_Connect h ?url w = (Inr nc, w1)" using connects by blast
  obtain w2 where w2: "host_Connect h ?url w1 = (Inr nc, w2)" using connects by blast
  from w1 w2 show ?thesis
    by (simp add: open_clients_def open_store_def Let_def stream_NewNATS_def pubsub_NewNATS_def
        go_bind_def call_apply host_tickets_def
        deployed_tickets_manager_def)
qed

lemma subscribe_live:
  assumes "\<not> rt_done (host_rt h) ctx w"
  shows "\<exists>w'. stream_Subscribe (tm_streamClient (host_tickets h nc fl)) t w = (Ret None, w') \<and> \<not> rt_done (host_rt h) ctx w'"
proof -
  obtain n w1 where q: "nc_QueueSubscribe nc t ''om'' w = (Inr n, w1)"
    using nc_subscribes unfolding subscribes_def by blast
  from nc_queue_subscribe [OF q] assms have "\<not> rt_done (host_rt h) ctx w1" by (metis (full_types))
  with fun_cong [OF set_subs_frame(1)] q show ?thesis
    by (simp add: host_tickets_def deployed_tickets_manager_def stream_NATS_Client_def stream_NATS_Subscribe_def go_bind_call)
qed

text \<open>The step that the three services end with.\<close>

lemma waits:
  assumes "\<And>w. \<not> rt_done (host_rt h) ctx w \<Longrightarrow> run w = go_bind (stream_Subscribe (tm_streamClient (host_tickets h nc fl)) t)
      (\<lambda>err. case err of Some e \<Rightarrow> go_return (Some e)
         | None \<Rightarrow> (\<lambda>w. if rt_done (host_rt h) ctx w then (Ret None, w) else (Blocked, w))) w"
    and "\<not> rt_done (host_rt h) ctx w1"
  shows "\<exists>w2. run w1 = (Blocked, w2) \<and> stream_Subscribe (tm_streamClient (host_tickets h nc fl)) t w1 = (Ret None, w2) \<and>
    \<not> rt_done (host_rt h) ctx w2"
proof -
  from subscribe_live [OF assms(2)] obtain w2 where
    "stream_Subscribe (tm_streamClient (host_tickets h nc fl)) t w1 = (Ret None, w2)" "\<not> rt_done (host_rt h) ctx w2"
    by blast
  with assms show ?thesis by (simp add: go_bind_Ret)
qed

lemma accumulator_waits:
  assumes "0 <s GetInt64 fl ''max_delay'' * (1000000 :: int64)"
  shows "waits_on (accumulator_RunE h fl) (host_rt h) (tm_streamClient (host_tickets h nc fl))
    (GetMatchRequestTopic (GetString fl ''queue'')) w"
proof -
  obtain w1 where o: "open_clients h fl w =
    (Ret (tm_kvStore (host_tickets h nc fl), tm_streamClient (host_tickets h nc fl), tm_pubsubClient (host_tickets h nc fl)), w1)"
    using open_clients_connected by blast
  obtain ctx w2 where c: "rt_WithCancel (host_rt h) w1 = (ctx, w2)" by force
  let ?config = "accumulator_config (GetInt64 fl ''max_tickets'') (GetInt64 fl ''max_delay'')"
  let ?acc = "\<lparr>acc_matchmakingQueue = GetString fl ''queue'', acc_ticketsManager = tickets_of (host_rt h) (host_tickets h nc fl),
    acc_config = ?config, acc_ctx = ctx\<rparr>"
  have n: "\<exists>a0. NewAccumulator ctx (GetString fl ''queue'') (tickets_of (host_rt h) (host_tickets h nc fl)) ?config w2 =
      (Ret (?acc, a0), w2)"
    using assms by (simp add: NewAccumulator_def NewTicker_def accumulator_config_def word_sless_alt word_sle_eq)
  have r: "\<exists>w3. Accumulator_Run (host_rt h) ?acc w2 = (Blocked, w3) \<and>
      stream_Subscribe (tm_streamClient (host_tickets h nc fl)) (GetMatchRequestTopic (GetString fl ''queue'')) w2 = (Ret None, w3) \<and>
      \<not> rt_done (host_rt h) ctx w3"
    unfolding Accumulator_Run_def accumulator.select_convs
    by (rule waits) (simp_all add: StreamMatchRequests_def WithCancel_live [OF c])
  from n r o c show ?thesis
    by (auto simp: waits_on_def accumulator_RunE_def Let_def go_bind_def no_capture_def call_def with_defer_def
        set_Stop_def cmd_vars0_def tickets_of_def [symmetric])
qed

lemma host_managers:
  "tickets_NewManager (host_rt h) (tm_kvStore (host_tickets h nc fl)) (tm_streamClient (host_tickets h nc fl))
    (tm_pubsubClient (host_tickets h nc fl)) = tickets_of (host_rt h) (host_tickets h nc fl)"
  "matches_NewManager (host_rt h) (tickets_of (host_rt h) (host_tickets h nc fl))
    (tm_kvStore (host_tickets h nc fl)) (tm_streamClient (host_tickets h nc fl)) =
    matches_of (host_rt h) (host_tickets h nc fl)"
  by (simp_all add: tickets_of_def matches_of_def)

lemma matcher_waits:
  assumes "dials h (GetString fl ''matchmaker_target'')"
  shows "waits_on (matcher_RunE h fl) (host_rt h) (tm_streamClient (host_tickets h nc fl))
    (GetAccumulatedMatchRequestTopic (GetString fl ''queue'')) w"
proof -
  obtain w1 where o: "open_clients h fl w = (Ret (tm_kvStore (host_tickets h nc fl),
      tm_streamClient (host_tickets h nc fl), tm_pubsubClient (host_tickets h nc fl)), w1)"
    using open_clients_connected by blast
  obtain ctx w2 where c: "rt_WithCancel (host_rt h) w1 = (ctx, w2)" by force
  obtain conn w3 where d: "host_Dial h (GetString fl ''matchmaker_target'') w2 = (Inr conn, w3)"
    "\<not> rt_done (host_rt h) ctx w3"
    using assms WithCancel_live [OF c] unfolding dials_def by metis
  let ?m = "NewMatcher ctx (GetString fl ''queue'') (tickets_of (host_rt h) (host_tickets h nc fl))
    (matches_of (host_rt h) (host_tickets h nc fl)) (host_MatchMakerServiceClient h conn)"
  have r: "\<exists>w4. Matcher_Run (host_rt h) ?m w3 = (Blocked, w4) \<and>
      stream_Subscribe (tm_streamClient (host_tickets h nc fl))
        (GetAccumulatedMatchRequestTopic (GetString fl ''queue'')) w3 = (Ret None, w4) \<and>
      \<not> rt_done (host_rt h) ctx w4"
    unfolding Matcher_Run_def NewMatcher_def matcher.select_convs
    by (rule waits) (simp_all add: StreamAccumulatedMatchRequests_def d(2))
  from r o c d(1) show ?thesis
    by (auto simp: waits_on_def matcher_RunE_def Let_def go_bind_def no_capture_def call_def with_defer_def
        set_Stop_def cmd_vars0_def host_managers)
qed

lemma dispenser_waits:
  assumes "dials h (GetString fl ''assignment_target'')"
  shows "waits_on (dispenser_RunE h fl) (host_rt h) (tm_streamClient (host_tickets h nc fl))
    GetUnassignedMatchesTopic w"
proof -
  obtain conn w0 where d: "host_Dial h (GetString fl ''assignment_target'') w = (Inr conn, w0)"
    using assms unfolding dials_def by blast
  obtain w1 where o: "open_clients h fl w0 = (Ret (tm_kvStore (host_tickets h nc fl),
      tm_streamClient (host_tickets h nc fl), tm_pubsubClient (host_tickets h nc fl)), w1)"
    using open_clients_connected by blast
  obtain ctx w2 where c: "rt_WithCancel (host_rt h) w1 = (ctx, w2)" by force
  let ?d = "NewDispenser (matches_of (host_rt h) (host_tickets h nc fl))
    (tickets_of (host_rt h) (host_tickets h nc fl)) (host_AssignmentServiceClient h conn)"
  have r: "\<exists>w3. Dispenser_Run (host_rt h) ?d ctx w2 = (Blocked, w3) \<and>
      stream_Subscribe (tm_streamClient (host_tickets h nc fl)) GetUnassignedMatchesTopic w2 = (Ret None, w3) \<and>
      \<not> rt_done (host_rt h) ctx w3"
    unfolding Dispenser_Run_def NewDispenser_def dispenser.select_convs
    by (rule waits) (simp_all add: StreamMatches_def WithCancel_live [OF c])
  from r o c d show ?thesis
    by (auto simp: waits_on_def dispenser_RunE_def Let_def go_bind_def no_capture_def call_def with_defer_def
        set_Stop_def cmd_vars0_def host_managers)
qed

end

section \<open>Properties\<close>

text \<open>A host over the platform in memory.\<close>

definition mem_host :: "faults \<Rightarrow> world host" where
  "mem_host f =
    \<lparr>host_rt = mem_runtime, host_NewClient = (\<lambda>network addr. mem_redis f), host_Connect = mem_connect f,
     host_subs = w_subs, host_set_subs = set_w_subs,
     host_Dial = (\<lambda>t w. (if f ''DIAL'' = Works then Inr 0 else Inl (ErrExt ''dial''), w)),
     host_MatchMakerServiceClient = (\<lambda>_. pairs_client mem_runtime),
     host_AssignmentServiceClient = (\<lambda>_. FakeServer_MakeAssignment (\<lambda>n w. (0, w))),
     host_Listen = (\<lambda>a w. (Inr 0, w)),
     host_Serve = (\<lambda>s ln w. (Ret None, w)),
     host_GracefulStop = (\<lambda>w. w)\<rparr>"

lemma mem_host_simps [simp]:
  "host_rt (mem_host f) = mem_runtime" "host_subs (mem_host f) = w_subs"
  "host_set_subs (mem_host f) = set_w_subs"
  by (simp_all add: mem_host_def)

interpretation mem_host: connected_host "mem_host all_works" "mem_nats all_works" w_log
proof -
  have "nats_stream (mem_nats all_works) w_log (\<lambda>w c. rt_done mem_runtime c w) set_w_subs"
    by unfold_locales (auto simp: mem_nats_def mem_runtime_def set_w_subs_def fun_eq_iff)
  moreover have "go_runtime mem_runtime (\<lambda>_. ())"
    using mem_runtime.go_runtime_axioms unfolding go_runtime_def by simp
  ultimately show "connected_host (mem_host all_works) (mem_nats all_works) w_log"
    unfolding connected_host_def connected_host_axioms_def
    by (simp add: mem_host_def mem_connect_def subscribes_def mem_nats_def)
qed

text \<open>The commands put the services together. With its connections up, the accumulator ends up
  subscribed to the requests of the queue of its flag, the matcher to the accumulated batches of its
  queue and the dispenser to the unassigned matches, each through the stream client of the
  composition that the other properties are about, with the context of \<open>Stop\<close> alive and the
  wait group at one.\<close>

theorem commands_deploy:
  assumes "connected_host h nc log"
  shows "(0 <s GetInt64 fl ''max_delay'' * 1000000 \<longrightarrow>
      waits_on (accumulator_RunE h fl) (host_rt h) (tm_streamClient (host_tickets h nc fl))
        (GetMatchRequestTopic (GetString fl ''queue'')) w) \<and>
    (dials h (GetString fl ''matchmaker_target'') \<longrightarrow>
      waits_on (matcher_RunE h fl) (host_rt h) (tm_streamClient (host_tickets h nc fl))
        (GetAccumulatedMatchRequestTopic (GetString fl ''queue'')) w) \<and>
    (dials h (GetString fl ''assignment_target'') \<longrightarrow>
      waits_on (dispenser_RunE h fl) (host_rt h) (tm_streamClient (host_tickets h nc fl))
        GetUnassignedMatchesTopic w)"
  using connected_host.accumulator_waits [OF assms] connected_host.matcher_waits [OF assms]
    connected_host.dispenser_waits [OF assms] by blast

text \<open>With the flags at their defaults.\<close>

theorem commands_deploy_witness:
  "waits_on (accumulator_RunE (mem_host all_works) accumulator_flags) mem_runtime
     (tm_streamClient (host_tickets (mem_host all_works) (mem_nats all_works) accumulator_flags))
     (GetMatchRequestTopic ''default'') world0 \<and>
   waits_on (matcher_RunE (mem_host all_works) accumulator_flags) mem_runtime
     (tm_streamClient (host_tickets (mem_host all_works) (mem_nats all_works) accumulator_flags))
     (GetAccumulatedMatchRequestTopic ''default'') world0 \<and>
   waits_on (dispenser_RunE (mem_host all_works) accumulator_flags) mem_runtime
     (tm_streamClient (host_tickets (mem_host all_works) (mem_nats all_works) accumulator_flags))
     GetUnassignedMatchesTopic world0"
proof -
  have "dials (mem_host all_works) t" for t by (simp add: dials_def mem_host_def)
  moreover have "0 <s GetInt64 accumulator_flags ''max_delay'' * (1000000 :: int64)"
    "GetString accumulator_flags ''queue'' = ''default''"
    by (simp_all add: accumulator_flags_def no_flags_def word_sless_alt)
  ultimately show ?thesis
    using commands_deploy [OF mem_host.connected_host_axioms, of accumulator_flags world0] by simp
qed

text \<open>C38: When a command has returned, \<open>Stop\<close> returns: every way out of \<open>RunE\<close> after \<open>Stop\<close> was set
  leaves the wait group at zero, provided that the matcher reaches its matchmaker.\<close>

theorem stop_returns:
  assumes "run \<in> {accumulator_RunE h fl, matcher_RunE h fl, dispenser_RunE h fl, frontend_RunE h fl}"
    and "\<forall>w. \<exists>w'. host_Dial h (GetString fl ''matchmaker_target'') w = (Inr c, w')"
    and "run (w, cmd_vars0) = (Ret e, (w1, v))" and "cmd_Stop v \<noteq> StopNil"
    and "\<forall>x. snd (g (x, v)) = v"
  shows "\<exists>w2. call_Stop h g (w1, v) = (Ret (), (w2, v))"
proof -
  have "cmd_spec (\<lambda>v. cmd_wg v = 0) run zero_wg"
    using assms(1) RunE_zero matcher_dialled [of h fl c] assms(2) by auto
  from cmd_specD [OF this assms(3)] have "cmd_wg v = 0" by (simp add: cmd_vars0_def zero_wg_def)
  from call_Stop_zero [OF this assms(4,5)] show ?thesis .
qed

theorem stop_returns_witness:
  "\<exists>w1 v w2. frontend_RunE (mem_host all_works) frontend_flags (world0, cmd_vars0) = (Ret None, (w1, v)) \<and>
    cmd_Stop v = StopServer \<and> call_Stop (mem_host all_works) (\<lambda>s. s) (w1, v) = (Ret (), (w2, v))"
proof -
  let ?h = "mem_host all_works"
  have "\<exists>w1. frontend_RunE ?h frontend_flags (world0, cmd_vars0) = (Ret None, (w1, \<lparr>cmd_wg = 0, cmd_Stop = StopServer\<rparr>))"
    by (simp add: frontend_RunE_def mem_host_def open_clients_def stream_NewNATS_def pubsub_NewNATS_def
        mem_connect_def Let_def go_bind_def no_capture_def call_def with_defer_def set_Stop_def wg_Done_def
        cmd_vars0_def Service_Close_def NewService_def tickets_NewManager_def tickets_Close_def open_store_def
        NewRedis_def Redis_Store_def Redis_Close_def mem_redis_def stream_NATS_Client_def stream_NATS_Close_def
        pubsub_NATS_Client_def pubsub_NATS_Close_def mem_nats_def world0_def frontend_flags_def no_flags_def)
  then obtain w1 where r: "frontend_RunE ?h frontend_flags (world0, cmd_vars0) =
    (Ret None, (w1, \<lparr>cmd_wg = 0, cmd_Stop = StopServer\<rparr>))" by blast
  have "\<exists>w2. call_Stop ?h (\<lambda>s. s) (w1, \<lparr>cmd_wg = 0, cmd_Stop = StopServer\<rparr>) =
    (Ret (), (w2, \<lparr>cmd_wg = 0, cmd_Stop = StopServer\<rparr>))"
    by (rule stop_returns [where run = "frontend_RunE ?h frontend_flags" and h = ?h and fl = frontend_flags
          and c = 0, OF _ _ r]) (simp_all add: mem_host_def)
  with r show ?thesis by (metis cmd_vars.select_convs(2))
qed

text \<open>
  The matcher sets \<open>Stop\<close> before it dials: when dialling fails, \<open>RunE\<close> returns without \<open>wg.Done\<close>, and
  \<open>Stop\<close> waits forever.
\<close>

lemma matcher_stop_hangs:
  assumes "\<forall>w. \<exists>w'. host_Dial h (GetString fl ''matchmaker_target'') w = (Inl err, w')"
    and "matcher_RunE h fl (w, cmd_vars0) = (Ret e, (w1, v))" and "\<forall>x. snd (g (x, v)) = v"
  shows "e = Some (ErrWrap ''failed to connect to assignment service'' err) \<and>
    (\<exists>w2. call_Stop h g (w1, v) = (Blocked, (w2, v)))"
proof -
  from assms(1) have "cmd_spec (\<lambda>_. True) (matcher_RunE h fl) (\<lambda>e v.
      e = Some (ErrWrap ''failed to connect to assignment service'' err) \<and>
      (\<exists>ctx. v = \<lparr>cmd_wg = 1, cmd_Stop = StopContext ctx\<rparr>))"
    by (intro matcher_not_dialled) blast
  from cmd_specD [OF this assms(2)] obtain ctx where
    "e = Some (ErrWrap ''failed to connect to assignment service'' err)"
    "v = \<lparr>cmd_wg = 1, cmd_Stop = StopContext ctx\<rparr>" by auto
  with assms(3) show ?thesis by (simp add: call_Stop_def Let_def prod_eq_iff)
qed

end
