(* ===== verification/Launch.thy ===== *)
theory Launch
  imports Commands_Properties Operator_Properties Flags
begin

text \<open>
  From the profile to the running processes: the arguments that the operator writes into the
  deployments, read by the flags that the commands declare.
\<close>

section \<open>What a deployment launches\<close>

text \<open>A deployment that runs one container, whose arguments its command accepts.\<close>

definition launches ::
  "(flagset \<Rightarrow> string list \<Rightarrow> error + flags) \<Rightarrow> flagset \<Rightarrow> Deployment \<Rightarrow> (flags \<Rightarrow> bool) \<Rightarrow> bool" where
  "launches Parse s d P \<longleftrightarrow>
    (\<exists>c fl. dep_Containers d = [c] \<and> Parse s (ctr_Args c) = Inr fl \<and> P fl)"

definition addressed :: "Profile \<Rightarrow> flags \<Rightarrow> bool" where
  "addressed i fl \<longleftrightarrow> GetString fl ''nats_addr'' = spec_NatsAddress (prof_Spec i) \<and>
    GetString fl ''redis_addr'' = spec_RedisAddress (prof_Spec i) \<and> \<not> GetBool fl ''redis_unix''"

definition addresses :: "Profile \<Rightarrow> arg list" where
  "addresses i = [(''nats_addr'', Some (spec_NatsAddress (prof_Spec i))),
     (''redis_addr'', Some (spec_RedisAddress (prof_Spec i)))]"

lemma launches_mono: "launches Parse s d P \<Longrightarrow> (\<And>fl. P fl \<Longrightarrow> Q fl) \<Longrightarrow> launches Parse s d Q"
  unfolding launches_def by blast

context flag_library
begin

lemma launches_desired:
  assumes "args = flag_args ps" and "list_all (flag_name \<circ> fst) (fs_kinds s)"
    and "valid_args s (addresses i @ ps)" and "P (parsed s (addresses i @ ps))"
  shows "launches Parse s (desired i t name img args) P"
proof -
  have c: "\<exists>c. dep_Containers (desired i t name img args) = [c] \<and> ctr_Args c = flag_args (addresses i @ ps)"
    by (cases t) (simp_all add: desired_def assms(1) addresses_def Let_def)
  show ?thesis unfolding launches_def using c parse_args [OF assms(2,3)] assms(4) by auto
qed

lemma launches_accumulator:
  "launches Parse accumulator_flagset (desired_accumulator i mp) (\<lambda>fl. addressed i fl \<and>
     GetString fl ''queue'' = mq_Name mp \<and>
     GetInt64 fl ''max_tickets'' = (if 0 <s mq_MaxTickets mp then mq_MaxTickets mp else 1000) \<and>
     GetInt64 fl ''max_delay'' = (if 0 <s mq_MaxDelay mp then mq_MaxDelay mp else 1000))"
  unfolding desired_accumulator_def
  by (rule launches_desired [where ps = "(''queue'', Some (mq_Name mp)) #
        (if 0 <s mq_MaxTickets mp then [(''max_tickets'', Some (Sprint_int64 (mq_MaxTickets mp)))] else []) @
        (if 0 <s mq_MaxDelay mp then [(''max_delay'', Some (Sprint_int64 (mq_MaxDelay mp)))] else [])"])
    (simp_all add: parse_simps addresses_def decimal_Sprint addressed_def)

lemma launches_matcher:
  "launches Parse matcher_flagset (desired_matcher i mp) (\<lambda>fl. addressed i fl \<and>
     GetString fl ''queue'' = mq_Name mp \<and> GetString fl ''matchmaker_target'' = mq_MatchmakerTarget mp)"
  unfolding desired_matcher_def
  by (rule launches_desired [where ps = "[(''queue'', Some (mq_Name mp)), (''matchmaker_target'', Some (mq_MatchmakerTarget mp))]"])
    (simp_all add: parse_simps addresses_def addressed_def)

lemma launches_dispenser:
  "launches Parse dispenser_flagset (desired_dispenser i) (\<lambda>fl. addressed i fl \<and>
     GetString fl ''assignment_target'' = dis_AssignmentTarget (spec_DispenserService (prof_Spec i)))"
  unfolding desired_dispenser_def
  by (rule launches_desired [where ps =
        "[(''assignment_target'', Some (dis_AssignmentTarget (spec_DispenserService (prof_Spec i))))]"])
    (simp_all add: parse_simps addresses_def addressed_def)

lemma given_queues:
  "given (map (\<lambda>q. (''queues'', Some (g q))) qs) n = (if n = ''queues'' then map g qs else [])"
  by (induction qs) auto

lemma launches_frontend:
  assumes "\<forall>q \<in> set (spec_MatchmakingQueues (prof_Spec i)). plain_value (mq_Name (the q))"
  shows "launches Parse frontend_flagset (desired_frontend i) (\<lambda>fl. addressed i fl \<and>
     GetString fl ''address'' = '':50051'' \<and>
     GetStringSlice fl ''queues'' = (if spec_MatchmakingQueues (prof_Spec i) = [] then [''default'']
       else map (\<lambda>q. mq_Name (the q)) (spec_MatchmakingQueues (prof_Spec i))))"
proof -
  let ?qs = "spec_MatchmakingQueues (prof_Spec i)"
  let ?ps = "map (\<lambda>q. (''queues'', Some (mq_Name (the q)))) ?qs"
  have a: "concat (map (\<lambda>q. [''--queues'', mq_Name (the q)]) qs) =
      flag_args (map (\<lambda>q. (''queues'', Some (mq_Name (the q)))) qs)" for qs :: "MatchmakingQueue option list"
    by (induction qs) simp_all
  have "list_all (valid_arg frontend_flagset) ?ps"
    using assms by (simp add: list_all_iff valid_arg_def flagset_defs)
  then have "valid_args frontend_flagset (addresses i @ ?ps)"
    by (simp add: valid_args_def valid_arg_def addresses_def flagset_defs)
  then show ?thesis unfolding desired_frontend_def
    by (rule launches_desired [OF a flag_names(4)])
      (simp add: addresses_def parse_simps addressed_def given_queues)
qed

end

section \<open>From the profile to the processes\<close>

lemma desired_keys:
  "map dep_key (desired_Deployments i) =
    (let qs = map the (spec_MatchmakingQueues (prof_Spec i)); key = Pair (prof_Namespace i) in
     key FrontendName # map (key \<circ> accumulatorName) qs @ map (key \<circ> matcherName) qs @ [key DispenserName])"
  by (simp add: desired_Deployments_def desired_defs desired_key Let_def)

text \<open>Queues with different names have deployments with different names.\<close>

lemma desired_keys_distinct:
  assumes "distinct (map mq_Name (map the (spec_MatchmakingQueues (prof_Spec i))))"
  shows "distinct (map dep_key (desired_Deployments i))"
proof -
  let ?qs = "map the (spec_MatchmakingQueues (prof_Spec i))"
  from assms have "distinct (map (Pair (prof_Namespace i) \<circ> f) ?qs)"
    if "\<And>x y. f x = f y \<longleftrightarrow> mq_Name x = mq_Name y" for f
    using that unfolding distinct_map by (auto simp: inj_on_def)
  from this [of accumulatorName] this [of matcherName] show ?thesis
    unfolding desired_keys Let_def
    by (auto simp: accumulatorName_def matcherName_def FrontendName_def DispenserName_def
        AccumulatorName_def MatcherName_def)
qed

lemma keyed_member:
  assumes "distinct (map key ds)" and "d \<in> set ds"
  shows "keyed key ds (key d) = Some d"
  unfolding keyed_def using assms by (intro map_of_is_SomeI) (auto simp: comp_def)

lemma delay_bound:
  assumes "sint (d :: int64) \<le> 9223372036854"
  shows "0 <s (if 0 <s d then d else 1000) * (1000000 :: int64)"
proof (cases "0 <s d")
  case True
  then have "0 < sint d" by (simp add: word_sless_alt)
  with milliseconds_sint [OF this assms] True show ?thesis by (simp add: word_sless_alt)
qed (simp add: word_sless_alt)

text \<open>What a deployment that has the object \<open>d\<close> comes to.\<close>

lemma Reconcile_new:
  assumes "kube_reconciler K deps svcs r"
    and "live_reads K deps svcs" and "creates K deps svcs" and "queues_given i"
    and "kc_GetProfile K req w = (Inr i, w1)"
    and "\<forall>d \<in> set (desired_Deployments i). deps w (dep_key d) = None"
    and "distinct (map mq_Name (map the (spec_MatchmakingQueues (prof_Spec i))))"
  shows "\<exists>w'. Reconcile r req w = (Ret None, w') \<and>
    (\<forall>d \<in> set (desired_Deployments i). deps w' (dep_key d) = Some d)"
proof -
  from kube_reconciler.Reconcile_live [OF assms(1,2,4,5)] assms(3) obtain w' where
    w': "Reconcile r req w = (Ret None, w')" "deps w' = keyed dep_key (desired_Deployments i) ++ deps w"
    by blast
  have "deps w' (dep_key d) = Some d" if "d \<in> set (desired_Deployments i)" for d
    using w'(2) assms(6) that keyed_member [OF desired_keys_distinct [OF assms(7)] that]
    by (simp add: map_add_def)
  with w'(1) show ?thesis by blast
qed

section \<open>Properties\<close>

text \<open>C18: The arguments of the operator are the flags of the commands, for a profile whose queues are given and
  have names that are not empty and without a comma, a quote or a line break. The container that the
  operator describes for a queue, started with its arguments, has the flags that the profile says: the
  addresses, the queue, the target, and the limits where they are positive, which are printed and read back
  without a change of value; a limit that is not positive has the default of the command, 1000. The
  frontend serves the queues of the profile (the default queue if there is none).\<close>

theorem operator_args_roundtrip:
  assumes "kube_reconciler K deps svcs r" and "flag_library Parse"
    and "\<forall>q \<in> set (spec_MatchmakingQueues (prof_Spec i)). q \<noteq> None \<and> plain_value (mq_Name (the q))"
  shows "(\<exists>d. configureAccumulatorDeployment r i (Some mp) = call (kc_CreateDeployment K d) \<and>
      launches Parse accumulator_flagset d (\<lambda>fl. addressed i fl \<and> GetString fl ''queue'' = mq_Name mp \<and>
        GetInt64 fl ''max_tickets'' = (if 0 <s mq_MaxTickets mp then mq_MaxTickets mp else 1000) \<and>
        GetInt64 fl ''max_delay'' = (if 0 <s mq_MaxDelay mp then mq_MaxDelay mp else 1000))) \<and>
    (\<exists>d. configureMatcherDeployment r i (Some mp) = call (kc_CreateDeployment K d) \<and>
      launches Parse matcher_flagset d (\<lambda>fl. addressed i fl \<and> GetString fl ''queue'' = mq_Name mp \<and>
        GetString fl ''matchmaker_target'' = mq_MatchmakerTarget mp)) \<and>
    (\<exists>d. configureDispenserDeployment r i = call (kc_CreateDeployment K d) \<and>
      launches Parse dispenser_flagset d (\<lambda>fl. addressed i fl \<and>
        GetString fl ''assignment_target'' = dis_AssignmentTarget (spec_DispenserService (prof_Spec i)))) \<and>
    (\<exists>d. configureFrontendDeployment r i = call (kc_CreateDeployment K d) \<and>
      launches Parse frontend_flagset d (\<lambda>fl. addressed i fl \<and> GetString fl ''address'' = '':50051'' \<and>
        GetStringSlice fl ''queues'' = (if spec_MatchmakingQueues (prof_Spec i) = [] then [''default'']
          else map (\<lambda>q. mq_Name (the q)) (spec_MatchmakingQueues (prof_Spec i)))))"
proof -
  from assms(3) have "queues_given i" by (auto simp: queues_given_def)
  note configure = kube_reconciler.configureAccumulator_eq [OF assms(1)] kube_reconciler.configureMatcher_eq [OF assms(1)]
    kube_reconciler.configureDispenser_eq [OF assms(1)] kube_reconciler.configureFrontend_eq [OF assms(1) this]
  from assms(3) have "\<forall>q \<in> set (spec_MatchmakingQueues (prof_Spec i)). plain_value (mq_Name (the q))" by blast
  from flag_library.launches_frontend [OF assms(2) this] flag_library.launches_accumulator [OF assms(2)]
    flag_library.launches_matcher [OF assms(2)] flag_library.launches_dispenser [OF assms(2)] configure
  show ?thesis by blast
qed

theorem operator_args_roundtrip_witness:
  "\<exists>d. configureAccumulatorDeployment (mem_reconciler True) (sample_profile ''v1'') (sample_queue ''a'') =
      call (kc_CreateDeployment (mem_kube True) d) \<and>
    launches mem_Parse accumulator_flagset d (\<lambda>fl. GetString fl ''queue'' = ''a'' \<and> GetInt64 fl ''max_tickets'' = 200 \<and>
      GetInt64 fl ''max_delay'' = 1000)"
proof -
  let ?mp = "the (sample_queue ''a'')"
  have mp: "sample_queue ''a'' = Some ?mp" "mq_Name ?mp = ''a''" "mq_MaxTickets ?mp = 200" "mq_MaxDelay ?mp = 0"
    by (simp_all add: sample_queue_def)
  have plain: "\<forall>q \<in> set (spec_MatchmakingQueues (prof_Spec (sample_profile ''v1''))).
      q \<noteq> None \<and> plain_value (mq_Name (the q))"
    by (simp add: sample_profile_def sample_queue_def plain_value_def)
  have "0 <s (200 :: int64)" by (simp add: word_sless_alt)
  with operator_args_roundtrip [OF mem_reconciler.kube_reconciler_axioms mem_flags.flag_library_axioms plain,
      of True ?mp] mp(2-4)
  show ?thesis unfolding mp(1) [symmetric] by (auto elim: launches_mono)
qed

text \<open>C17: From the profile to the waiting processes. Suppose that the cluster reads as it is and accepts what is
  created, and has no deployment of the profile yet, and that the queues of the profile are given and have
  distinct names. Then \<open>Reconcile\<close> returns without error. On a host with its connections up, on which every
  target can be dialled, and for every queue whose \<open>max_delay\<close> is at most 9223372036854 milliseconds (above
  which the accumulator panics), the container of its accumulator, started with its arguments, ends up
  waiting for the requests of the queue, and the one of its matcher for the batches of the queue; the
  container of the dispenser waits for the unassigned matches.\<close>

theorem operator_launches:
  assumes "kube_reconciler K deps svcs r" and "flag_library Parse" and "connected_host h nc log"
    and "live_reads K deps svcs" and "creates K deps svcs" and "queues_given i"
    and "kc_GetProfile K req w = (Inr i, w1)"
    and "\<forall>d \<in> set (desired_Deployments i). deps w (dep_key d) = None"
    and "distinct (map mq_Name (map the (spec_MatchmakingQueues (prof_Spec i))))"
    and "\<forall>t. dials h t"
    and "Some mp \<in> set (spec_MatchmakingQueues (prof_Spec i))" and "sint (mq_MaxDelay mp) \<le> 9223372036854"
  shows "\<exists>w' acc mat dis. Reconcile r req w = (Ret None, w') \<and>
    deps w' (prof_Namespace i, accumulatorName mp) = Some acc \<and>
    launches Parse accumulator_flagset acc (\<lambda>fl. waits_on (accumulator_RunE h fl) (host_rt h)
      (tm_streamClient (host_tickets h nc fl)) (GetMatchRequestTopic (mq_Name mp)) v) \<and>
    deps w' (prof_Namespace i, matcherName mp) = Some mat \<and>
    launches Parse matcher_flagset mat (\<lambda>fl. waits_on (matcher_RunE h fl) (host_rt h)
      (tm_streamClient (host_tickets h nc fl)) (GetAccumulatedMatchRequestTopic (mq_Name mp)) v) \<and>
    deps w' (prof_Namespace i, DispenserName) = Some dis \<and>
    launches Parse dispenser_flagset dis (\<lambda>fl. waits_on (dispenser_RunE h fl) (host_rt h)
      (tm_streamClient (host_tickets h nc fl)) GetUnassignedMatchesTopic v)"
proof -
  from Reconcile_new [OF assms(1,4-9)] obtain w' where w': "Reconcile r req w = (Ret None, w')"
    "\<forall>d \<in> set (desired_Deployments i). deps w' (dep_key d) = Some d" by blast
  have mem: "desired_accumulator i mp \<in> set (desired_Deployments i)"
    "desired_matcher i mp \<in> set (desired_Deployments i)" "desired_dispenser i \<in> set (desired_Deployments i)"
    using assms(11) by (force simp: desired_Deployments_def Let_def)+
  have key: "dep_key (desired_accumulator i mp) = (prof_Namespace i, accumulatorName mp)"
    "dep_key (desired_matcher i mp) = (prof_Namespace i, matcherName mp)"
    "dep_key (desired_dispenser i) = (prof_Namespace i, DispenserName)"
    by (simp_all add: desired_defs desired_key)
  have acc: "launches Parse accumulator_flagset (desired_accumulator i mp) (\<lambda>fl. waits_on (accumulator_RunE h fl) (host_rt h)
      (tm_streamClient (host_tickets h nc fl)) (GetMatchRequestTopic (mq_Name mp)) v)"
  proof (rule launches_mono [OF flag_library.launches_accumulator [OF assms(2)]])
    fix fl
    assume fl: "addressed i fl \<and> GetString fl ''queue'' = mq_Name mp \<and>
      GetInt64 fl ''max_tickets'' = (if 0 <s mq_MaxTickets mp then mq_MaxTickets mp else 1000) \<and>
      GetInt64 fl ''max_delay'' = (if 0 <s mq_MaxDelay mp then mq_MaxDelay mp else 1000)"
    then have d: "GetInt64 fl ''max_delay'' = (if 0 <s mq_MaxDelay mp then mq_MaxDelay mp else 1000)"
      and q: "GetString fl ''queue'' = mq_Name mp" by blast+
    have "0 <s GetInt64 fl ''max_delay'' * (1000000 :: int64)" unfolding d by (rule delay_bound [OF assms(12)])
    from connected_host.accumulator_waits [OF assms(3) this, of v]
    show "waits_on (accumulator_RunE h fl) (host_rt h) (tm_streamClient (host_tickets h nc fl))
      (GetMatchRequestTopic (mq_Name mp)) v" unfolding q .
  qed
  have mat: "launches Parse matcher_flagset (desired_matcher i mp) (\<lambda>fl. waits_on (matcher_RunE h fl) (host_rt h)
      (tm_streamClient (host_tickets h nc fl)) (GetAccumulatedMatchRequestTopic (mq_Name mp)) v)"
    by (rule launches_mono [OF flag_library.launches_matcher [OF assms(2)]])
      (metis connected_host.matcher_waits [OF assms(3)] assms(10))
  have dis: "launches Parse dispenser_flagset (desired_dispenser i) (\<lambda>fl. waits_on (dispenser_RunE h fl) (host_rt h)
      (tm_streamClient (host_tickets h nc fl)) GetUnassignedMatchesTopic v)"
    by (rule launches_mono [OF flag_library.launches_dispenser [OF assms(2)]])
      (rule connected_host.dispenser_waits [OF assms(3) assms(10) [rule_format]])
  from w'(1) w'(2) [rule_format, OF mem(1)] w'(2) [rule_format, OF mem(2)] w'(2) [rule_format, OF mem(3)] acc mat dis
  show ?thesis unfolding key by blast
qed

theorem operator_launches_witness:
  "\<exists>acc. cluster_deps cluster1 (''games'', ''rivalry-accumulator-a'') = Some acc \<and>
    launches mem_Parse accumulator_flagset acc (\<lambda>fl. waits_on (accumulator_RunE (mem_host all_works) fl) mem_runtime
      (tm_streamClient (host_tickets (mem_host all_works) (mem_nats all_works) fl)) (GetMatchRequestTopic ''a'') world0)"
proof -
  let ?i = "sample_profile ''v1''" and ?mp = "the (sample_queue ''a'')"
  have dials: "\<forall>t. dials (mem_host all_works) t" by (simp add: dials_def mem_host_def)
  have mp: "Some ?mp \<in> set (spec_MatchmakingQueues (prof_Spec ?i))" "sint (mq_MaxDelay ?mp) \<le> 9223372036854"
    "distinct (map mq_Name (map the (spec_MatchmakingQueues (prof_Spec ?i))))"
    "prof_Namespace ?i = ''games''" "mq_Name ?mp = ''a''" "accumulatorName ?mp = ''rivalry-accumulator-a''"
    by (simp_all add: sample_profile_def sample_queue_def accumulatorName_def AccumulatorName_def)
  have none: "\<forall>d \<in> set (desired_Deployments ?i). cluster_deps (cluster0 ''v1'') (dep_key d) = None"
    by (simp add: cluster_deps_def cluster0_def)
  from operator_launches [OF mem_reconciler.kube_reconciler_axioms mem_flags.flag_library_axioms
      mem_host.connected_host_axioms mem_live_reads mem_creates sample_queues_given get_sample none mp(3) dials mp(1,2),
      of world0]
  show ?thesis unfolding mp(4,5,6) cluster1_def by auto
qed

end
