(* ===== verification/Examples.thy ===== *)
theory Examples
  imports Flags Commands_Properties
begin

text \<open>
  The commands of the example services (\<open>examples/assignment\<close>, \<open>examples/matchmaker\<close>): what they listen
  on, what they serve and how they stop. The gRPC server is a parameter, as for the commands of the
  program; a service is given to it as the operation that its clients call.
\<close>

section \<open>The assignment service\<close>

text \<open>The client of the frontend, which the service keeps and does not use, is a connection.\<close>

record FakeServerAssignmentService =
  fsa_frontendClient :: nat

definition NewFakeServerAssignmentServiceWithClient :: "nat \<Rightarrow> FakeServerAssignmentService" where
  "NewFakeServerAssignmentServiceWithClient frontendClient = \<lparr>fsa_frontendClient = frontendClient\<rparr>"

definition NewFakeServerAssignmentService ::
  "'w host \<Rightarrow> string \<Rightarrow> ('w, FakeServerAssignmentService) proc" where
  "NewFakeServerAssignmentService h frontendTarget =
    go_bind (call (host_Dial h frontendTarget)) (\<lambda>res.
      case res of
        Inl err \<Rightarrow> go_panic (PanicError err)
      | Inr conn \<Rightarrow> go_return (NewFakeServerAssignmentServiceWithClient conn))"

section \<open>The commands\<close>

record 'w example_host =
  xh_host :: "'w host"
  xh_rand_Intn :: "nat \<Rightarrow> 'w \<Rightarrow> nat \<times> 'w"
  xh_ServeAssignment :: "'w AssignmentServiceClient \<Rightarrow> nat \<Rightarrow> ('w, error option) proc"
  xh_ServeMatchMaker :: "'w MatchMakerServiceClient \<Rightarrow> nat \<Rightarrow> ('w, error option) proc"

text \<open>\<open>wg.Add(1)\<close> before \<open>Stop\<close> is set.\<close>

definition wg_Add :: "('w \<times> cmd_vars, unit) proc" where
  "wg_Add = (\<lambda>(w, v). (Ret (), (w, v\<lparr>cmd_wg := 1\<rparr>)))"

definition assignment_RunE :: "'w example_host \<Rightarrow> flags \<Rightarrow> ('w \<times> cmd_vars, error option) proc" where
  "assignment_RunE x fl =
    go_bind (no_capture (call (host_Listen (xh_host x) (GetString fl ''address'')))) (\<lambda>res.
    case res of
      Inl err \<Rightarrow> go_panic (PanicError err)
    | Inr ln \<Rightarrow>
        let frontendTarget = GetString fl ''frontend_target'' in
        go_bind wg_Add (\<lambda>_.
        go_bind (no_capture (NewFakeServerAssignmentService (xh_host x) frontendTarget)) (\<lambda>assignmentService.
        go_bind (set_Stop StopServer) (\<lambda>_.
        go_bind (no_capture (xh_ServeAssignment x (FakeServer_MakeAssignment (xh_rand_Intn x)) ln)) (\<lambda>err.
        go_bind wg_Done (\<lambda>_. go_return err))))))"

definition matchmaker_RunE :: "'w example_host \<Rightarrow> flags \<Rightarrow> ('w \<times> cmd_vars, error option) proc" where
  "matchmaker_RunE x fl =
    go_bind (no_capture (call (host_Listen (xh_host x) (GetString fl ''address'')))) (\<lambda>res.
    case res of
      Inl err \<Rightarrow> go_panic (PanicError err)
    | Inr ln \<Rightarrow>
        go_bind (set_Stop StopServer) (\<lambda>_.
        go_bind (no_capture (xh_ServeMatchMaker x (pairs_client (host_rt (xh_host x))) ln)) (\<lambda>err.
        go_bind wg_Done (\<lambda>_. go_return err))))"

definition assignment_flagset :: flagset where
  "assignment_flagset =
    \<lparr>fs_kinds = [(''address'', StringFlag), (''frontend_target'', StringFlag), (''config'', StringFlag)],
     fs_required = [],
     fs_defaults = no_flags\<lparr>GetString := (\<lambda>_. [])(''address'' := '':50053'', ''frontend_target'' := '':50051'')\<rparr>\<rparr>"

definition matchmaker_flagset :: flagset where
  "matchmaker_flagset =
    \<lparr>fs_kinds = [(''address'', StringFlag), (''config'', StringFlag)], fs_required = [],
     fs_defaults = no_flags\<lparr>GetString := (\<lambda>_. [])(''address'' := '':50051'')\<rparr>\<rparr>"

definition assignment_initConfig :: "config_lib \<Rightarrow> string \<Rightarrow> error + viper" where
  "assignment_initConfig = init_config ''.assignment''"

definition matchmaker_initConfig :: "config_lib \<Rightarrow> string \<Rightarrow> error + viper" where
  "matchmaker_initConfig = init_config ''.matchmaker''"

lemmas example_flagset_defs = assignment_flagset_def matchmaker_flagset_def no_flags_def

lemma example_flag_names:
  "list_all (flag_name \<circ> fst) (fs_kinds assignment_flagset)"
  "list_all (flag_name \<circ> fst) (fs_kinds matchmaker_flagset)"
  by (simp_all add: example_flagset_defs flag_name_def)

section \<open>How they stop\<close>

lemma cmd_spec_Add [cmd_intros]:
  "cmd_spec (\<lambda>_. True) (k ()) Q \<Longrightarrow> cmd_spec P (go_bind wg_Add k) Q"
  by (auto simp: cmd_spec_def wg_Add_def go_bind_def)

lemma example_RunE_zero:
  "cmd_spec (\<lambda>v. cmd_wg v = 0) (assignment_RunE x fl) zero_wg"
  "cmd_spec (\<lambda>v. cmd_wg v = 0) (matchmaker_RunE x fl) zero_wg"
  by (auto simp: assignment_RunE_def matchmaker_RunE_def zero_wg_def Let_def intro!: cmd_intros split: sum.split)

text \<open>When such a command has returned, its \<open>Stop\<close> returns.\<close>

lemma example_stop_returns:
  assumes "run \<in> {assignment_RunE x fl, matchmaker_RunE x fl}"
    and "run (w, cmd_vars0) = (Ret e, (w1, v))" and "cmd_Stop v \<noteq> StopNil"
    and "\<forall>y. snd (g (y, v)) = v"
  shows "\<exists>w2. call_Stop h g (w1, v) = (Ret (), (w2, v))"
proof -
  have "cmd_spec (\<lambda>v. cmd_wg v = 0) run zero_wg" using assms(1) example_RunE_zero by auto
  from cmd_specD [OF this assms(2)] have "cmd_wg v = 0" by (simp add: cmd_vars0_def zero_wg_def)
  from call_Stop_zero [OF this assms(3,4)] show ?thesis .
qed

text \<open>Without the frontend the assignment service does not start, although it does not need it.\<close>

lemma assignment_needs_frontend:
  assumes "host_Listen (xh_host x) (GetString fl ''address'') w = (Inr ln, w1)"
    and "host_Dial (xh_host x) (GetString fl ''frontend_target'') w1 = (Inl err, w2)"
  shows "fst (assignment_RunE x fl (w, v)) = Panic (PanicError err)"
  using assms by (simp add: assignment_RunE_def NewFakeServerAssignmentService_def go_bind_def no_capture_def call_def
      wg_Add_def Let_def)

end
