(* ===== verification/SystemTests.thy ===== *)
theory SystemTests
  imports Examples Clients
begin

text \<open>
  The set up of the system tests (\<open>systemtests/setup.go\<close>): the arguments with which the commands are
  started in one process, how they are stopped, and what a player of a test does. The servers of Redis
  and NATS that a test starts are parameters.
\<close>

section \<open>The state of a test\<close>

text \<open>The failure mark of a test, its wait group and the servers that the players were given.\<close>

record test_vars =
  tv_failed :: bool
  tv_wg :: nat
  tv_assignment :: "string \<Rightarrow> api_GameServer option"

text \<open>
  \<open>assert\<close> marks the test as failed. \<open>require\<close> marks it and ends the goroutine (\<open>FailNow\<close>): what comes
  after is not run and nothing returns.
\<close>

definition t_Fail :: "('w \<times> test_vars, unit) proc" where
  "t_Fail = (\<lambda>(w, v). (Ret (), (w, v\<lparr>tv_failed := True\<rparr>)))"

definition t_FailNow :: "('w \<times> test_vars, 'a) proc" where
  "t_FailNow = (\<lambda>(w, v). (Blocked, (w, v\<lparr>tv_failed := True\<rparr>)))"

definition require_NoError :: "(error + 'a) \<Rightarrow> ('w \<times> test_vars, 'a) proc" where
  "require_NoError res = (case res of Inl err \<Rightarrow> t_FailNow | Inr a \<Rightarrow> go_return a)"

definition require_NotNil :: "'a option \<Rightarrow> ('w \<times> test_vars, 'a) proc" where
  "require_NotNil p = (case p of None \<Rightarrow> t_FailNow | Some a \<Rightarrow> go_return a)"

section \<open>The servers\<close>

definition initRedis :: "('w \<Rightarrow> (error + nat) \<times> 'w) \<Rightarrow> ('w \<times> test_vars, nat) proc" where
  "initRedis Start = go_bind (no_capture (call Start)) require_NoError"

definition initNats ::
  "(string \<Rightarrow> nat \<Rightarrow> 'w \<Rightarrow> (error + nat) \<times> 'w) \<Rightarrow> (nat \<Rightarrow> 'w \<Rightarrow> error option \<times> 'w) \<Rightarrow>
    ('w \<times> test_vars, nat) proc" where
  "initNats NewServer Run =
    go_bind (no_capture (call (NewServer ''127.0.0.1'' 4222))) (\<lambda>res.
    go_bind (require_NoError res) (\<lambda>natsServer.
    go_bind (no_capture (call (Run natsServer))) (\<lambda>err.
    case err of Some e \<Rightarrow> t_FailNow | None \<Rightarrow> go_return natsServer)))"

section \<open>The commands\<close>

definition frontendTarget :: string where
  "frontendTarget = ''127.0.0.1:50051''"

definition matchmakerTarget :: string where
  "matchmakerTarget = ''127.0.0.1:50052''"

definition assignmentServiceTarget :: string where
  "assignmentServiceTarget = ''127.0.0.1:50053''"

text \<open>A goroutine calls \<open>Execute\<close> of the command with the arguments and logs the error.\<close>

definition initFrontend ::
  "(flagset \<Rightarrow> string list \<Rightarrow> error + flags) \<Rightarrow> 'w host \<Rightarrow> string \<Rightarrow> string \<Rightarrow>
    ('w \<times> cmd_vars, error option) proc" where
  "initFrontend Parse h redisAddr natsAddr = execute Parse frontend_flagset (frontend_RunE h)
     [''--redis_addr'', redisAddr, ''--redis_unix'', ''--nats_addr'', natsAddr, ''--address'', frontendTarget]"

text \<open>\<open>fmt.Sprint(time.Second.Milliseconds() / 4)\<close>\<close>

definition quarter_second :: string where
  "quarter_second = Sprint_int64 (word_of_int (sint (1000000000 :: int64) sdiv 1000000 sdiv 4))"

definition initAccumulator ::
  "(flagset \<Rightarrow> string list \<Rightarrow> error + flags) \<Rightarrow> 'w host \<Rightarrow> string \<Rightarrow> string \<Rightarrow>
    ('w \<times> cmd_vars, error option) proc" where
  "initAccumulator Parse h redisAddr natsAddr = execute Parse accumulator_flagset (accumulator_RunE h)
     [''--redis_addr'', redisAddr, ''--redis_unix'', ''--nats_addr'', natsAddr, ''--max_delay'', quarter_second]"

definition initMatcher ::
  "(flagset \<Rightarrow> string list \<Rightarrow> error + flags) \<Rightarrow> 'w host \<Rightarrow> string \<Rightarrow> string \<Rightarrow>
    ('w \<times> cmd_vars, error option) proc" where
  "initMatcher Parse h redisAddr natsAddr = execute Parse matcher_flagset (matcher_RunE h)
     [''--redis_addr'', redisAddr, ''--redis_unix'', ''--nats_addr'', natsAddr,
      ''--matchmaker_target'', matchmakerTarget]"

definition initDispenser ::
  "(flagset \<Rightarrow> string list \<Rightarrow> error + flags) \<Rightarrow> 'w host \<Rightarrow> string \<Rightarrow> string \<Rightarrow>
    ('w \<times> cmd_vars, error option) proc" where
  "initDispenser Parse h redisAddr natsAddr = execute Parse dispenser_flagset (dispenser_RunE h)
     [''--redis_addr'', redisAddr, ''--redis_unix'', ''--nats_addr'', natsAddr,
      ''--assignment_target'', assignmentServiceTarget]"

definition initMatchmaker ::
  "(flagset \<Rightarrow> string list \<Rightarrow> error + flags) \<Rightarrow> 'w example_host \<Rightarrow> ('w \<times> cmd_vars, error option) proc" where
  "initMatchmaker Parse x = execute Parse matchmaker_flagset (matchmaker_RunE x) [''--address'', matchmakerTarget]"

definition initAssignmentService ::
  "(flagset \<Rightarrow> string list \<Rightarrow> error + flags) \<Rightarrow> 'w example_host \<Rightarrow> ('w \<times> cmd_vars, error option) proc" where
  "initAssignmentService Parse x = execute Parse assignment_flagset (assignment_RunE x)
     [''--address'', assignmentServiceTarget]"

section \<open>The end of a test\<close>

text \<open>
  The commands run in one process, each with the variables of its own package. A call of \<open>Stop\<close> is a call
  on the variables of its package; \<open>g\<close> is how the command goes on.
\<close>

datatype package = FrontendCmd | AccumulatorCmd | MatcherCmd | DispenserCmd | MatchmakerCmd | AssignmentCmd

text \<open>The packages are an enumeration: a statement about all of them is a finite conjunction.\<close>

instantiation package :: enum
begin

definition enum_package :: "package list" where
  "enum_package = [FrontendCmd, AccumulatorCmd, MatcherCmd, DispenserCmd, MatchmakerCmd, AssignmentCmd]"

definition enum_all_package :: "(package \<Rightarrow> bool) \<Rightarrow> bool" where
  "enum_all_package P \<longleftrightarrow> list_all P enum_class.enum"

definition enum_ex_package :: "(package \<Rightarrow> bool) \<Rightarrow> bool" where
  "enum_ex_package P \<longleftrightarrow> list_ex P enum_class.enum"

instance
proof
  show univ: "UNIV = set (enum_class.enum :: package list)"
    unfolding enum_package_def by (auto intro: package.exhaust)
  show "distinct (enum_class.enum :: package list)" by (simp add: enum_package_def)
  show "enum_class.enum_all P = Ball UNIV P" "enum_class.enum_ex P = Bex UNIV P" for P :: "package \<Rightarrow> bool"
    unfolding univ by (simp_all add: enum_all_package_def enum_ex_package_def list_all_iff list_ex_iff)
qed

end

type_synonym 'w all_vars = "'w \<times> (package \<Rightarrow> cmd_vars)"

definition package_Stop ::
  "(package \<Rightarrow> 'w host) \<Rightarrow> (package \<Rightarrow> 'w \<times> cmd_vars \<Rightarrow> 'w \<times> cmd_vars) \<Rightarrow> package \<Rightarrow> ('w all_vars, unit) proc" where
  "package_Stop hs gs p = (\<lambda>(w, vs). case call_Stop (hs p) (gs p) (w, vs p) of
      (r, (w', v)) \<Rightarrow> (r, (w', vs(p := v))))"

definition stopFrontend ::
  "(package \<Rightarrow> 'w host) \<Rightarrow> (package \<Rightarrow> 'w \<times> cmd_vars \<Rightarrow> 'w \<times> cmd_vars) \<Rightarrow> ('w all_vars, unit) proc" where
  "stopFrontend hs gs = package_Stop hs gs FrontendCmd"

definition stopAccumulator ::
  "(package \<Rightarrow> 'w host) \<Rightarrow> (package \<Rightarrow> 'w \<times> cmd_vars \<Rightarrow> 'w \<times> cmd_vars) \<Rightarrow> ('w all_vars, unit) proc" where
  "stopAccumulator hs gs = package_Stop hs gs AccumulatorCmd"

definition stopMatcher ::
  "(package \<Rightarrow> 'w host) \<Rightarrow> (package \<Rightarrow> 'w \<times> cmd_vars \<Rightarrow> 'w \<times> cmd_vars) \<Rightarrow> ('w all_vars, unit) proc" where
  "stopMatcher hs gs = package_Stop hs gs MatchmakerCmd"

definition stopDispenser ::
  "(package \<Rightarrow> 'w host) \<Rightarrow> (package \<Rightarrow> 'w \<times> cmd_vars \<Rightarrow> 'w \<times> cmd_vars) \<Rightarrow> ('w all_vars, unit) proc" where
  "stopDispenser hs gs = package_Stop hs gs DispenserCmd"

definition stopMatchmaker ::
  "(package \<Rightarrow> 'w host) \<Rightarrow> (package \<Rightarrow> 'w \<times> cmd_vars \<Rightarrow> 'w \<times> cmd_vars) \<Rightarrow> ('w all_vars, unit) proc" where
  "stopMatchmaker hs gs = package_Stop hs gs MatchmakerCmd"

definition stopAssignmentService ::
  "(package \<Rightarrow> 'w host) \<Rightarrow> (package \<Rightarrow> 'w \<times> cmd_vars \<Rightarrow> 'w \<times> cmd_vars) \<Rightarrow> ('w all_vars, unit) proc" where
  "stopAssignmentService hs gs = package_Stop hs gs AssignmentCmd"

text \<open>
  The two servers of the test are ended, \<open>redis\<close> with an error that is dropped, then the commands are stopped.
\<close>

definition TearDownSuite ::
  "(nat \<Rightarrow> 'w \<Rightarrow> 'w) \<Rightarrow> (nat \<Rightarrow> 'w \<Rightarrow> error option \<times> 'w) \<Rightarrow> nat \<Rightarrow> nat \<Rightarrow>
    (package \<Rightarrow> 'w host) \<Rightarrow> (package \<Rightarrow> 'w \<times> cmd_vars \<Rightarrow> 'w \<times> cmd_vars) \<Rightarrow> ('w all_vars, unit) proc" where
  "TearDownSuite Shutdown Term natsServer redis hs gs = (\<lambda>(w, vs).
     let w1 = Shutdown natsServer w; (_, w2) = Term redis w1 in
     for_each (\<lambda>f. f hs gs)
       [stopFrontend, stopAccumulator, stopMatcher, stopDispenser, stopMatchmaker, stopAssignmentService] (w2, vs))"

section \<open>A player\<close>

record 'w player =
  pl_playerID :: string
  pl_frontendServiceClient :: "'w RivalryServiceClient"

text \<open>The game server of a player, which \<open>nil\<close> is at first, is kept in the variables of the test.\<close>

definition newPlayer :: "'w RivalryServiceClient \<Rightarrow> string \<Rightarrow> 'w player" where
  "newPlayer frontendServiceClient playerID =
    \<lparr>pl_playerID = playerID, pl_frontendServiceClient = frontendServiceClient\<rparr>"

definition player_request :: "string \<Rightarrow> api_MatchRequest" where
  "player_request playerID =
    \<lparr>req_Id = [], req_PlayerId = playerID, req_PartyData = None, req_MatchRequestData = None,
     req_MatchmakingQueue = ''default'', req_Rtts = []\<rparr>"

definition set_assignment :: "string \<Rightarrow> api_GameServer \<Rightarrow> ('w \<times> test_vars, unit) proc" where
  "set_assignment playerID gs = (\<lambda>(w, v). (Ret (), (w, v\<lparr>tv_assignment := (tv_assignment v)(playerID \<mapsto> gs)\<rparr>)))"

definition test_wg_Done :: "('w \<times> test_vars, unit) proc" where
  "test_wg_Done = (\<lambda>(w, v).
    if tv_wg v = 0 then (Panic (PanicError (ErrExt ''sync: negative WaitGroup counter'')), (w, v))
    else (Ret (), (w, v\<lparr>tv_wg := tv_wg v - 1\<rparr>)))"

definition playTheGame :: "'w player \<Rightarrow> ctx \<Rightarrow> ('w \<times> test_vars, unit) proc" where
  "playTheGame p ctx =
    go_bind (no_capture (call (pl_frontendServiceClient p ctx (player_request (pl_playerID p))))) (\<lambda>res.
    go_bind (require_NoError res) (\<lambda>cli.
    case cli of [] \<Rightarrow> go_block | received # _ \<Rightarrow>
    go_bind (require_NoError received) (\<lambda>watchResp.
    go_bind (require_NotNil (mresp_GameServer watchResp)) (\<lambda>gs.
    go_bind (if gs_GameServerIp gs = [] then t_Fail else go_return ()) (\<lambda>_.
    go_bind (set_assignment (pl_playerID p) gs) (\<lambda>_. test_wg_Done))))))"

text \<open>\<open>wg.Wait()\<close> of a test.\<close>

definition test_wg_Wait :: "('w \<times> test_vars, unit) proc" where
  "test_wg_Wait = (\<lambda>(w, v). if tv_wg v = 0 then (Ret (), (w, v)) else (Blocked, (w, v)))"

section \<open>What the commands are started with\<close>

lemma quarter_second: "decimal quarter_second = Some 250"
proof -
  have q: "quarter_second = Sprint_int64 250" by (simp add: quarter_second_def)
  have "0 <s (250 :: int64)" by (simp add: word_sless_alt)
  from decimal_Sprint [OF this] show ?thesis unfolding q .
qed

definition test_args :: "string \<Rightarrow> string \<Rightarrow> arg list" where
  "test_args redisAddr natsAddr =
    [(''redis_addr'', Some redisAddr), (''redis_unix'', None), (''nats_addr'', Some natsAddr)]"

context flag_library
begin

lemma execute_args:
  assumes "args = flag_args as" and "list_all (flag_name \<circ> fst) (fs_kinds s)" and "valid_args s as"
  shows "execute Parse s run args = run (parsed s as)"
  by (simp add: execute_def assms(1) parse_args [OF assms(2,3)])

lemma initFrontend_eq: "initFrontend Parse h r n =
    frontend_RunE h (parsed frontend_flagset (test_args r n @ [(''address'', Some frontendTarget)]))"
  unfolding initFrontend_def
  by (rule execute_args [OF _ flag_names(4)]) (simp_all add: test_args_def parse_simps)

lemma initAccumulator_eq: "initAccumulator Parse h r n =
    accumulator_RunE h (parsed accumulator_flagset (test_args r n @ [(''max_delay'', Some quarter_second)]))"
  unfolding initAccumulator_def
  by (rule execute_args [OF _ flag_names(1)]) (simp_all add: test_args_def parse_simps quarter_second)

lemma initMatcher_eq: "initMatcher Parse h r n =
    matcher_RunE h (parsed matcher_flagset (test_args r n @ [(''matchmaker_target'', Some matchmakerTarget)]))"
  unfolding initMatcher_def
  by (rule execute_args [OF _ flag_names(2)]) (simp_all add: test_args_def parse_simps)

lemma initDispenser_eq: "initDispenser Parse h r n =
    dispenser_RunE h (parsed dispenser_flagset (test_args r n @ [(''assignment_target'', Some assignmentServiceTarget)]))"
  unfolding initDispenser_def
  by (rule execute_args [OF _ flag_names(3)]) (simp_all add: test_args_def parse_simps)

lemma initMatchmaker_eq: "initMatchmaker Parse x =
    matchmaker_RunE x (parsed matchmaker_flagset [(''address'', Some matchmakerTarget)])"
  unfolding initMatchmaker_def
  by (rule execute_args [OF _ example_flag_names(2)]) (simp_all add: parse_simps example_flagset_defs)

lemma initAssignmentService_eq: "initAssignmentService Parse x =
    assignment_RunE x (parsed assignment_flagset [(''address'', Some assignmentServiceTarget)])"
  unfolding initAssignmentService_def
  by (rule execute_args [OF _ example_flag_names(1)]) (simp_all add: parse_simps example_flagset_defs)

end

section \<open>What stopping does\<close>

text \<open>
  The matcher, whose context is \<open>ctx\<close>, is waiting, and the packages of \<open>A\<close> have finished.
\<close>

definition only_matcher_left ::
  "'w runtime \<Rightarrow> ctx \<Rightarrow> package set \<Rightarrow> 'w all_vars \<Rightarrow> bool" where
  "only_matcher_left rt ctx A s \<longleftrightarrow> \<not> rt_done rt ctx (fst s) \<and>
    snd s MatcherCmd = \<lparr>cmd_wg = 1, cmd_Stop = StopContext ctx\<rparr> \<and>
    (\<forall>p. p \<noteq> MatcherCmd \<longrightarrow> cmd_Stop (snd s p) \<noteq> StopContext ctx) \<and>
    (\<forall>p \<in> A. cmd_wg (snd s p) = 0)"

text \<open>A package does not end the context of another one: neither its server nor what it does at its end.\<close>

definition minds_its_context ::
  "'w runtime \<Rightarrow> ctx \<Rightarrow> 'w host \<Rightarrow> ('w \<times> cmd_vars \<Rightarrow> 'w \<times> cmd_vars) \<Rightarrow> bool" where
  "minds_its_context rt ctx h g \<longleftrightarrow> host_rt h = rt \<and>
    (\<forall>w. rt_done rt ctx (host_GracefulStop h w) = rt_done rt ctx w) \<and>
    (\<forall>w v. rt_done rt ctx (fst (g (w, v))) = rt_done rt ctx w \<and> cmd_Stop (snd (g (w, v))) = cmd_Stop v)"

text \<open>Neither do the two servers of the test, which run on their own.\<close>

definition servers_apart ::
  "'w runtime \<Rightarrow> ctx \<Rightarrow> (nat \<Rightarrow> 'w \<Rightarrow> 'w) \<Rightarrow> (nat \<Rightarrow> 'w \<Rightarrow> error option \<times> 'w) \<Rightarrow> bool" where
  "servers_apart rt ctx Shutdown Term \<longleftrightarrow>
    (\<forall>k w. rt_done rt ctx (Shutdown k w) = rt_done rt ctx w \<and> rt_done rt ctx (snd (Term k w)) = rt_done rt ctx w)"

definition separate_contexts :: "'w runtime \<Rightarrow> bool" where
  "separate_contexts rt \<longleftrightarrow> (\<forall>c c' w. c \<noteq> c' \<longrightarrow> rt_done rt c (rt_cancel rt c' w) = rt_done rt c w)"

lemma package_Stop_step:
  assumes "separate_contexts rt" and "minds_its_context rt ctx (hs p) (gs p)" and "p \<noteq> MatcherCmd"
    and s: "only_matcher_left rt ctx A s" and "package_Stop hs gs p s = (Ret u, s')"
  shows "only_matcher_left rt ctx (insert p A) s'"
proof -
  obtain w vs where wv: "s = (w, vs)" by force
  from assms(5) obtain w' v where c: "call_Stop (hs p) (gs p) (w, vs p) = (Ret u, (w', v))" "s' = (w', vs(p := v))"
    by (auto simp: wv package_Stop_def split: prod.splits)
  have alive: "\<not> rt_done rt ctx w" and other: "cmd_Stop (vs p) \<noteq> StopContext ctx"
    using s assms(3) by (simp_all add: only_matcher_left_def wv)
  from c(1) have "\<not> rt_done rt ctx w' \<and> cmd_wg v = 0 \<and> cmd_Stop v = cmd_Stop (vs p)"
    using alive other assms(1,2)
    by (cases "cmd_Stop (vs p)") (auto simp: call_Stop_def Let_def minds_its_context_def separate_contexts_def
        prod_eq_iff split: if_splits)
  with s assms(3) show ?thesis by (auto simp: only_matcher_left_def wv c(2))
qed

lemma package_Stops:
  assumes "separate_contexts rt" and "\<forall>p. p \<noteq> MatcherCmd \<longrightarrow> minds_its_context rt ctx (hs p) (gs p)"
    and "MatcherCmd \<notin> set ps"
    and "only_matcher_left rt ctx A s" and "for_each (package_Stop hs gs) ps s = (Ret u, s')"
  shows "only_matcher_left rt ctx (set ps \<union> A) s'"
  using assms(3-)
proof (induction ps arbitrary: A s)
  case Nil
  then show ?case by simp
next
  case (Cons p ps)
  from Cons.prems(3) obtain s1 where s1: "package_Stop hs gs p s = (Ret (), s1)"
    "for_each (package_Stop hs gs) ps s1 = (Ret u, s')"
    by (auto elim!: go_bind_cases)
  from Cons.prems(1) assms(2) have "minds_its_context rt ctx (hs p) (gs p)" "p \<noteq> MatcherCmd" by auto
  from package_Stop_step [OF assms(1) this Cons.prems(2) s1(1)] have "only_matcher_left rt ctx (insert p A) s1" .
  with Cons.IH [of "insert p A" s1] Cons.prems(1) s1(2) show ?case by simp
qed

lemma TearDownSuite_stops: "TearDownSuite Shutdown Term n r hs gs (w, vs) = for_each (package_Stop hs gs)
    [FrontendCmd, AccumulatorCmd, MatchmakerCmd, DispenserCmd, MatchmakerCmd, AssignmentCmd]
    (snd (Term r (Shutdown n w)), vs)"
  by (simp add: TearDownSuite_def Let_def case_prod_beta stopFrontend_def stopAccumulator_def stopMatcher_def stopDispenser_def
      stopMatchmaker_def stopAssignmentService_def)

section \<open>What a player does\<close>

lemma player_served:
  assumes "pl_frontendServiceClient p ctx (player_request (pl_playerID p)) w = (Inr (Inr resp # rs), w1)"
    and "mresp_GameServer resp = Some gs" and "gs_GameServerIp gs \<noteq> []" and "0 < tv_wg v"
  shows "playTheGame p ctx (w, v) = (Ret (), (w1, v\<lparr>tv_assignment := (tv_assignment v)(pl_playerID p \<mapsto> gs),
    tv_wg := tv_wg v - 1\<rparr>))"
  using assms by (simp add: playTheGame_def require_NoError_def require_NotNil_def set_assignment_def test_wg_Done_def
      go_bind_def no_capture_def call_def)

text \<open>
  A goroutine that \<open>require\<close> ends does not reach \<open>wg.Done\<close>: the test, which waits for it, hangs.
\<close>

lemma unserved_player_hangs:
  assumes "pl_frontendServiceClient p ctx (player_request (pl_playerID p)) w = (res, w1)"
    and "(\<exists>err. res = Inl err) \<or> (\<exists>err rs. res = Inr (Inl err # rs)) \<or>
      (\<exists>resp rs. res = Inr (Inr resp # rs) \<and> mresp_GameServer resp = None)" and "0 < tv_wg v"
  shows "\<exists>v'. playTheGame p ctx (w, v) = (Blocked, (w1, v')) \<and> tv_failed v' \<and>
    test_wg_Wait (w1, v') = (Blocked, (w1, v'))"
  by (rule exI [of _ "v\<lparr>tv_failed := True\<rparr>"])
    (use assms in \<open>auto simp: playTheGame_def require_NoError_def require_NotNil_def t_FailNow_def test_wg_Wait_def
      go_bind_def no_capture_def call_def\<close>)

section \<open>Properties\<close>

text \<open>C21: The system tests put the program together. Started with the arguments of the set up, the commands
  accept them; the accumulator waits for the requests of the default queue, the matcher for the batches
  of the default queue and the dispenser for the unassigned matches; the frontend listens where
  the players dial and serves the queue that they ask for; the example services listen on the targets
  that the matcher and the dispenser are given.\<close>

theorem system_tests_wire:
  assumes "flag_library Parse" and "connected_host h nc log"
    and "dials h matchmakerTarget" and "dials h assignmentServiceTarget"
  shows "(\<exists>fl. GetString fl ''redis_addr'' = r \<and> waits_on (initAccumulator Parse h r n) (host_rt h)
      (tm_streamClient (host_tickets h nc fl)) (GetMatchRequestTopic ''default'') w) \<and>
    (\<exists>fl. GetString fl ''redis_addr'' = r \<and> waits_on (initMatcher Parse h r n) (host_rt h)
      (tm_streamClient (host_tickets h nc fl)) (GetAccumulatedMatchRequestTopic ''default'') w) \<and>
    (\<exists>fl. GetString fl ''redis_addr'' = r \<and> waits_on (initDispenser Parse h r n) (host_rt h)
      (tm_streamClient (host_tickets h nc fl)) GetUnassignedMatchesTopic w) \<and>
    (\<exists>fl. initFrontend Parse h r n = frontend_RunE h fl \<and> GetString fl ''address'' = frontendTarget \<and>
      req_MatchmakingQueue (player_request p) \<in> svc_queues (NewService (GetStringSlice fl ''queues'') tm)) \<and>
    (\<exists>fl. initMatchmaker Parse x = matchmaker_RunE x fl \<and> GetString fl ''address'' = matchmakerTarget) \<and>
    (\<exists>fl. initAssignmentService Parse x = assignment_RunE x fl \<and> GetString fl ''address'' = assignmentServiceTarget)"
proof -
  let ?acc = "parsed accumulator_flagset (test_args r n @ [(''max_delay'', Some quarter_second)])"
  let ?mat = "parsed matcher_flagset (test_args r n @ [(''matchmaker_target'', Some matchmakerTarget)])"
  let ?dis = "parsed dispenser_flagset (test_args r n @ [(''assignment_target'', Some assignmentServiceTarget)])"
  let ?fe = "parsed frontend_flagset (test_args r n @ [(''address'', Some frontendTarget)])"
  note eqs = flag_library.initAccumulator_eq [OF assms(1)] flag_library.initMatcher_eq [OF assms(1)]
    flag_library.initDispenser_eq [OF assms(1)] flag_library.initFrontend_eq [OF assms(1)]
    flag_library.initMatchmaker_eq [OF assms(1)] flag_library.initAssignmentService_eq [OF assms(1)]
  have fl: "GetString ?acc ''redis_addr'' = r" "GetString ?acc ''queue'' = ''default''" "GetInt64 ?acc ''max_delay'' = 250"
    "GetString ?mat ''redis_addr'' = r" "GetString ?mat ''queue'' = ''default''"
    "GetString ?mat ''matchmaker_target'' = matchmakerTarget"
    "GetString ?dis ''redis_addr'' = r" "GetString ?dis ''assignment_target'' = assignmentServiceTarget"
    by (simp_all add: parsed_def test_args_def flagset_defs quarter_second)
  have fe: "GetString ?fe ''address'' = frontendTarget" "GetStringSlice ?fe ''queues'' = [''default'']"
    by (simp_all add: parsed_def test_args_def flagset_defs)
  have delay: "0 <s GetInt64 ?acc ''max_delay'' * (1000000 :: int64)"
    unfolding fl(3) by (simp add: word_sless_alt)
  from connected_host.accumulator_waits [OF assms(2) delay] fl(1) have a: "\<exists>fl. GetString fl ''redis_addr'' = r \<and>
      waits_on (initAccumulator Parse h r n) (host_rt h) (tm_streamClient (host_tickets h nc fl))
        (GetMatchRequestTopic ''default'') w"
    unfolding eqs fl(2) by blast
  from connected_host.matcher_waits [OF assms(2), of ?mat] assms(3) fl(4) have m: "\<exists>fl. GetString fl ''redis_addr'' = r \<and>
      waits_on (initMatcher Parse h r n) (host_rt h) (tm_streamClient (host_tickets h nc fl))
        (GetAccumulatedMatchRequestTopic ''default'') w"
    unfolding eqs fl(5,6) by blast
  from connected_host.dispenser_waits [OF assms(2), of ?dis] assms(4) fl(7) have d: "\<exists>fl. GetString fl ''redis_addr'' = r \<and>
      waits_on (initDispenser Parse h r n) (host_rt h) (tm_streamClient (host_tickets h nc fl)) GetUnassignedMatchesTopic w"
    unfolding eqs fl(8) by blast
  have f: "\<exists>fl. initFrontend Parse h r n = frontend_RunE h fl \<and> GetString fl ''address'' = frontendTarget \<and>
      req_MatchmakingQueue (player_request p) \<in> svc_queues (NewService (GetStringSlice fl ''queues'') tm)"
    unfolding eqs by (rule exI [of _ ?fe]) (simp add: fe player_request_def NewService_def)
  have e: "\<exists>fl. initMatchmaker Parse x = matchmaker_RunE x fl \<and> GetString fl ''address'' = matchmakerTarget"
    "\<exists>fl. initAssignmentService Parse x = assignment_RunE x fl \<and> GetString fl ''address'' = assignmentServiceTarget"
    unfolding eqs by (rule exI, rule conjI, rule refl, simp add: parsed_def example_flagset_defs)+
  show ?thesis by (intro conjI a m d f e)
qed

theorem system_tests_wire_witness:
  "\<exists>fl. waits_on (initAccumulator mem_Parse (mem_host all_works) ''/tmp/redis.sock'' ''nats://127.0.0.1:4222'') mem_runtime
    (tm_streamClient (host_tickets (mem_host all_works) (mem_nats all_works) fl)) (GetMatchRequestTopic ''default'') world0"
proof -
  have "dials (mem_host all_works) t" for t by (simp add: dials_def mem_host_def)
  from system_tests_wire [OF mem_flags.flag_library_axioms mem_host.connected_host_axioms this this,
      of "''/tmp/redis.sock''" "''nats://127.0.0.1:4222''" world0 undefined undefined undefined]
  show ?thesis by auto
qed

text \<open>C39: The tear-down of the system tests leaves the matcher running. When it starts, the matcher waits with
  its own context. If the tear-down returns, then the five other commands have finished, but the
  context of the matcher has not ended and its wait group is still at one: the matchmaker is stopped
  twice instead.\<close>

theorem teardown_leaves_matcher:
  assumes "separate_contexts rt" and "\<forall>p. p \<noteq> MatcherCmd \<longrightarrow> minds_its_context rt ctx (hs p) (gs p)"
    and "servers_apart rt ctx Shutdown Term"
    and "\<not> rt_done rt ctx w" and "vs MatcherCmd = \<lparr>cmd_wg = 1, cmd_Stop = StopContext ctx\<rparr>"
    and "\<forall>p. p \<noteq> MatcherCmd \<longrightarrow> cmd_Stop (vs p) \<noteq> StopContext ctx"
    and "TearDownSuite Shutdown Term natsServer redis hs gs (w, vs) = (Ret (), (w', vs'))"
  shows "\<not> rt_done rt ctx w' \<and> vs' MatcherCmd = \<lparr>cmd_wg = 1, cmd_Stop = StopContext ctx\<rparr> \<and>
    (\<forall>p. p \<noteq> MatcherCmd \<longrightarrow> cmd_wg (vs' p) = 0)"
proof -
  have start: "only_matcher_left rt ctx {} (snd (Term redis (Shutdown natsServer w)), vs)"
    using assms(3-6) by (simp add: only_matcher_left_def servers_apart_def)
  have "only_matcher_left rt ctx (set [FrontendCmd, AccumulatorCmd, MatchmakerCmd, DispenserCmd, MatchmakerCmd, AssignmentCmd] \<union> {})
      (w', vs')"
    by (rule package_Stops [OF assms(1,2) _ start]) (use assms(7) in \<open>simp_all add: TearDownSuite_stops\<close>)
  moreover have "\<forall>p. p = MatcherCmd \<or> p \<in> {FrontendCmd, AccumulatorCmd, MatchmakerCmd, DispenserCmd, AssignmentCmd}"
    by code_simp
  ultimately show ?thesis by (auto simp: only_matcher_left_def)
qed

text \<open>The variables of the packages when all commands run, and a process whose commands end when they are stopped.\<close>

definition running_vars :: "package \<Rightarrow> cmd_vars" where
  "running_vars p = (case p of
      AccumulatorCmd \<Rightarrow> \<lparr>cmd_wg = 1, cmd_Stop = StopContext 1\<rparr>
    | MatcherCmd \<Rightarrow> \<lparr>cmd_wg = 1, cmd_Stop = StopContext 2\<rparr>
    | DispenserCmd \<Rightarrow> \<lparr>cmd_wg = 1, cmd_Stop = StopContext 3\<rparr>
    | _ \<Rightarrow> \<lparr>cmd_wg = 1, cmd_Stop = StopServer\<rparr>)"

definition ends :: "package \<Rightarrow> world \<times> cmd_vars \<Rightarrow> world \<times> cmd_vars" where
  "ends p = (\<lambda>(w, v). (w, v\<lparr>cmd_wg := 0\<rparr>))"

theorem teardown_leaves_matcher_witness:
  "\<exists>w' vs'. TearDownSuite (\<lambda>_ w. w) (\<lambda>_ w. (None, w)) 0 0 (\<lambda>_. mem_host all_works) ends (world0, running_vars) = (Ret (), (w', vs')) \<and>
    \<not> rt_done mem_runtime 2 w' \<and> vs' MatcherCmd = \<lparr>cmd_wg = 1, cmd_Stop = StopContext 2\<rparr> \<and> cmd_wg (vs' DispenserCmd) = 0"
proof -
  have "\<exists>s. TearDownSuite (\<lambda>_ w. w) (\<lambda>_ w. (None, w)) 0 0 (\<lambda>_. mem_host all_works) ends (world0, running_vars) = (Ret (), s)"
    by (simp add: TearDownSuite_stops package_Stop_def call_Stop_def ends_def running_vars_def go_bind_def Let_def)
  then obtain w' vs' where run: "TearDownSuite (\<lambda>_ w. w) (\<lambda>_ w. (None, w)) 0 0 (\<lambda>_. mem_host all_works) ends (world0, running_vars) = (Ret (), (w', vs'))"
    by (metis prod.exhaust)
  have sep: "separate_contexts mem_runtime" by (simp add: separate_contexts_def mem_runtime_def)
  have minds: "\<forall>p. p \<noteq> MatcherCmd \<longrightarrow> minds_its_context mem_runtime 2 (mem_host all_works) (ends p)"
    by (simp add: minds_its_context_def mem_host_def ends_def)
  have apart: "servers_apart mem_runtime 2 (\<lambda>_ w. w) (\<lambda>_ w. (None, w))" by (simp add: servers_apart_def)
  have start: "\<not> rt_done mem_runtime 2 world0" "running_vars MatcherCmd = \<lparr>cmd_wg = 1, cmd_Stop = StopContext 2\<rparr>"
    "\<forall>p. p \<noteq> MatcherCmd \<longrightarrow> cmd_Stop (running_vars p) \<noteq> StopContext 2"
    by (simp_all add: mem_runtime_def world0_def running_vars_def split: package.split)
  from teardown_leaves_matcher [OF sep minds apart start run] run show ?thesis by blast
qed

end
