(* ===== verification/Suite.thy ===== *)
theory Suite
  imports SystemTests
begin

text \<open>
  The suite of the system tests (\<open>systemtests/simple_endtoend_test.go\<close>): its set up and its two tests, and
  what a test that passes has shown. Goroutines run to the end or to where they wait, in an order of the
  scheduler; the stream of a player is the list of all that its \<open>Recv\<close> will return, so a player who waits is
  one who is never answered. That players run as a whole loses nothing: \<open>players_interleave\<close>.
\<close>

section \<open>The set up\<close>

text \<open>The address at which a NATS server is found by default, a constant of the library.\<close>

definition DefaultURL :: string where
  "DefaultURL = ''nats://127.0.0.1:4222''"

text \<open>
  The two servers are started, then a goroutine for each command. The result is the servers and what each
  goroutine runs.
\<close>

definition SetupSuite ::
  "(flagset \<Rightarrow> string list \<Rightarrow> error + flags) \<Rightarrow> 'w host \<Rightarrow> 'w example_host \<Rightarrow> ('w \<Rightarrow> (error + nat) \<times> 'w) \<Rightarrow>
    (string \<Rightarrow> nat \<Rightarrow> 'w \<Rightarrow> (error + nat) \<times> 'w) \<Rightarrow> (nat \<Rightarrow> 'w \<Rightarrow> error option \<times> 'w) \<Rightarrow> (nat \<Rightarrow> string) \<Rightarrow>
    ('w \<times> test_vars, nat \<times> nat \<times> (package \<Rightarrow> ('w \<times> cmd_vars, error option) proc)) proc" where
  "SetupSuite Parse h x Start NewServer Run Socket =
    go_bind (initRedis Start) (\<lambda>redis.
    go_bind (initNats NewServer Run) (\<lambda>natsServer.
    let redisAddr = Socket redis; natsAddr = DefaultURL in
    go_return (redis, natsServer, \<lambda>p. case p of
        FrontendCmd \<Rightarrow> initFrontend Parse h redisAddr natsAddr
      | AccumulatorCmd \<Rightarrow> initAccumulator Parse h redisAddr natsAddr
      | MatcherCmd \<Rightarrow> initMatcher Parse h redisAddr natsAddr
      | DispenserCmd \<Rightarrow> initDispenser Parse h redisAddr natsAddr
      | MatchmakerCmd \<Rightarrow> initMatchmaker Parse x
      | AssignmentCmd \<Rightarrow> initAssignmentService Parse x)))"

section \<open>The tests\<close>

text \<open>The variables of a test at its beginning.\<close>

definition test_vars0 :: test_vars where
  "test_vars0 = \<lparr>tv_failed = False, tv_wg = 0, tv_assignment = Map.empty\<rparr>"

definition test_wg_Add :: "nat \<Rightarrow> ('w \<times> test_vars, unit) proc" where
  "test_wg_Add n = (\<lambda>(w, v). (Ret (), (w, v\<lparr>tv_wg := tv_wg v + n\<rparr>)))"

text \<open>
  \<open>go f()\<close>: the caller goes on when the goroutine ends or waits; a panic ends the process. The goroutine runs
  as a whole; \<open>Interleavings of the players\<close> below is about schedules that switch in between.
\<close>

definition goroutine :: "('s, unit) proc \<Rightarrow> ('s, unit) proc" where
  "goroutine f = (\<lambda>s. case f s of (Panic p, s') \<Rightarrow> (Panic p, s') | (_, s') \<Rightarrow> (Ret (), s'))"

text \<open>\<open>assert.Equal(s.T(), p1.assignment.GameServerIp, p2.assignment.GameServerIp)\<close>\<close>

definition assert_same_server :: "'w player \<Rightarrow> 'w player \<Rightarrow> ('w \<times> test_vars, unit) proc" where
  "assert_same_server p1 p2 =
    go_bind captured (\<lambda>v.
    go_bind (deref (tv_assignment v (pl_playerID p1))) (\<lambda>gs1.
    go_bind (deref (tv_assignment v (pl_playerID p2))) (\<lambda>gs2.
    if gs_GameServerIp gs1 = gs_GameServerIp gs2 then go_return () else t_Fail)))"

text \<open>\<open>order\<close> is the order in which the scheduler runs the goroutines that are ready.\<close>

definition TestTwoPlayerMatch ::
  "'w cli_host \<Rightarrow> ('w player list \<Rightarrow> 'w player list) \<Rightarrow> ('w \<times> test_vars, unit) proc" where
  "TestTwoPlayerMatch h order =
    go_bind (no_capture (call (cli_Dial h frontendTarget))) (\<lambda>res.
    go_bind (require_NoError res) (\<lambda>frontendConn.
    let frontendServiceClient = cli_RivalryServiceClient h frontendConn; ctx = cli_Background h;
        p1 = newPlayer frontendServiceClient ''Player 1''; p2 = newPlayer frontendServiceClient ''Player 2'' in
    go_bind (test_wg_Add 2) (\<lambda>_.
    go_bind (for_each (\<lambda>p. goroutine (playTheGame p ctx)) (order [p1, p2])) (\<lambda>_.
    go_bind test_wg_Wait (\<lambda>_. assert_same_server p1 p2)))))"

text \<open>The first player plays while the test sleeps, the second one after it.\<close>

definition TestTwoPlayerMatchWithPauseBetweenSubmissions ::
  "'w cli_host \<Rightarrow> ('w \<Rightarrow> 'w) \<Rightarrow> ('w \<times> test_vars, unit) proc" where
  "TestTwoPlayerMatchWithPauseBetweenSubmissions h Sleep =
    go_bind (no_capture (call (cli_Dial h frontendTarget))) (\<lambda>res.
    go_bind (require_NoError res) (\<lambda>frontendConn.
    let frontendServiceClient = cli_RivalryServiceClient h frontendConn; ctx = cli_Background h;
        p1 = newPlayer frontendServiceClient ''Player 1'' in
    go_bind (test_wg_Add 1) (\<lambda>_.
    go_bind (goroutine (playTheGame p1 ctx)) (\<lambda>_.
    go_bind (no_capture (call (\<lambda>w. ((), Sleep w)))) (\<lambda>_.
    let p2 = newPlayer frontendServiceClient ''Player 2'' in
    go_bind (test_wg_Add 1) (\<lambda>_.
    go_bind (goroutine (playTheGame p2 ctx)) (\<lambda>_.
    go_bind test_wg_Wait (\<lambda>_. assert_same_server p1 p2))))))))"

section \<open>What a goroutine of a player does\<close>

text \<open>It marks the test as failed, keeps the address of its server and counts down, or waits.\<close>

definition has_played :: "'w player \<Rightarrow> test_vars \<Rightarrow> test_vars \<Rightarrow> bool" where
  "has_played p v v' \<longleftrightarrow> (\<exists>gs. gs_GameServerIp gs \<noteq> [] \<and> 0 < tv_wg v \<and>
     v' = v\<lparr>tv_assignment := (tv_assignment v)(pl_playerID p \<mapsto> gs), tv_wg := tv_wg v - 1\<rparr>)"

lemma playTheGame_cases:
  assumes "goroutine (playTheGame p ctx) (w, v) = (Ret u, (w', v'))"
  shows "tv_failed v' \<or> has_played p v v' \<or> v' = v"
proof -
  obtain res w1 where c: "pl_frontendServiceClient p ctx (player_request (pl_playerID p)) w = (res, w1)" by force
  note eval = goroutine_def playTheGame_def go_bind_def no_capture_def call_def c
  show ?thesis
  proof (cases res)
    case (Inl err)
    with assms show ?thesis by (auto simp: eval require_NoError_def t_FailNow_def)
  next
    case (Inr cli)
    show ?thesis
    proof (cases cli)
      case Nil
      with assms Inr show ?thesis by (simp add: eval require_NoError_def)
    next
      case (Cons received rs)
      note got = Inr Cons
      show ?thesis
      proof (cases received)
        case (Inl err)
        with assms got show ?thesis by (auto simp: eval require_NoError_def t_FailNow_def)
      next
        case (Inr resp)
        show ?thesis
        proof (cases "mresp_GameServer resp")
          case None
          with assms got Inr show ?thesis
            by (auto simp: eval require_NoError_def require_NotNil_def t_FailNow_def)
        next
          case (Some gs)
          with assms got Inr show ?thesis
            by (auto simp: eval require_NoError_def require_NotNil_def t_Fail_def set_assignment_def test_wg_Done_def
                has_played_def split: if_splits)
        qed
      qed
    qed
  qed
qed

lemma playTheGame_failed:
  assumes "tv_failed v" and "goroutine (playTheGame p ctx) (w, v) = (Ret u, (w', v'))"
  shows "tv_failed v'"
  using playTheGame_cases [OF assms(2)] assms(1) by (auto simp: has_played_def)

lemma playTheGame_wg: "has_played p v v' \<Longrightarrow> Suc (tv_wg v') = tv_wg v"
  by (auto simp: has_played_def)

text \<open>When the wait group is down to zero, both players have been served.\<close>

lemma both_played:
  assumes first: "goroutine (playTheGame p ctx) (w, v) = (Ret a, (w1, v1))"
    and second: "goroutine (playTheGame q ctx) (w2, v2) = (Ret c, (w3, v3))"
    and v2: "v2 = v1\<lparr>tv_wg := tv_wg v1 + n\<rparr>" and wg: "tv_wg v + n = 2" and zero: "tv_wg v3 = 0" and ok: "\<not> tv_failed v3"
  shows "has_played p v v1 \<and> has_played q v2 v3"
proof -
  from playTheGame_failed [OF _ second] ok have ok2: "\<not> tv_failed v2" by blast
  then have "\<not> tv_failed v1" by (simp add: v2)
  with playTheGame_cases [OF first] have c1: "has_played p v v1 \<or> v1 = v" by blast
  from playTheGame_cases [OF second] ok have c2: "has_played q v2 v3 \<or> v3 = v2" by blast
  from c1 c2 show ?thesis using wg zero by (auto simp: v2 dest: playTheGame_wg)
qed

section \<open>Interleavings of the players\<close>

text \<open>
  \<open>goroutine\<close> runs a player as a whole, where the scheduler may switch. What \<open>Match\<close> returns is the stream
  of all that its \<open>Recv\<close> will return, so a player is two steps: the call, which acts on the world, and what
  it does with the first response, which acts on the variables of the test. Here the two steps of one player
  are interleaved with those of the other in any way.
\<close>

type_synonym player_answers = "string \<Rightarrow> (error + (error + api_MatchResponse) list) option"

definition player_handles ::
  "'w player \<Rightarrow> error + (error + api_MatchResponse) list \<Rightarrow> ('w \<times> test_vars, unit) proc" where
  "player_handles p res =
    go_bind (require_NoError res) (\<lambda>cli.
    case cli of [] \<Rightarrow> go_block | received # _ \<Rightarrow>
    go_bind (require_NoError received) (\<lambda>watchResp.
    go_bind (require_NotNil (mresp_GameServer watchResp)) (\<lambda>gs.
    go_bind (if gs_GameServerIp gs = [] then t_Fail else go_return ()) (\<lambda>_.
    go_bind (set_assignment (pl_playerID p) gs) (\<lambda>_. test_wg_Done)))))"

lemma playTheGame_steps: "playTheGame p ctx =
    go_bind (no_capture (call (pl_frontendServiceClient p ctx (player_request (pl_playerID p))))) (player_handles p)"
  unfolding playTheGame_def player_handles_def [abs_def] ..

definition player_asks :: "'w player \<Rightarrow> ctx \<Rightarrow> (('w \<times> test_vars) \<times> player_answers, unit) proc" where
  "player_asks p ctx = (\<lambda>((w, v), l).
    case pl_frontendServiceClient p ctx (player_request (pl_playerID p)) w of
      (res, w1) \<Rightarrow> (Ret (), ((w1, v), l(pl_playerID p \<mapsto> res))))"

definition player_reads :: "'w player \<Rightarrow> (('w \<times> test_vars) \<times> player_answers, unit) proc" where
  "player_reads p = (\<lambda>(s, l). case l (pl_playerID p) of
      None \<Rightarrow> (Blocked, (s, l))
    | Some res \<Rightarrow> (case goroutine (player_handles p res) s of (r, s1) \<Rightarrow> (r, (s1, l))))"

definition player_steps :: "'w player \<Rightarrow> ctx \<Rightarrow> (('w \<times> test_vars) \<times> player_answers, unit) proc list" where
  "player_steps p ctx = [player_asks p ctx, player_reads p]"

text \<open>What a response does to the variables of the test.\<close>

definition handled :: "'w player \<Rightarrow> error + (error + api_MatchResponse) list \<Rightarrow> test_vars \<Rightarrow> test_vars" where
  "handled p res v = (case res of
      Inr [] \<Rightarrow> v
    | Inr (Inr resp # _) \<Rightarrow> (case mresp_GameServer resp of
          Some gs \<Rightarrow> v\<lparr>tv_failed := tv_failed v \<or> gs_GameServerIp gs = [],
            tv_assignment := (tv_assignment v)(pl_playerID p \<mapsto> gs), tv_wg := tv_wg v - 1\<rparr>
        | None \<Rightarrow> v\<lparr>tv_failed := True\<rparr>)
    | _ \<Rightarrow> v\<lparr>tv_failed := True\<rparr>)"

lemma goroutine_handles:
  assumes "0 < tv_wg v"
  shows "goroutine (player_handles p res) (w, v) = (Ret (), (w, handled p res v))"
  using assms
  by (auto simp: goroutine_def player_handles_def handled_def go_bind_def require_NoError_def require_NotNil_def
      t_Fail_def t_FailNow_def set_assignment_def test_wg_Done_def split: sum.split list.split option.split)

lemma handled_wg: "tv_wg v - 1 \<le> tv_wg (handled p res v)"
  by (simp add: handled_def split: sum.split list.split option.split)

lemma handled_commute:
  assumes "pl_playerID p \<noteq> pl_playerID q"
  shows "handled q res' (handled p res v) = handled p res (handled q res' v)"
  using assms by (auto simp: handled_def fun_upd_twist disj_commute disj_left_commute split: sum.split list.split option.split)

lemma goroutine_plays:
  assumes "0 < tv_wg v" and "pl_frontendServiceClient p ctx (player_request (pl_playerID p)) w = (res, w1)"
  shows "goroutine (playTheGame p ctx) (w, v) = (Ret (), (w1, handled p res v))"
  using goroutine_handles [OF assms(1), of p res w1] assms(2)
  by (simp add: playTheGame_steps goroutine_def go_bind_def no_capture_def call_def)

text \<open>The six interleavings of two players.\<close>

lemma player_interleavings:
  assumes "ss \<in> shuffles (player_steps p ctx) (player_steps q ctx)"
  shows "ss \<in> set [
    [player_asks p ctx, player_reads p, player_asks q ctx, player_reads q],
    [player_asks p ctx, player_asks q ctx, player_reads p, player_reads q],
    [player_asks p ctx, player_asks q ctx, player_reads q, player_reads p],
    [player_asks q ctx, player_asks p ctx, player_reads p, player_reads q],
    [player_asks q ctx, player_asks p ctx, player_reads q, player_reads p],
    [player_asks q ctx, player_reads q, player_asks p ctx, player_reads p]]"
  using assms by (auto simp: player_steps_def)

lemma player_step_runs:
  "pl_frontendServiceClient p ctx (player_request (pl_playerID p)) w = (res, w1) \<Longrightarrow>
    player_asks p ctx ((w, v), l) = (Ret (), ((w1, v), l(pl_playerID p \<mapsto> res)))"
  "l (pl_playerID p) = Some res \<Longrightarrow> 0 < tv_wg v \<Longrightarrow>
    player_reads p ((w, v), l) = (Ret (), ((w, handled p res v), l))"
  by (simp_all add: player_asks_def player_reads_def goroutine_handles)

text \<open>
  However the steps of two players are interleaved, the world and the variables of the test end as they do
  when the players run one after the other, in the order of their calls.
\<close>

theorem players_interleave:
  fixes p q :: "'w player"
  assumes "pl_playerID p \<noteq> pl_playerID q" and "2 \<le> tv_wg v"
    and "ss \<in> shuffles (player_steps p ctx) (player_steps q ctx)"
  shows "\<exists>order s l. mset order = mset [p, q] \<and>
    for_each (\<lambda>f. f) ss ((w, v), Map.empty) = (Ret (), (s, l)) \<and>
    for_each (\<lambda>p. goroutine (playTheGame p ctx)) order (w, v) = (Ret (), s)"
proof -
  have run: "\<exists>s l. for_each (\<lambda>f. f) ss ((w, v), Map.empty) = (Ret (), (s, l)) \<and>
      for_each (\<lambda>p. goroutine (playTheGame p ctx)) [a, b] (w, v) = (Ret (), s)"
    if ids: "pl_playerID a \<noteq> pl_playerID b"
      and ss: "ss \<in> {[player_asks a ctx, player_reads a, player_asks b ctx, player_reads b],
        [player_asks a ctx, player_asks b ctx, player_reads a, player_reads b],
        [player_asks a ctx, player_asks b ctx, player_reads b, player_reads a]}" for a b :: "'w player"
  proof -
    obtain ra w1 where a: "pl_frontendServiceClient a ctx (player_request (pl_playerID a)) w = (ra, w1)" by force
    obtain rb w2 where b: "pl_frontendServiceClient b ctx (player_request (pl_playerID b)) w1 = (rb, w2)" by force
    have wg: "0 < tv_wg v" "0 < tv_wg (handled a ra v)" "0 < tv_wg (handled b rb v)"
      using assms(2) handled_wg [of v a ra] handled_wg [of v b rb] by linarith+
    have seq: "for_each (\<lambda>p. goroutine (playTheGame p ctx)) [a, b] (w, v) =
        (Ret (), (w2, handled b rb (handled a ra v)))"
      using goroutine_plays [OF wg(1) a] goroutine_plays [OF wg(2) b] by (simp add: go_bind_def)
    have "\<exists>l. for_each (\<lambda>f. f) ss ((w, v), Map.empty) = (Ret (), ((w2, handled b rb (handled a ra v)), l))"
      using ss ids wg handled_commute [OF ids, of rb ra v]
      by (auto simp: go_bind_def player_step_runs(1) [OF a] player_step_runs(1) [OF b] player_step_runs(2))
    with seq show ?thesis by blast
  qed
  from player_interleavings [OF assms(3)] consider
    "ss \<in> {[player_asks p ctx, player_reads p, player_asks q ctx, player_reads q],
      [player_asks p ctx, player_asks q ctx, player_reads p, player_reads q],
      [player_asks p ctx, player_asks q ctx, player_reads q, player_reads p]}"
    | "ss \<in> {[player_asks q ctx, player_reads q, player_asks p ctx, player_reads p],
      [player_asks q ctx, player_asks p ctx, player_reads q, player_reads p],
      [player_asks q ctx, player_asks p ctx, player_reads p, player_reads q]}" by auto
  then show ?thesis
  proof cases
    case 1
    from run [OF assms(1) this] show ?thesis by (intro exI [of _ "[p, q]"]) simp
  next
    case 2
    from run [OF assms(1) [symmetric] this] show ?thesis by (intro exI [of _ "[q, p]"]) (simp add: add_mset_commute)
  qed
qed

theorem players_interleave_witness:
  "\<exists>order s l. mset order = mset [newPlayer (\<lambda>ctx req w. (Inr [Inr sample_response], Suc w)) ''Player 1'',
      newPlayer (\<lambda>ctx req w. (Inr [Inr sample_response], Suc w)) ''Player 2''] \<and>
    for_each (\<lambda>f. f)
      [player_asks (newPlayer (\<lambda>ctx req w. (Inr [Inr sample_response], Suc w)) ''Player 1'') 0,
       player_asks (newPlayer (\<lambda>ctx req w. (Inr [Inr sample_response], Suc w)) ''Player 2'') 0,
       player_reads (newPlayer (\<lambda>ctx req w. (Inr [Inr sample_response], Suc w)) ''Player 2''),
       player_reads (newPlayer (\<lambda>ctx req w. (Inr [Inr sample_response], Suc w)) ''Player 1'')]
      ((0, test_vars0\<lparr>tv_wg := 2\<rparr>), Map.empty) = (Ret (), (s, l)) \<and>
    for_each (\<lambda>p. goroutine (playTheGame p 0)) order (0, test_vars0\<lparr>tv_wg := 2\<rparr>) = (Ret (), s)"
  by (rule players_interleave) (simp_all add: newPlayer_def player_steps_def)

section \<open>What the tests show\<close>

definition passes :: "('w \<times> test_vars, unit) proc \<Rightarrow> 'w \<Rightarrow> test_vars \<Rightarrow> bool" where
  "passes test w v \<longleftrightarrow> (\<exists>w'. test (w, test_vars0) = (Ret (), (w', v))) \<and> \<not> tv_failed v"

definition same_server :: "test_vars \<Rightarrow> bool" where
  "same_server v \<longleftrightarrow> (\<exists>gs1 gs2. tv_assignment v ''Player 1'' = Some gs1 \<and> tv_assignment v ''Player 2'' = Some gs2 \<and>
     gs_GameServerIp gs1 \<noteq> [] \<and> gs_GameServerIp gs1 = gs_GameServerIp gs2)"

text \<open>The frontend answers every player with a server at this address.\<close>

definition answers_players :: "'w cli_host \<Rightarrow> string \<Rightarrow> bool" where
  "answers_players h ip \<longleftrightarrow> ip \<noteq> [] \<and> (\<forall>w. \<exists>conn w'. cli_Dial h frontendTarget w = (Inr conn, w')) \<and>
     (\<forall>conn n w. \<exists>gs rs w'. cli_RivalryServiceClient h conn (cli_Background h) (player_request n) w =
        (Inr (Inr \<lparr>mresp_GameServer = Some gs\<rparr> # rs), w') \<and> gs_GameServerIp gs = ip)"

lemma assert_same_server_ok:
  assumes "assert_same_server p1 p2 (w, v) = (Ret u, (w', v'))" and "\<not> tv_failed v'"
  shows "v' = v \<and> (\<exists>gs1 gs2. tv_assignment v (pl_playerID p1) = Some gs1 \<and>
    tv_assignment v (pl_playerID p2) = Some gs2 \<and> gs_GameServerIp gs1 = gs_GameServerIp gs2)"
  using assms by (cases "tv_assignment v (pl_playerID p1)"; cases "tv_assignment v (pl_playerID p2)")
    (auto simp: assert_same_server_def go_bind_def t_Fail_def split: if_splits)

lemma test_wg_Wait_ok: "test_wg_Wait (w, v) = (Ret u, s) \<Longrightarrow> tv_wg v = 0 \<and> s = (w, v)"
  by (auto simp: test_wg_Wait_def split: if_splits)

lemma played_servers:
  assumes "has_played p v v1" and "has_played q v2 v3" and "v2 = v1\<lparr>tv_wg := k\<rparr>" and "pl_playerID p \<noteq> pl_playerID q"
  shows "\<exists>gs gs'. tv_assignment v3 (pl_playerID p) = Some gs \<and> tv_assignment v3 (pl_playerID q) = Some gs' \<and>
    gs_GameServerIp gs \<noteq> [] \<and> gs_GameServerIp gs' \<noteq> []"
  using assms by (auto simp: has_played_def)

text \<open>The end of both tests.\<close>

lemma end_of_test:
  assumes "go_bind test_wg_Wait (\<lambda>_. assert_same_server p1 p2) (w, v) = (Ret u, (w', v'))" and "\<not> tv_failed v'"
    and "pl_playerID p1 = ''Player 1''" and "pl_playerID p2 = ''Player 2''"
  shows "v' = v \<and> tv_wg v = 0 \<and> (\<exists>gs1 gs2. tv_assignment v ''Player 1'' = Some gs1 \<and>
    tv_assignment v ''Player 2'' = Some gs2 \<and> gs_GameServerIp gs1 = gs_GameServerIp gs2)"
  using assms(1)
proof (cases rule: go_bind_cases)
  case (ret a s)
  from test_wg_Wait_ok [OF ret(1)] have "tv_wg v = 0" "s = (w, v)" by simp_all
  with ret(2) assert_same_server_ok [of p1 p2 w v u w' v'] assms(2-4) show ?thesis by simp
qed simp_all

lemma two_goroutines:
  assumes "go_bind (for_each f [p, q]) k s = (Ret u, s')"
  obtains a s1 c s2 where "f p s = (Ret a, s1)" "f q s1 = (Ret c, s2)" "k () s2 = (Ret u, s')"
  using assms by (auto elim!: go_bind_cases)

lemma two_goroutines_run:
  "f p s = (Ret a, s1) \<Longrightarrow> f q s1 = (Ret c, s2) \<Longrightarrow> go_bind (for_each f [p, q]) k s = k () s2"
  by (simp add: go_bind_def)

lemma order_two:
  assumes "mset (xs :: 'a list) = mset [p, q]"
  shows "xs = [p, q] \<or> xs = [q, p]"
proof -
  have "length xs = 2" using mset_eq_length [OF assms] by simp
  then obtain a c where "xs = [a, c]" by (auto simp: length_Suc_conv numeral_2_eq_2)
  with assms show ?thesis by (auto simp: add_eq_conv_ex)
qed

text \<open>The tests on a connection.\<close>

abbreviation player1 :: "'w cli_host \<Rightarrow> nat \<Rightarrow> 'w player" where
  "player1 h conn \<equiv> newPlayer (cli_RivalryServiceClient h conn) ''Player 1''"

abbreviation player2 :: "'w cli_host \<Rightarrow> nat \<Rightarrow> 'w player" where
  "player2 h conn \<equiv> newPlayer (cli_RivalryServiceClient h conn) ''Player 2''"

lemma player_ids: "pl_playerID (player1 h conn) = ''Player 1''" "pl_playerID (player2 h conn) = ''Player 2''"
  by (simp_all add: newPlayer_def)

lemma test_not_dialled:
  assumes "cli_Dial h frontendTarget w = (Inl err, w0)"
  shows "\<not> passes (TestTwoPlayerMatch h order) w v" "\<not> passes (TestTwoPlayerMatchWithPauseBetweenSubmissions h Sleep) w v"
  using assms by (simp_all add: passes_def TestTwoPlayerMatch_def TestTwoPlayerMatchWithPauseBetweenSubmissions_def
      require_NoError_def t_FailNow_def go_bind_def no_capture_def call_def)

lemma test_steps:
  "go_bind (no_capture (call f)) k (w, v) = k (fst (f w)) (snd (f w), v)"
  "go_bind (require_NoError (Inr b)) k' s = k' b s"
  "go_bind (test_wg_Add n) k'' (w, v) = k'' () (w, v\<lparr>tv_wg := tv_wg v + n\<rparr>)"
  by (simp_all add: go_bind_def no_capture_def call_def require_NoError_def test_wg_Add_def case_prod_beta)

lemma sleep_then_add: "go_bind (no_capture (call (\<lambda>w. ((), Sleep w)))) (\<lambda>_. go_bind (test_wg_Add n) k) =
    (\<lambda>(w, v). k () (Sleep w, v\<lparr>tv_wg := tv_wg v + n\<rparr>))"
  by (rule ext) (auto simp: test_steps)

lemma test_vars0_wg: "test_vars0\<lparr>tv_wg := tv_wg test_vars0 + n\<rparr> = test_vars0\<lparr>tv_wg := n\<rparr>"
  by (simp add: test_vars0_def)

lemma TestTwoPlayerMatch_dialled:
  assumes "cli_Dial h frontendTarget w = (Inr conn, w0)"
  shows "TestTwoPlayerMatch h order (w, test_vars0) =
    go_bind (for_each (\<lambda>p. goroutine (playTheGame p (cli_Background h))) (order [player1 h conn, player2 h conn]))
      (\<lambda>_. go_bind test_wg_Wait (\<lambda>_. assert_same_server (player1 h conn) (player2 h conn)))
      (w0, test_vars0\<lparr>tv_wg := 2\<rparr>)"
  unfolding TestTwoPlayerMatch_def Let_def test_steps assms fst_conv snd_conv test_vars0_wg ..

lemma TestPause_dialled:
  assumes "cli_Dial h frontendTarget w = (Inr conn, w0)"
  shows "TestTwoPlayerMatchWithPauseBetweenSubmissions h Sleep (w, test_vars0) =
    go_bind (goroutine (playTheGame (player1 h conn) (cli_Background h))) (\<lambda>_. \<lambda>(w, v).
      go_bind (goroutine (playTheGame (player2 h conn) (cli_Background h)))
        (\<lambda>_. go_bind test_wg_Wait (\<lambda>_. assert_same_server (player1 h conn) (player2 h conn)))
        (Sleep w, v\<lparr>tv_wg := tv_wg v + 1\<rparr>))
      (w0, test_vars0\<lparr>tv_wg := 1\<rparr>)"
  unfolding TestTwoPlayerMatchWithPauseBetweenSubmissions_def Let_def sleep_then_add test_steps assms fst_conv snd_conv
    test_vars0_wg ..

text \<open>A test that passes has seen both players get a server, at one address.\<close>

lemma TestTwoPlayerMatch_sound:
  assumes "\<forall>ps. mset (order ps) = mset ps" and "passes (TestTwoPlayerMatch h order) w v'"
  shows "same_server v'"
proof (cases "cli_Dial h frontendTarget w")
  case (Pair res w0)
  with assms(2) test_not_dialled(1) [of h w _ w0 order v'] obtain conn where
    dial: "cli_Dial h frontendTarget w = (Inr conn, w0)" by (cases res) auto
  from assms(2) obtain w' where ok: "\<not> tv_failed v'" and rest: "go_bind
      (for_each (\<lambda>p. goroutine (playTheGame p (cli_Background h))) (order [player1 h conn, player2 h conn]))
      (\<lambda>_. go_bind test_wg_Wait (\<lambda>_. assert_same_server (player1 h conn) (player2 h conn)))
      (w0, test_vars0\<lparr>tv_wg := 2\<rparr>) = (Ret (), (w', v'))"
    by (auto simp: passes_def TestTwoPlayerMatch_dialled [OF dial])
  obtain p q where pq: "order [player1 h conn, player2 h conn] = [p, q]"
    "(p, q) = (player1 h conn, player2 h conn) \<or> (p, q) = (player2 h conn, player1 h conn)"
    using order_two [of "order [player1 h conn, player2 h conn]" "player1 h conn" "player2 h conn"] assms(1) by blast
  then have ne: "pl_playerID p \<noteq> pl_playerID q" by (auto simp: player_ids)
  from rest obtain a s1 c s2 where g: "goroutine (playTheGame p (cli_Background h)) (w0, test_vars0\<lparr>tv_wg := 2\<rparr>) = (Ret a, s1)"
    "goroutine (playTheGame q (cli_Background h)) s1 = (Ret c, s2)"
    "go_bind test_wg_Wait (\<lambda>_. assert_same_server (player1 h conn) (player2 h conn)) s2 = (Ret (), (w', v'))"
    unfolding pq(1) by (rule two_goroutines) (rule that)
  obtain w1 v1 w2 v2 where s: "s1 = (w1, v1)" "s2 = (w2, v2)" by (metis prod.exhaust)
  from end_of_test [OF g(3) [unfolded s] ok player_ids] have e: "v' = v2" "tv_wg v2 = 0"
    "\<exists>gs1 gs2. tv_assignment v2 ''Player 1'' = Some gs1 \<and> tv_assignment v2 ''Player 2'' = Some gs2 \<and>
      gs_GameServerIp gs1 = gs_GameServerIp gs2" by simp_all
  have "has_played p (test_vars0\<lparr>tv_wg := 2\<rparr>) v1 \<and> has_played q v1 v2"
    by (rule both_played [OF g(1) [unfolded s] g(2) [unfolded s], of 0]) (use e ok in simp_all)
  with played_servers [of p "test_vars0\<lparr>tv_wg := 2\<rparr>" v1 q v1 v2 "tv_wg v1"] ne
  have "\<exists>gs gs'. tv_assignment v2 (pl_playerID p) = Some gs \<and> tv_assignment v2 (pl_playerID q) = Some gs' \<and>
    gs_GameServerIp gs \<noteq> [] \<and> gs_GameServerIp gs' \<noteq> []" by simp
  with e pq(2) show ?thesis by (auto simp: same_server_def player_ids)
qed

lemma TestPause_sound:
  assumes "passes (TestTwoPlayerMatchWithPauseBetweenSubmissions h Sleep) w v'"
  shows "same_server v'"
proof (cases "cli_Dial h frontendTarget w")
  case (Pair res w0)
  with assms test_not_dialled(2) [of h w _ w0 Sleep v'] obtain conn where
    dial: "cli_Dial h frontendTarget w = (Inr conn, w0)" by (cases res) auto
  let ?p1 = "player1 h conn" and ?p2 = "player2 h conn" and ?play = "\<lambda>p. goroutine (playTheGame p (cli_Background h))"
  let ?finish = "go_bind test_wg_Wait (\<lambda>_. assert_same_server ?p1 ?p2)" and ?v0 = "test_vars0\<lparr>tv_wg := 1\<rparr>"
  from assms obtain w' where ok: "\<not> tv_failed v'" and run: "go_bind (?play ?p1) (\<lambda>_. \<lambda>(w, v).
      go_bind (?play ?p2) (\<lambda>_. ?finish) (Sleep w, v\<lparr>tv_wg := tv_wg v + 1\<rparr>)) (w0, ?v0) = (Ret (), (w', v'))"
    by (auto simp: passes_def TestPause_dialled [OF dial])
  from run obtain a w1 v1 where g1: "?play ?p1 (w0, ?v0) = (Ret a, (w1, v1))"
    "go_bind (?play ?p2) (\<lambda>_. ?finish) (Sleep w1, v1\<lparr>tv_wg := tv_wg v1 + 1\<rparr>) = (Ret (), (w', v'))"
    by (cases rule: go_bind_cases) auto
  from g1(2) obtain c w2 v2 where g2: "?play ?p2 (Sleep w1, v1\<lparr>tv_wg := tv_wg v1 + 1\<rparr>) = (Ret c, (w2, v2))"
    "?finish (w2, v2) = (Ret (), (w', v'))"
    by (cases rule: go_bind_cases) (metis prod.exhaust, simp_all)
  from end_of_test [OF g2(2) ok player_ids] have e: "v' = v2" "tv_wg v2 = 0"
    "\<exists>gs1 gs2. tv_assignment v2 ''Player 1'' = Some gs1 \<and> tv_assignment v2 ''Player 2'' = Some gs2 \<and>
      gs_GameServerIp gs1 = gs_GameServerIp gs2" by simp_all
  have "has_played ?p1 ?v0 v1 \<and> has_played ?p2 (v1\<lparr>tv_wg := tv_wg v1 + 1\<rparr>) v2"
    by (rule both_played [OF g1(1) g2(1) refl]) (use e ok in simp_all)
  with played_servers [of ?p1 ?v0 v1 ?p2 "v1\<lparr>tv_wg := tv_wg v1 + 1\<rparr>" v2 "tv_wg v1 + 1"]
  have "\<exists>gs gs'. tv_assignment v2 ''Player 1'' = Some gs \<and> tv_assignment v2 ''Player 2'' = Some gs' \<and>
    gs_GameServerIp gs \<noteq> [] \<and> gs_GameServerIp gs' \<noteq> []" unfolding player_ids by simp
  with e show ?thesis by (auto simp: same_server_def)
qed

text \<open>A player who is answered plays to the end.\<close>

lemma answered_plays:
  assumes "answers_players h ip" and "0 < tv_wg v" and "p = newPlayer (cli_RivalryServiceClient h conn) n"
  shows "\<exists>w' gs. goroutine (playTheGame p (cli_Background h)) (w, v) =
      (Ret (), (w', v\<lparr>tv_assignment := (tv_assignment v)(n \<mapsto> gs), tv_wg := tv_wg v - 1\<rparr>)) \<and> gs_GameServerIp gs = ip"
proof -
  obtain gs rs w1 where c: "cli_RivalryServiceClient h conn (cli_Background h) (player_request n) w =
      (Inr (Inr \<lparr>mresp_GameServer = Some gs\<rparr> # rs), w1)" "gs_GameServerIp gs = ip" "ip \<noteq> []"
    using assms(1) unfolding answers_players_def by blast
  have p: "pl_frontendServiceClient p = cli_RivalryServiceClient h conn" "pl_playerID p = n"
    by (simp_all add: assms(3) newPlayer_def)
  have "playTheGame p (cli_Background h) (w, v) =
      (Ret (), (w1, v\<lparr>tv_assignment := (tv_assignment v)(pl_playerID p \<mapsto> gs), tv_wg := tv_wg v - 1\<rparr>))"
    by (rule player_served [where resp = "\<lparr>mresp_GameServer = Some gs\<rparr>"]) (use c assms(2) p in simp_all)
  with c(2) show ?thesis by (intro exI [of _ w1] exI [of _ gs]) (simp add: goroutine_def p)
qed

lemma end_reached:
  assumes "tv_wg v = 0" and "tv_assignment v ''Player 1'' = Some gs1" and "tv_assignment v ''Player 2'' = Some gs2"
    and "gs_GameServerIp gs1 = gs_GameServerIp gs2"
  shows "go_bind test_wg_Wait (\<lambda>_. assert_same_server (player1 h conn) (player2 h conn)) (w, v) = (Ret (), (w, v))"
  using assms by (simp add: go_bind_def test_wg_Wait_def assert_same_server_def player_ids)

lemma TestTwoPlayerMatch_complete:
  assumes "answers_players h ip" and "\<forall>ps. mset (order ps) = mset ps"
  shows "\<exists>v. passes (TestTwoPlayerMatch h order) w v"
proof -
  obtain conn w0 where dial: "cli_Dial h frontendTarget w = (Inr conn, w0)"
    using assms(1) unfolding answers_players_def by blast
  let ?p1 = "player1 h conn" and ?p2 = "player2 h conn" and ?play = "\<lambda>p. goroutine (playTheGame p (cli_Background h))"
  let ?v0 = "test_vars0\<lparr>tv_wg := 2\<rparr>"
  obtain n m where pq: "order [?p1, ?p2] = [newPlayer (cli_RivalryServiceClient h conn) n, newPlayer (cli_RivalryServiceClient h conn) m]"
    "(n, m) = (''Player 1'', ''Player 2'') \<or> (n, m) = (''Player 2'', ''Player 1'')"
    using order_two [of "order [?p1, ?p2]" ?p1 ?p2] assms(2) by blast
  from answered_plays [OF assms(1) _ refl, of ?v0 conn n w0] obtain w1 gs where
    g1: "?play (newPlayer (cli_RivalryServiceClient h conn) n) (w0, ?v0) =
      (Ret (), (w1, ?v0\<lparr>tv_assignment := (tv_assignment ?v0)(n \<mapsto> gs), tv_wg := 1\<rparr>))" "gs_GameServerIp gs = ip" by auto
  let ?v1 = "?v0\<lparr>tv_assignment := (tv_assignment ?v0)(n \<mapsto> gs), tv_wg := 1\<rparr>"
  from answered_plays [OF assms(1) _ refl, of ?v1 conn m w1] obtain w2 gs' where
    g2: "?play (newPlayer (cli_RivalryServiceClient h conn) m) (w1, ?v1) =
      (Ret (), (w2, ?v1\<lparr>tv_assignment := (tv_assignment ?v1)(m \<mapsto> gs'), tv_wg := 0\<rparr>))" "gs_GameServerIp gs' = ip" by auto
  let ?v2 = "?v1\<lparr>tv_assignment := (tv_assignment ?v1)(m \<mapsto> gs'), tv_wg := 0\<rparr>"
  have "\<exists>gs1 gs2. tv_assignment ?v2 ''Player 1'' = Some gs1 \<and> tv_assignment ?v2 ''Player 2'' = Some gs2 \<and>
      gs_GameServerIp gs1 = gs_GameServerIp gs2"
    using pq(2) g1(2) g2(2) by auto
  then have "go_bind test_wg_Wait (\<lambda>_. assert_same_server ?p1 ?p2) (w2, ?v2) = (Ret (), (w2, ?v2))"
    by (elim exE conjE) (rule end_reached, simp, assumption+)
  moreover have "TestTwoPlayerMatch h order (w, test_vars0) =
      go_bind test_wg_Wait (\<lambda>_. assert_same_server ?p1 ?p2) (w2, ?v2)"
    unfolding TestTwoPlayerMatch_dialled [OF dial] pq(1) by (rule two_goroutines_run [where f = ?play, OF g1(1) g2(1)])
  moreover have "\<not> tv_failed ?v2" by (simp add: test_vars0_def)
  ultimately show ?thesis unfolding passes_def by auto
qed

lemma TestPause_complete:
  assumes "answers_players h ip"
  shows "\<exists>v. passes (TestTwoPlayerMatchWithPauseBetweenSubmissions h Sleep) w v"
proof -
  obtain conn w0 where dial: "cli_Dial h frontendTarget w = (Inr conn, w0)"
    using assms(1) unfolding answers_players_def by blast
  let ?p1 = "player1 h conn" and ?p2 = "player2 h conn" and ?play = "\<lambda>p. goroutine (playTheGame p (cli_Background h))"
  let ?v0 = "test_vars0\<lparr>tv_wg := 1\<rparr>"
  from answered_plays [OF assms(1) _ refl, of ?v0 conn "''Player 1''" w0] obtain w1 gs where
    g1: "?play ?p1 (w0, ?v0) = (Ret (), (w1, ?v0\<lparr>tv_assignment := (tv_assignment ?v0)(''Player 1'' \<mapsto> gs), tv_wg := 0\<rparr>))"
      "gs_GameServerIp gs = ip" by auto
  let ?v1 = "?v0\<lparr>tv_assignment := (tv_assignment ?v0)(''Player 1'' \<mapsto> gs), tv_wg := 1\<rparr>"
  from answered_plays [OF assms(1) _ refl, of ?v1 conn "''Player 2''" "Sleep w1"] obtain w2 gs' where
    g2: "?play ?p2 (Sleep w1, ?v1) = (Ret (), (w2, ?v1\<lparr>tv_assignment := (tv_assignment ?v1)(''Player 2'' \<mapsto> gs'), tv_wg := 0\<rparr>))"
      "gs_GameServerIp gs' = ip" by auto
  let ?v2 = "?v1\<lparr>tv_assignment := (tv_assignment ?v1)(''Player 2'' \<mapsto> gs'), tv_wg := 0\<rparr>"
  have "go_bind test_wg_Wait (\<lambda>_. assert_same_server ?p1 ?p2) (w2, ?v2) = (Ret (), (w2, ?v2))"
    by (rule end_reached [of _ gs gs']) (simp_all add: g1(2) g2(2))
  moreover have "TestTwoPlayerMatchWithPauseBetweenSubmissions h Sleep (w, test_vars0) =
      go_bind test_wg_Wait (\<lambda>_. assert_same_server ?p1 ?p2) (w2, ?v2)"
    unfolding TestPause_dialled [OF dial] using g1(1) g2(1) by (simp add: go_bind_def)
  moreover have "\<not> tv_failed ?v2" by (simp add: test_vars0_def)
  ultimately show ?thesis unfolding passes_def by auto
qed

section \<open>Properties\<close>

text \<open>C22: The system tests test what they say. In whatever order the goroutines of the players run, each of the
  two tests passes only if both players were given a game server, at one address that is not empty; and
  when the frontend answers every player with a server at one address, it passes. A test that passes has
  returned without a failed assertion. (A player runs as a whole here; \<open>players_interleave\<close> shows that
  schedules which switch inside of a player end in the same way.)\<close>

theorem system_tests_show:
  assumes "\<forall>ps. mset (order ps) = mset ps"
    and "test \<in> {TestTwoPlayerMatch h order, TestTwoPlayerMatchWithPauseBetweenSubmissions h Sleep}"
  shows "(\<forall>v. passes test w v \<longrightarrow> same_server v) \<and>
    (\<forall>ip. answers_players h ip \<longrightarrow> (\<exists>v. passes test w v))"
proof -
  consider "test = TestTwoPlayerMatch h order" | "test = TestTwoPlayerMatchWithPauseBetweenSubmissions h Sleep"
    using assms(2) by blast
  then show ?thesis
    by cases (auto intro: TestTwoPlayerMatch_sound [OF assms(1)] TestPause_sound
        TestTwoPlayerMatch_complete [OF _ assms(1)] TestPause_complete)
qed

theorem system_tests_show_witness:
  "\<exists>v. passes (TestTwoPlayerMatch (sample_cli_host [Inr sample_response]) rev) [] v \<and> same_server v"
proof -
  have "\<forall>ps :: api_MatchResponse list player list. mset (rev ps) = mset ps" by simp
  note shown = system_tests_show [OF this, of "TestTwoPlayerMatch (sample_cli_host [Inr sample_response]) rev"
      "sample_cli_host [Inr sample_response]" "\<lambda>w. w" "[]"]
  have "answers_players (sample_cli_host [Inr sample_response]) ''10.0.0.1''"
    by (simp add: answers_players_def sample_cli_host_def sample_response_def frontendTarget_def)
  with shown show ?thesis by blast
qed

end
