(* ===== verification/Mains.thy ===== *)
theory Mains
  imports Examples Clients
begin

text \<open>
  The commands as \<open>NewRootCmd\<close> makes them, \<open>Execute\<close> of every command (\<open>cmd/*/cmd/root.go\<close>,
  \<open>examples/*/cmd/root.go\<close>) and the \<open>main\<close> functions that call it (\<open>main.go\<close>): the exit code of the process
  that is started with the arguments \<open>args\<close>. \<open>cl\<close> is the configuration library.
\<close>

section \<open>Commands\<close>

text \<open>
  A command: its name, the flags that it shares with its subcommands, its own flags, what it runs, if it
  runs anything, and its subcommands.
\<close>

datatype 'r Command = Command
  (com_Use: string) (com_PersistentFlags: flagset) (com_Flags: flagset) (com_RunE: "'r option")
  (com_Commands: "'r Command list")

definition no_flagset :: flagset where
  "no_flagset = \<lparr>fs_kinds = [], fs_required = [], fs_defaults = no_flags\<rparr>"

text \<open>
  The commands of the services have no subcommands. Where the flags are declared makes no difference for
  them: their persistent flags are kept with the others.
\<close>

definition accumulator_NewRootCmd :: "'w host \<Rightarrow> (flags \<Rightarrow> ('w \<times> cmd_vars, error option) proc) Command" where
  "accumulator_NewRootCmd h = Command ''accumulator'' no_flagset accumulator_flagset (Some (accumulator_RunE h)) []"

definition matcher_NewRootCmd :: "'w host \<Rightarrow> (flags \<Rightarrow> ('w \<times> cmd_vars, error option) proc) Command" where
  "matcher_NewRootCmd h = Command ''matcher'' no_flagset matcher_flagset (Some (matcher_RunE h)) []"

definition dispenser_NewRootCmd :: "'w host \<Rightarrow> (flags \<Rightarrow> ('w \<times> cmd_vars, error option) proc) Command" where
  "dispenser_NewRootCmd h = Command ''dispenser'' no_flagset dispenser_flagset (Some (dispenser_RunE h)) []"

definition frontend_NewRootCmd :: "'w host \<Rightarrow> (flags \<Rightarrow> ('w \<times> cmd_vars, error option) proc) Command" where
  "frontend_NewRootCmd h = Command ''frontend'' no_flagset frontend_flagset (Some (frontend_RunE h)) []"

definition assignment_NewRootCmd :: "'w example_host \<Rightarrow> (flags \<Rightarrow> ('w \<times> cmd_vars, error option) proc) Command" where
  "assignment_NewRootCmd x = Command ''assignment'' no_flagset assignment_flagset (Some (assignment_RunE x)) []"

definition matchmaker_NewRootCmd :: "'w example_host \<Rightarrow> (flags \<Rightarrow> ('w \<times> cmd_vars, error option) proc) Command" where
  "matchmaker_NewRootCmd x = Command ''matchmaker'' no_flagset matchmaker_flagset (Some (matchmaker_RunE x)) []"

text \<open>The command line client has three levels.\<close>

definition newMatchRequestCmd :: "'w cli_host \<Rightarrow> (flags \<Rightarrow> ('w, error option) proc) Command" where
  "newMatchRequestCmd h = Command ''request'' no_flagset
    \<lparr>fs_kinds = [(''player_id'', StringFlag), (''match_queue'', StringFlag), (''doubles'', StringFlag),
       (''strings'', StringFlag), (''tags'', StringSliceFlag)],
     fs_required = [''player_id''],
     fs_defaults = no_flags
       \<lparr>GetString := (\<lambda>_. [])(''match_queue'' := ''default'', ''doubles'' := ''{}'', ''strings'' := ''{}''),
        GetStringSlice := (\<lambda>_. [])(''tags'' := [''1v1''])\<rparr>\<rparr>
    (Some (match_request_RunE h)) []"

definition newMatchCmd :: "'w cli_host \<Rightarrow> (flags \<Rightarrow> ('w, error option) proc) Command" where
  "newMatchCmd h = Command ''match''
    \<lparr>fs_kinds = [(''target'', StringFlag)], fs_required = [''target''], fs_defaults = no_flags\<rparr> no_flagset
    None [newMatchRequestCmd h]"

definition frontend_cli_NewRootCmd :: "'w cli_host \<Rightarrow> (flags \<Rightarrow> ('w, error option) proc) Command" where
  "frontend_cli_NewRootCmd h = Command ''frontend-cli''
    \<lparr>fs_kinds = [(''config'', StringFlag)], fs_required = [], fs_defaults = no_flags\<rparr> no_flagset
    None [newMatchCmd h]"

text \<open>
  The command that a list of names leads to, as the library documents it: its flags are its own and the
  persistent ones of the commands above it.
\<close>

definition flagset_join :: "flagset \<Rightarrow> flagset \<Rightarrow> flagset" where
  "flagset_join s t = \<lparr>fs_kinds = fs_kinds s @ fs_kinds t, fs_required = fs_required s @ fs_required t,
     fs_defaults = fs_defaults t\<rparr>"

fun find_command :: "flagset \<Rightarrow> 'r Command \<Rightarrow> string list \<Rightarrow> (flagset \<times> 'r option) option" where
  "find_command inherited c [] =
    Some (flagset_join (flagset_join inherited (com_PersistentFlags c)) (com_Flags c), com_RunE c)"
| "find_command inherited c (n # ns) =
    (case List.find (\<lambda>d. com_Use d = n) (com_Commands c) of
       None \<Rightarrow> None
     | Some d \<Rightarrow> find_command (flagset_join inherited (com_PersistentFlags c)) d ns)"

text \<open>The flags with which the model runs the client are the ones of \<open>frontend-cli match request\<close>.\<close>

lemma request_command:
  "find_command no_flagset (frontend_cli_NewRootCmd h) [''match'', ''request''] =
    Some (match_request_flagset, Some (match_request_RunE h))"
  by (simp add: frontend_cli_NewRootCmd_def newMatchCmd_def newMatchRequestCmd_def flagset_join_def no_flagset_def
      match_request_flagset_def)

text \<open>Nothing runs on the way to it.\<close>

lemma other_commands:
  "map_option snd (find_command no_flagset (frontend_cli_NewRootCmd h) []) = Some None"
  "map_option snd (find_command no_flagset (frontend_cli_NewRootCmd h) [''match'']) = Some None"
  "n \<noteq> ''match'' \<Longrightarrow> find_command no_flagset (frontend_cli_NewRootCmd h) (n # ns) = None"
  by (simp_all add: frontend_cli_NewRootCmd_def newMatchCmd_def)

section \<open>Execute\<close>

text \<open>\<open>Execute\<close> of a command that runs something.\<close>

definition execute_command ::
  "(flagset \<Rightarrow> string list \<Rightarrow> error + flags) \<Rightarrow> (string \<Rightarrow> error + viper) \<Rightarrow>
    (flags \<Rightarrow> ('s, error option) proc) Command \<Rightarrow> string list \<Rightarrow> ('s, nat) proc" where
  "execute_command Parse init c args =
    (case com_RunE c of None \<Rightarrow> go_return 0 | Some run \<Rightarrow> CheckErr_Execute Parse (com_Flags c) init run args)"

definition accumulator_Execute ::
  "(flagset \<Rightarrow> string list \<Rightarrow> error + flags) \<Rightarrow> config_lib \<Rightarrow> 'w host \<Rightarrow> string list \<Rightarrow> ('w \<times> cmd_vars, nat) proc" where
  "accumulator_Execute Parse cl h =
    execute_command Parse (accumulator_initConfig cl) (accumulator_NewRootCmd h)"

definition matcher_Execute ::
  "(flagset \<Rightarrow> string list \<Rightarrow> error + flags) \<Rightarrow> config_lib \<Rightarrow> 'w host \<Rightarrow> string list \<Rightarrow> ('w \<times> cmd_vars, nat) proc" where
  "matcher_Execute Parse cl h =
    execute_command Parse (matcher_initConfig cl) (matcher_NewRootCmd h)"

definition dispenser_Execute ::
  "(flagset \<Rightarrow> string list \<Rightarrow> error + flags) \<Rightarrow> config_lib \<Rightarrow> 'w host \<Rightarrow> string list \<Rightarrow> ('w \<times> cmd_vars, nat) proc" where
  "dispenser_Execute Parse cl h =
    execute_command Parse (dispenser_initConfig cl) (dispenser_NewRootCmd h)"

definition frontend_Execute ::
  "(flagset \<Rightarrow> string list \<Rightarrow> error + flags) \<Rightarrow> config_lib \<Rightarrow> 'w host \<Rightarrow> string list \<Rightarrow> ('w \<times> cmd_vars, nat) proc" where
  "frontend_Execute Parse cl h =
    execute_command Parse (frontend_initConfig cl) (frontend_NewRootCmd h)"

definition assignment_Execute ::
  "(flagset \<Rightarrow> string list \<Rightarrow> error + flags) \<Rightarrow> config_lib \<Rightarrow> 'w example_host \<Rightarrow> string list \<Rightarrow>
    ('w \<times> cmd_vars, nat) proc" where
  "assignment_Execute Parse cl x =
    execute_command Parse (assignment_initConfig cl) (assignment_NewRootCmd x)"

definition matchmaker_Execute ::
  "(flagset \<Rightarrow> string list \<Rightarrow> error + flags) \<Rightarrow> config_lib \<Rightarrow> 'w example_host \<Rightarrow> string list \<Rightarrow>
    ('w \<times> cmd_vars, nat) proc" where
  "matchmaker_Execute Parse cl x =
    execute_command Parse (matchmaker_initConfig cl) (matchmaker_NewRootCmd x)"

text \<open>The command line client with the arguments that follow \<open>match request\<close>.\<close>

definition frontend_cli_Execute ::
  "(flagset \<Rightarrow> string list \<Rightarrow> error + flags) \<Rightarrow> config_lib \<Rightarrow> 'w cli_host \<Rightarrow> string list \<Rightarrow> ('w, nat) proc" where
  "frontend_cli_Execute Parse cl h =
    CheckErr_Execute Parse match_request_flagset (frontend_cli_initConfig cl) (match_request_RunE h)"

section \<open>The main functions\<close>

definition accumulator_main ::
  "(flagset \<Rightarrow> string list \<Rightarrow> error + flags) \<Rightarrow> config_lib \<Rightarrow> 'w host \<Rightarrow> string list \<Rightarrow> ('w \<times> cmd_vars, nat) proc" where
  "accumulator_main Parse cl h args = accumulator_Execute Parse cl h args"

definition matcher_main ::
  "(flagset \<Rightarrow> string list \<Rightarrow> error + flags) \<Rightarrow> config_lib \<Rightarrow> 'w host \<Rightarrow> string list \<Rightarrow> ('w \<times> cmd_vars, nat) proc" where
  "matcher_main Parse cl h args = matcher_Execute Parse cl h args"

definition dispenser_main ::
  "(flagset \<Rightarrow> string list \<Rightarrow> error + flags) \<Rightarrow> config_lib \<Rightarrow> 'w host \<Rightarrow> string list \<Rightarrow> ('w \<times> cmd_vars, nat) proc" where
  "dispenser_main Parse cl h args = dispenser_Execute Parse cl h args"

definition frontend_main ::
  "(flagset \<Rightarrow> string list \<Rightarrow> error + flags) \<Rightarrow> config_lib \<Rightarrow> 'w host \<Rightarrow> string list \<Rightarrow> ('w \<times> cmd_vars, nat) proc" where
  "frontend_main Parse cl h args = frontend_Execute Parse cl h args"

definition assignment_main ::
  "(flagset \<Rightarrow> string list \<Rightarrow> error + flags) \<Rightarrow> config_lib \<Rightarrow> 'w example_host \<Rightarrow> string list \<Rightarrow>
    ('w \<times> cmd_vars, nat) proc" where
  "assignment_main Parse cl x args = assignment_Execute Parse cl x args"

definition matchmaker_main ::
  "(flagset \<Rightarrow> string list \<Rightarrow> error + flags) \<Rightarrow> config_lib \<Rightarrow> 'w example_host \<Rightarrow> string list \<Rightarrow>
    ('w \<times> cmd_vars, nat) proc" where
  "matchmaker_main Parse cl x args = matchmaker_Execute Parse cl x args"

definition frontend_cli_main ::
  "(flagset \<Rightarrow> string list \<Rightarrow> error + flags) \<Rightarrow> config_lib \<Rightarrow> 'w cli_host \<Rightarrow> string list \<Rightarrow> ('w, nat) proc" where
  "frontend_cli_main Parse cl h args = frontend_cli_Execute Parse cl h args"

lemmas service_mains = accumulator_main_def matcher_main_def dispenser_main_def frontend_main_def
  accumulator_Execute_def matcher_Execute_def dispenser_Execute_def frontend_Execute_def
  accumulator_NewRootCmd_def matcher_NewRootCmd_def dispenser_NewRootCmd_def frontend_NewRootCmd_def
  accumulator_initConfig_def matcher_initConfig_def dispenser_initConfig_def frontend_initConfig_def

section \<open>What the commands do at their end\<close>

text \<open>The exit code of the client is 1 whenever it ends.\<close>

lemma frontend_cli_fails:
  assumes "frontend_cli_Execute Parse cl h args w = (Ret code, w')"
  shows "code = 1"
  using assms
  by (auto simp: frontend_cli_Execute_def CheckErr_Execute_def execute_def
      split: sum.splits option.splits elim!: go_bind_cases dest: match_request_result)

text \<open>
  Without a home directory a command that is not given a configuration file does not start, although it
  reads nothing from the file.
\<close>

lemma needs_home:
  assumes "Parse s args = Inr fl" and "GetString fl ''config'' = []" and "cl_homedir_Dir cl = Inl err"
  shows "CheckErr_Execute Parse s (init_config name cl) run args w = (Ret 1, w)"
  using assms by (simp add: CheckErr_Execute_def execute_def init_config_def)

text \<open>With one, an accepted list of arguments runs the command.\<close>

lemma Execute_runs:
  assumes "Parse s args = Inr fl" and "cl_homedir_Dir cl = Inr home" and "run fl w = (Blocked, w')"
  shows "CheckErr_Execute Parse s (init_config name cl) run args w = (Blocked, w')"
  using assms by (simp add: CheckErr_Execute_def execute_def init_config_def go_bind_def split: sum.split)

text \<open>
  The content of a configuration file has no effect: a process that has a home directory does the same
  whatever file is found there, and whether one is given.
\<close>

lemma config_file_unused:
  assumes "cl_homedir_Dir cl = Inr a" and "cl_homedir_Dir cl' = Inr b"
  shows "CheckErr_Execute Parse s (init_config name cl) run args = CheckErr_Execute Parse s (init_config name cl') run args"
proof -
  have "(case init_config name cl f of Inl err \<Rightarrow> go_return (Some err) | Inr _ \<Rightarrow> run fl) = run fl"
    "(case init_config name cl' f of Inl err \<Rightarrow> go_return (Some err) | Inr _ \<Rightarrow> run fl) = run fl" for f fl
    using assms by (simp_all add: init_config_def)
  then show ?thesis by (simp add: CheckErr_Execute_def)
qed

lemma service_config_unused:
  assumes "cl_homedir_Dir cl = Inr a" and "cl_homedir_Dir cl' = Inr b"
  shows "accumulator_main Parse cl h args = accumulator_main Parse cl' h args"
    "matcher_main Parse cl h args = matcher_main Parse cl' h args"
    "dispenser_main Parse cl h args = dispenser_main Parse cl' h args"
    "frontend_main Parse cl h args = frontend_main Parse cl' h args"
  unfolding service_mains execute_command_def Command.sel option.case by (rule config_file_unused [OF assms])+

text \<open>A service ends with 0 or 1; with 0 exactly when it was started and returned no error.\<close>

lemma CheckErr_code:
  assumes "CheckErr_Execute Parse s init run args w = (Ret code, w')"
  shows "code = 0 \<and> (\<exists>fl v. Parse s args = Inr fl \<and> init (GetString fl ''config'') = Inr v \<and> run fl w = (Ret None, w')) \<or>
    code = 1"
  using assms by (auto simp: CheckErr_Execute_def execute_def split: sum.splits option.splits elim!: go_bind_cases)

end
