(* ===== verification/OperatorMain.thy ===== *)
theory OperatorMain
  imports Operator
begin

text \<open>
  The start of the operator (\<open>cmd/operator/main.go\<close>, \<open>SetupWithManager\<close>, \<open>groupversion_info.go\<close>). The
  flags and controller-runtime are parameters. The process ends with an exit code, 0 when \<open>main\<close>
  returns.
\<close>

section \<open>Parameters\<close>

record manager_options =
  mo_MetricsBindAddress :: string
  mo_Port :: int64
  mo_HealthProbeBindAddress :: string
  mo_LeaderElection :: bool
  mo_LeaderElectionID :: string

text \<open>The flags of the operator; the ones of the logger are part of the library.\<close>

record operator_flags =
  of_metricsAddr :: string
  of_probeAddr :: string
  of_enableLeaderElection :: bool

definition operator_flag_defaults :: operator_flags where
  "operator_flag_defaults =
    \<lparr>of_metricsAddr = '':8080'', of_probeAddr = '':8081'', of_enableLeaderElection = False\<rparr>"

text \<open>What a scheme holds: the name of a group, its version and its kinds.\<close>

type_synonym scheme = "(string \<times> string \<times> string list) list"

record 'w controller_runtime =
  cr_clientgo_AddToScheme :: "scheme \<Rightarrow> error + scheme"
  cr_Register :: "string \<Rightarrow> string \<Rightarrow> string list \<Rightarrow> scheme \<Rightarrow> error + scheme"
  cr_Parse :: "operator_flags \<Rightarrow> string list \<Rightarrow> error + operator_flags"
  cr_GetConfig :: "'w \<Rightarrow> (error + nat) \<times> 'w"
  cr_NewManager :: "nat \<Rightarrow> scheme \<Rightarrow> manager_options \<Rightarrow> 'w \<Rightarrow> (error + nat) \<times> 'w"
  cr_GetClient :: "nat \<Rightarrow> 'w kube_Client"
  cr_Complete :: "nat \<Rightarrow> string \<Rightarrow> string list \<Rightarrow> 'w ProfileReconciler \<Rightarrow> 'w \<Rightarrow> error option \<times> 'w"
  cr_AddHealthzCheck :: "nat \<Rightarrow> string \<Rightarrow> 'w \<Rightarrow> error option \<times> 'w"
  cr_AddReadyzCheck :: "nat \<Rightarrow> string \<Rightarrow> 'w \<Rightarrow> error option \<times> 'w"
  cr_Start :: "nat \<Rightarrow> 'w \<Rightarrow> error option \<times> 'w"
  cr_SetControllerReference :: "scheme \<Rightarrow> Profile \<Rightarrow> ObjectMeta \<Rightarrow> error + ObjectMeta"
  cr_yaml_Deployment :: "template \<Rightarrow> error + Deployment"
  cr_yaml_Service :: "template \<Rightarrow> error + kube_Service"

section \<open>The types of the operator in the scheme\<close>

definition GroupVersion :: "string \<times> string" where
  "GroupVersion = (''rivalry.rivalry'', ''v1alpha1'')"

text \<open>The types that \<open>init\<close> registers with \<open>SchemeBuilder\<close>, and what adds them to a scheme.\<close>

definition registered_types :: "string list" where
  "registered_types = [''Profile'', ''ProfileList'']"

definition AddToScheme :: "'w controller_runtime \<Rightarrow> scheme \<Rightarrow> error + scheme" where
  "AddToScheme c = cr_Register c (fst GroupVersion) (snd GroupVersion) registered_types"

text \<open>\<open>runtime.NewScheme()\<close>\<close>

definition new_scheme :: scheme where
  "new_scheme = []"

definition must :: "(error + 'a) \<Rightarrow> ('w, 'a) proc" where
  "must r = (case r of Inl err \<Rightarrow> go_panic (PanicError err) | Inr a \<Rightarrow> go_return a)"

definition operator_init :: "'w controller_runtime \<Rightarrow> ('w, scheme) proc" where
  "operator_init c =
    go_bind (must (cr_clientgo_AddToScheme c new_scheme)) (\<lambda>scheme. must (AddToScheme c scheme))"

section \<open>The start\<close>

text \<open>The controller is for profiles and watches the deployments that they own.\<close>

definition SetupWithManager :: "'w controller_runtime \<Rightarrow> 'w ProfileReconciler \<Rightarrow> nat \<Rightarrow> ('w, error option) proc" where
  "SetupWithManager c r mgr = call (cr_Complete c mgr ''Profile'' [''Deployment''] r)"

text \<open>\<open>if err := ...; err != nil { os.Exit(1) }\<close>\<close>

definition or_exit :: "('w, error option) proc \<Rightarrow> ('w, nat) proc \<Rightarrow> ('w, nat) proc" where
  "or_exit f rest = go_bind f (\<lambda>err. case err of Some e \<Rightarrow> go_return 1 | None \<Rightarrow> rest)"

definition operator_main :: "'w controller_runtime \<Rightarrow> scheme \<Rightarrow> string list \<Rightarrow> ('w, nat) proc" where
  "operator_main c scheme args =
    (case cr_Parse c operator_flag_defaults args of
       Inl err \<Rightarrow> go_return 2
     | Inr fl \<Rightarrow>
         go_bind (call (cr_GetConfig c)) (\<lambda>res.
         case res of Inl err \<Rightarrow> go_return 1 | Inr config \<Rightarrow>
         go_bind (call (cr_NewManager c config scheme
           \<lparr>mo_MetricsBindAddress = of_metricsAddr fl, mo_Port = 9443,
            mo_HealthProbeBindAddress = of_probeAddr fl, mo_LeaderElection = of_enableLeaderElection fl,
            mo_LeaderElectionID = ''4fd647fb.rivalry''\<rparr>)) (\<lambda>res.
         case res of Inl err \<Rightarrow> go_return 1 | Inr mgr \<Rightarrow>
         let r = \<lparr>pr_Client = cr_GetClient c mgr, pr_SetControllerReference = cr_SetControllerReference c scheme,
               pr_yaml_Deployment = cr_yaml_Deployment c, pr_yaml_Service = cr_yaml_Service c\<rparr> in
         or_exit (SetupWithManager c r mgr)
         (or_exit (call (cr_AddHealthzCheck c mgr ''healthz''))
         (or_exit (call (cr_AddReadyzCheck c mgr ''readyz''))
         (or_exit (call (cr_Start c mgr))
         (go_return 0)))))))"

section \<open>What runs before the start\<close>

text \<open>The steps of a start that were taken: a step whose library call returns no error.\<close>

definition succeeds :: "('w, error option) proc \<Rightarrow> 'w \<Rightarrow> 'w \<Rightarrow> bool" where
  "succeeds f w w' \<longleftrightarrow> f w = (Ret None, w')"

lemma or_exit_zero:
  assumes "or_exit f rest w = (Ret 0, w')"
  obtains w1 where "succeeds f w w1" "rest w1 = (Ret 0, w')"
  using assms by (auto simp: or_exit_def succeeds_def elim!: go_bind_cases split: option.splits)

text \<open>
  The operator ends with 0 only if it was started after its controller and both of its checks were
  registered with the manager, and the manager returned without an error.
\<close>

lemma operator_main_zero:
  assumes "operator_main c scheme args w = (Ret 0, w')"
  shows "\<exists>fl config w1 mgr w2 r w3 w4 w5. cr_Parse c operator_flag_defaults args = Inr fl \<and>
    cr_GetConfig c w = (Inr config, w1) \<and>
    (\<exists>opts. cr_NewManager c config scheme opts w1 = (Inr mgr, w2) \<and>
       mo_LeaderElection opts = of_enableLeaderElection fl) \<and>
    pr_Client r = cr_GetClient c mgr \<and> succeeds (SetupWithManager c r mgr) w2 w3 \<and>
    cr_AddHealthzCheck c mgr ''healthz'' w3 = (None, w4) \<and> cr_AddReadyzCheck c mgr ''readyz'' w4 = (None, w5) \<and>
    cr_Start c mgr w5 = (None, w')"
proof -
  from assms obtain fl where fl: "cr_Parse c operator_flag_defaults args = Inr fl"
    by (auto simp: operator_main_def split: sum.splits)
  obtain g w1 where g: "cr_GetConfig c w = (g, w1)" by force
  with assms fl obtain config where config: "g = Inr config"
    by (auto simp: operator_main_def go_bind_call split: sum.splits)
  let ?opts = "\<lparr>mo_MetricsBindAddress = of_metricsAddr fl, mo_Port = 9443,
    mo_HealthProbeBindAddress = of_probeAddr fl, mo_LeaderElection = of_enableLeaderElection fl,
    mo_LeaderElectionID = ''4fd647fb.rivalry''\<rparr>"
  obtain n w2 where n: "cr_NewManager c config scheme ?opts w1 = (n, w2)" by force
  with assms fl g config obtain mgr where mgr: "n = Inr mgr"
    by (auto simp: operator_main_def go_bind_call split: sum.splits)
  let ?r = "\<lparr>pr_Client = cr_GetClient c mgr, pr_SetControllerReference = cr_SetControllerReference c scheme,
    pr_yaml_Deployment = cr_yaml_Deployment c, pr_yaml_Service = cr_yaml_Service c\<rparr>"
  from assms fl g config n mgr have "or_exit (SetupWithManager c ?r mgr)
      (or_exit (call (cr_AddHealthzCheck c mgr ''healthz''))
      (or_exit (call (cr_AddReadyzCheck c mgr ''readyz'')) (or_exit (call (cr_Start c mgr)) (go_return 0)))) w2 = (Ret 0, w')"
    by (simp add: operator_main_def go_bind_call)
  then obtain w3 w4 w5 w6 where steps: "succeeds (SetupWithManager c ?r mgr) w2 w3"
    "succeeds (call (cr_AddHealthzCheck c mgr ''healthz'')) w3 w4"
    "succeeds (call (cr_AddReadyzCheck c mgr ''readyz'')) w4 w5" "succeeds (call (cr_Start c mgr)) w5 w6"
    "go_return (0 :: nat) w6 = (Ret 0, w')"
    by (elim or_exit_zero) (rule that)
  then have "cr_AddHealthzCheck c mgr ''healthz'' w3 = (None, w4)" "cr_AddReadyzCheck c mgr ''readyz'' w4 = (None, w5)"
    "cr_Start c mgr w5 = (None, w')"
    by (auto simp: succeeds_def call_apply prod_eq_iff)
  with fl g config n mgr steps(1) show ?thesis
    by (intro exI [of _ fl] exI [of _ config] exI [of _ w1] exI [of _ mgr] exI [of _ w2] exI [of _ ?r]
        exI [of _ w3] exI [of _ w4] exI [of _ w5]) auto
qed

end
