(* ===== verification/DeepCopy.thy ===== *)
theory DeepCopy
  imports Operator
begin

text \<open>
  The deep copies of the operator's types (\<open>cmd/operator/api/v1alpha1/zz_generated.deepcopy.go\<close>), over an
  explicit store: what matters of a copy is that it shares no memory with the original. A pointer is
  an address or \<open>nil\<close>; there is a heap for every type that is pointed to, and one for the arrays
  behind each kind of slice. A slice is \<open>nil\<close> or the address of its array, whose list is as long as
  the slice. The metadata structs are those of the Kubernetes library, which brings their deep copies: a value
  for the plain fields, and the addresses of the maps and slices that the struct refers to (labels, annotations,
  finalizers and so on), which lie in a heap of their own.
\<close>

section \<open>The store\<close>

record ProfileSpec_mem =
  sm_NatsAddress :: string
  sm_RedisAddress :: string
  sm_FrontendService :: FrontendService
  sm_AccumulatorService :: AccumulatorService
  sm_MatcherService :: MatcherService
  sm_DispenserService :: DispenserService
  sm_MatchmakingQueues :: "nat option"

type_synonym TypeMeta = "string \<times> string"
type_synonym ProfileStatus = unit

type_synonym 'm meta = "'m \<times> nat list"

record 'm Profile_mem =
  pm_TypeMeta :: TypeMeta
  pm_ObjectMeta :: "'m meta"
  pm_Spec :: ProfileSpec_mem
  pm_Status :: ProfileStatus

record 'l ProfileList_mem =
  lm_TypeMeta :: TypeMeta
  lm_ListMeta :: "'l meta"
  lm_Items :: "nat option"

record ('m, 'l) store =
  h_next :: nat
  h_FrontendService :: "nat \<Rightarrow> FrontendService"
  h_AccumulatorService :: "nat \<Rightarrow> AccumulatorService"
  h_MatcherService :: "nat \<Rightarrow> MatcherService"
  h_DispenserService :: "nat \<Rightarrow> DispenserService"
  h_MatchmakingQueue :: "nat \<Rightarrow> MatchmakingQueue"
  h_ProfileStatus :: "nat \<Rightarrow> ProfileStatus"
  h_ProfileSpec :: "nat \<Rightarrow> ProfileSpec_mem"
  h_Profile :: "nat \<Rightarrow> 'm Profile_mem"
  h_ProfileList :: "nat \<Rightarrow> 'l ProfileList_mem"
  h_queues :: "nat \<Rightarrow> nat option list"
  h_profiles :: "nat \<Rightarrow> 'm Profile_mem list"
  h_meta :: "nat \<Rightarrow> string list"

text \<open>The library: the deep copies of the metadata, and the zero value of a profile.\<close>

record ('m, 'l) metadata =
  ObjectMeta_DeepCopyInto :: "'m meta \<Rightarrow> ('m, 'l) store \<Rightarrow> 'm meta \<times> ('m, 'l) store"
  ListMeta_DeepCopyInto :: "'l meta \<Rightarrow> ('m, 'l) store \<Rightarrow> 'l meta \<times> ('m, 'l) store"
  zero_Profile :: "'m Profile_mem"

section \<open>DeepCopyInto\<close>

text \<open>
  \<open>in.DeepCopyInto(out)\<close>: given the struct that \<open>in\<close> points to, the struct that \<open>out\<close> points to
  afterwards, and the store with what was allocated.
\<close>

definition AccumulatorService_DeepCopyInto ::
  "AccumulatorService \<Rightarrow> ('m, 'l) store \<Rightarrow> AccumulatorService \<times> ('m, 'l) store" where
  "AccumulatorService_DeepCopyInto i s = (i, s)"

definition DispenserService_DeepCopyInto ::
  "DispenserService \<Rightarrow> ('m, 'l) store \<Rightarrow> DispenserService \<times> ('m, 'l) store" where
  "DispenserService_DeepCopyInto i s = (i, s)"

definition FrontendService_DeepCopyInto ::
  "FrontendService \<Rightarrow> ('m, 'l) store \<Rightarrow> FrontendService \<times> ('m, 'l) store" where
  "FrontendService_DeepCopyInto i s = (i, s)"

definition MatcherService_DeepCopyInto ::
  "MatcherService \<Rightarrow> ('m, 'l) store \<Rightarrow> MatcherService \<times> ('m, 'l) store" where
  "MatcherService_DeepCopyInto i s = (i, s)"

definition MatchmakingQueue_DeepCopyInto ::
  "MatchmakingQueue \<Rightarrow> ('m, 'l) store \<Rightarrow> MatchmakingQueue \<times> ('m, 'l) store" where
  "MatchmakingQueue_DeepCopyInto i s = (i, s)"

definition ProfileStatus_DeepCopyInto ::
  "ProfileStatus \<Rightarrow> ('m, 'l) store \<Rightarrow> ProfileStatus \<times> ('m, 'l) store" where
  "ProfileStatus_DeepCopyInto i s = (i, s)"

text \<open>The body of the loop over the queues: from the array \<open>a\<close> to the array \<open>b\<close>, at the index \<open>i\<close>.\<close>

definition copy_queue :: "nat \<Rightarrow> nat \<Rightarrow> nat \<Rightarrow> ('m, 'l) store \<Rightarrow> ('m, 'l) store" where
  "copy_queue a b i s =
    (case h_queues s a ! i of
       None \<Rightarrow> s
     | Some p \<Rightarrow>
         let q = h_next s;
           s1 = s\<lparr>h_next := q + 1, h_queues := (h_queues s)(b := (h_queues s b)[i := Some q])\<rparr>
         in s1\<lparr>h_MatchmakingQueue := (h_MatchmakingQueue s1)(q := h_MatchmakingQueue s1 p)\<rparr>)"

definition ProfileSpec_DeepCopyInto ::
  "ProfileSpec_mem \<Rightarrow> ('m, 'l) store \<Rightarrow> ProfileSpec_mem \<times> ('m, 'l) store" where
  "ProfileSpec_DeepCopyInto i s =
    (let out = i\<lparr>sm_FrontendService := sm_FrontendService i, sm_AccumulatorService := sm_AccumulatorService i,
       sm_MatcherService := sm_MatcherService i, sm_DispenserService := sm_DispenserService i\<rparr>
     in case sm_MatchmakingQueues i of
          None \<Rightarrow> (out, s)
        | Some a \<Rightarrow>
            let b = h_next s;
              n = length (h_queues s a);
              s1 = s\<lparr>h_next := b + 1, h_queues := (h_queues s)(b := replicate n None)\<rparr>
            in (out\<lparr>sm_MatchmakingQueues := Some b\<rparr>, fold (copy_queue a b) [0..<n] s1))"

definition Profile_DeepCopyInto ::
  "('m, 'l) metadata \<Rightarrow> 'm Profile_mem \<Rightarrow> ('m, 'l) store \<Rightarrow> 'm Profile_mem \<times> ('m, 'l) store" where
  "Profile_DeepCopyInto lib i s =
    (let out = i\<lparr>pm_TypeMeta := pm_TypeMeta i\<rparr>; (meta, s1) = ObjectMeta_DeepCopyInto lib (pm_ObjectMeta i) s
     in case ProfileSpec_DeepCopyInto (pm_Spec i) s1 of
          (spec, s2) \<Rightarrow> (out\<lparr>pm_ObjectMeta := meta, pm_Spec := spec, pm_Status := pm_Status i\<rparr>, s2))"

definition copy_profile ::
  "('m, 'l) metadata \<Rightarrow> nat \<Rightarrow> nat \<Rightarrow> nat \<Rightarrow> ('m, 'l) store \<Rightarrow> ('m, 'l) store" where
  "copy_profile lib a b i s =
    (case Profile_DeepCopyInto lib (h_profiles s a ! i) s of
       (p, s1) \<Rightarrow> s1\<lparr>h_profiles := (h_profiles s1)(b := (h_profiles s1 b)[i := p])\<rparr>)"

definition ProfileList_DeepCopyInto ::
  "('m, 'l) metadata \<Rightarrow> 'l ProfileList_mem \<Rightarrow> ('m, 'l) store \<Rightarrow> 'l ProfileList_mem \<times> ('m, 'l) store" where
  "ProfileList_DeepCopyInto lib i s =
    (let (meta, s0) = ListMeta_DeepCopyInto lib (lm_ListMeta i) s;
       out = i\<lparr>lm_TypeMeta := lm_TypeMeta i, lm_ListMeta := meta\<rparr>
     in case lm_Items i of
          None \<Rightarrow> (out, s0)
        | Some a \<Rightarrow>
            let b = h_next s0;
              n = length (h_profiles s0 a);
              s1 = s0\<lparr>h_next := b + 1, h_profiles := (h_profiles s0)(b := replicate n (zero_Profile lib))\<rparr>
            in (out\<lparr>lm_Items := Some b\<rparr>, fold (copy_profile lib a b) [0..<n] s1))"

section \<open>DeepCopy\<close>

text \<open>
  \<open>in.DeepCopy()\<close> on a pointer: \<open>nil\<close>, or a new struct that \<open>DeepCopyInto\<close> fills. \<open>get\<close> and \<open>put\<close> are
  the heap of the type.
\<close>

definition deep_copy ::
  "(('m, 'l) store \<Rightarrow> nat \<Rightarrow> 'a) \<Rightarrow> (((nat \<Rightarrow> 'a) \<Rightarrow> nat \<Rightarrow> 'a) \<Rightarrow> ('m, 'l) store \<Rightarrow> ('m, 'l) store) \<Rightarrow>
    ('a \<Rightarrow> ('m, 'l) store \<Rightarrow> 'a \<times> ('m, 'l) store) \<Rightarrow> nat option \<Rightarrow> ('m, 'l) store \<Rightarrow> nat option \<times> ('m, 'l) store" where
  "deep_copy get put into p s =
    (case p of
       None \<Rightarrow> (None, s)
     | Some a \<Rightarrow>
         let out = h_next s
         in case into (get s a) (s\<lparr>h_next := out + 1\<rparr>) of
              (x, s1) \<Rightarrow> (Some out, put (\<lambda>h. h(out := x)) s1))"

definition AccumulatorService_DeepCopy :: "nat option \<Rightarrow> ('m, 'l) store \<Rightarrow> nat option \<times> ('m, 'l) store" where
  "AccumulatorService_DeepCopy =
    deep_copy h_AccumulatorService h_AccumulatorService_update AccumulatorService_DeepCopyInto"

definition DispenserService_DeepCopy :: "nat option \<Rightarrow> ('m, 'l) store \<Rightarrow> nat option \<times> ('m, 'l) store" where
  "DispenserService_DeepCopy = deep_copy h_DispenserService h_DispenserService_update DispenserService_DeepCopyInto"

definition FrontendService_DeepCopy :: "nat option \<Rightarrow> ('m, 'l) store \<Rightarrow> nat option \<times> ('m, 'l) store" where
  "FrontendService_DeepCopy = deep_copy h_FrontendService h_FrontendService_update FrontendService_DeepCopyInto"

definition MatcherService_DeepCopy :: "nat option \<Rightarrow> ('m, 'l) store \<Rightarrow> nat option \<times> ('m, 'l) store" where
  "MatcherService_DeepCopy = deep_copy h_MatcherService h_MatcherService_update MatcherService_DeepCopyInto"

definition MatchmakingQueue_DeepCopy :: "nat option \<Rightarrow> ('m, 'l) store \<Rightarrow> nat option \<times> ('m, 'l) store" where
  "MatchmakingQueue_DeepCopy = deep_copy h_MatchmakingQueue h_MatchmakingQueue_update MatchmakingQueue_DeepCopyInto"

definition ProfileStatus_DeepCopy :: "nat option \<Rightarrow> ('m, 'l) store \<Rightarrow> nat option \<times> ('m, 'l) store" where
  "ProfileStatus_DeepCopy = deep_copy h_ProfileStatus h_ProfileStatus_update ProfileStatus_DeepCopyInto"

definition ProfileSpec_DeepCopy :: "nat option \<Rightarrow> ('m, 'l) store \<Rightarrow> nat option \<times> ('m, 'l) store" where
  "ProfileSpec_DeepCopy = deep_copy h_ProfileSpec h_ProfileSpec_update ProfileSpec_DeepCopyInto"

definition Profile_DeepCopy ::
  "('m, 'l) metadata \<Rightarrow> nat option \<Rightarrow> ('m, 'l) store \<Rightarrow> nat option \<times> ('m, 'l) store" where
  "Profile_DeepCopy lib = deep_copy h_Profile h_Profile_update (Profile_DeepCopyInto lib)"

definition ProfileList_DeepCopy ::
  "('m, 'l) metadata \<Rightarrow> nat option \<Rightarrow> ('m, 'l) store \<Rightarrow> nat option \<times> ('m, 'l) store" where
  "ProfileList_DeepCopy lib = deep_copy h_ProfileList h_ProfileList_update (ProfileList_DeepCopyInto lib)"

text \<open>The copies as values of the interface \<open>runtime.Object\<close>: a \<open>nil\<close> copy is the \<open>nil\<close> interface.\<close>

datatype runtime_Object = ProfileObject nat | ProfileListObject nat

definition Profile_DeepCopyObject ::
  "('m, 'l) metadata \<Rightarrow> nat option \<Rightarrow> ('m, 'l) store \<Rightarrow> runtime_Object option \<times> ('m, 'l) store" where
  "Profile_DeepCopyObject lib p s = (case Profile_DeepCopy lib p s of
      (Some c, s1) \<Rightarrow> (Some (ProfileObject c), s1)
    | (None, s1) \<Rightarrow> (None, s1))"

definition ProfileList_DeepCopyObject ::
  "('m, 'l) metadata \<Rightarrow> nat option \<Rightarrow> ('m, 'l) store \<Rightarrow> runtime_Object option \<times> ('m, 'l) store" where
  "ProfileList_DeepCopyObject lib p s = (case ProfileList_DeepCopy lib p s of
      (Some c, s1) \<Rightarrow> (Some (ProfileListObject c), s1)
    | (None, s1) \<Rightarrow> (None, s1))"

end
