(* ===== verification/DeepCopy_Laws.thy ===== *)
theory DeepCopy_Laws
  imports DeepCopy
begin

text \<open>
  What a deep copy is worth: it reads as the original, it lies in new memory, nothing that was there is
  changed; so a later write through one of the two is not seen through the other.
\<close>

section \<open>Values and the memory they lie in\<close>

text \<open>
  The value of a specification is the \<open>ProfileSpec\<close> of the reconciler, and whether its slice is \<open>nil\<close>.
\<close>

definition spec_value :: "('m, 'l) store \<Rightarrow> ProfileSpec_mem \<Rightarrow> ProfileSpec \<times> bool" where
  "spec_value s i =
    (\<lparr>spec_NatsAddress = sm_NatsAddress i, spec_RedisAddress = sm_RedisAddress i,
      spec_FrontendService = sm_FrontendService i, spec_AccumulatorService = sm_AccumulatorService i,
      spec_MatcherService = sm_MatcherService i, spec_DispenserService = sm_DispenserService i,
      spec_MatchmakingQueues = (case sm_MatchmakingQueues i of None \<Rightarrow> []
         | Some a \<Rightarrow> map (map_option (h_MatchmakingQueue s)) (h_queues s a))\<rparr>,
     sm_MatchmakingQueues i = None)"

text \<open>The value of a metadata struct has the contents of its maps and slices.\<close>

type_synonym 'm meta_value = "'m \<times> string list list"

definition meta_value :: "('m, 'l) store \<Rightarrow> 'x meta \<Rightarrow> 'x meta_value" where
  "meta_value s i = (fst i, map (h_meta s) (snd i))"

definition profile_value ::
  "('m, 'l) store \<Rightarrow> 'm Profile_mem \<Rightarrow> TypeMeta \<times> 'm meta_value \<times> ProfileSpec \<times> bool" where
  "profile_value s i = (pm_TypeMeta i, meta_value s (pm_ObjectMeta i), spec_value s (pm_Spec i))"

definition list_value ::
  "('m, 'l) store \<Rightarrow> 'l ProfileList_mem \<Rightarrow>
    TypeMeta \<times> 'l meta_value \<times> (TypeMeta \<times> 'm meta_value \<times> ProfileSpec \<times> bool) list option" where
  "list_value s i = (lm_TypeMeta i, meta_value s (lm_ListMeta i), map_option (\<lambda>a. map (profile_value s) (h_profiles s a)) (lm_Items i))"

definition spec_addrs :: "('m, 'l) store \<Rightarrow> ProfileSpec_mem \<Rightarrow> nat set" where
  "spec_addrs s i = (case sm_MatchmakingQueues i of None \<Rightarrow> {} | Some a \<Rightarrow> insert a {q. Some q \<in> set (h_queues s a)})"

definition meta_addrs :: "('m, 'l) store \<Rightarrow> 'x meta \<Rightarrow> nat set" where
  "meta_addrs s i = set (snd i)"

definition profile_addrs :: "('m, 'l) store \<Rightarrow> 'm Profile_mem \<Rightarrow> nat set" where
  "profile_addrs s i = meta_addrs s (pm_ObjectMeta i) \<union> spec_addrs s (pm_Spec i)"

definition list_addrs :: "('m, 'l) store \<Rightarrow> 'l ProfileList_mem \<Rightarrow> nat set" where
  "list_addrs s i = meta_addrs s (lm_ListMeta i) \<union> (case lm_Items i of None \<Rightarrow> {}
     | Some a \<Rightarrow> insert a (\<Union>p \<in> set (h_profiles s a). profile_addrs s p))"

text \<open>Two stores agree on addresses.\<close>

definition agree :: "nat set \<Rightarrow> ('m, 'l) store \<Rightarrow> ('m, 'l) store \<Rightarrow> bool" where
  "agree A s s' \<longleftrightarrow> (\<forall>x \<in> A.
     h_FrontendService s' x = h_FrontendService s x \<and> h_AccumulatorService s' x = h_AccumulatorService s x \<and>
     h_MatcherService s' x = h_MatcherService s x \<and> h_DispenserService s' x = h_DispenserService s x \<and>
     h_MatchmakingQueue s' x = h_MatchmakingQueue s x \<and> h_ProfileStatus s' x = h_ProfileStatus s x \<and>
     h_ProfileSpec s' x = h_ProfileSpec s x \<and> h_Profile s' x = h_Profile s x \<and>
     h_ProfileList s' x = h_ProfileList s x \<and> h_queues s' x = h_queues s x \<and> h_profiles s' x = h_profiles s x \<and>
     h_meta s' x = h_meta s x)"

lemma agree_refl [simp]: "agree A s s"
  by (simp add: agree_def)

lemma agree_mono: "agree A s s' \<Longrightarrow> B \<subseteq> A \<Longrightarrow> agree B s s'"
  by (auto simp: agree_def)

lemma agree_trans: "agree A s s1 \<Longrightarrow> agree A s1 s2 \<Longrightarrow> agree A s s2"
  by (simp add: agree_def)

lemma agree_insert: "agree (insert x A) s s' \<Longrightarrow> agree A s s'"
  by (simp add: agree_def)

lemma agree_fields:
  assumes "agree A s s'" and "x \<in> A"
  shows "h_MatchmakingQueue s' x = h_MatchmakingQueue s x" "h_queues s' x = h_queues s x"
    "h_profiles s' x = h_profiles s x" "h_ProfileSpec s' x = h_ProfileSpec s x" "h_Profile s' x = h_Profile s x"
    "h_ProfileList s' x = h_ProfileList s x" "h_meta s' x = h_meta s x"
  using assms by (simp_all add: agree_def)

text \<open>A value depends on its own memory only.\<close>

lemma spec_agree:
  assumes "agree (spec_addrs s i) s s'"
  shows "spec_value s' i = spec_value s i" "spec_addrs s' i = spec_addrs s i"
proof -
  have "\<forall>a. sm_MatchmakingQueues i = Some a \<longrightarrow> h_queues s' a = h_queues s a \<and>
      (\<forall>q. Some q \<in> set (h_queues s a) \<longrightarrow> h_MatchmakingQueue s' q = h_MatchmakingQueue s q)"
    using agree_fields [OF assms] by (auto simp: spec_addrs_def)
  then show "spec_value s' i = spec_value s i" "spec_addrs s' i = spec_addrs s i"
    by (auto simp: spec_value_def spec_addrs_def map_option_case split: option.splits)
qed

lemma meta_agree:
  assumes "agree (meta_addrs s i) s s'"
  shows "meta_value s' i = meta_value s i" "meta_addrs s' i = meta_addrs s i"
  using agree_fields(7) [OF assms] by (simp_all add: meta_value_def meta_addrs_def)

lemma profile_agree:
  assumes "agree (profile_addrs s i) s s'"
  shows "profile_value s' i = profile_value s i" "profile_addrs s' i = profile_addrs s i"
proof -
  note meta_agree [OF agree_mono [OF assms], of "pm_ObjectMeta i"] spec_agree [OF agree_mono [OF assms], of "pm_Spec i"]
  then show "profile_value s' i = profile_value s i" "profile_addrs s' i = profile_addrs s i"
    by (simp_all add: profile_value_def profile_addrs_def)
qed

lemma list_agree:
  assumes "agree (list_addrs s i) s s'"
  shows "list_value s' i = list_value s i" "list_addrs s' i = list_addrs s i"
proof -
  have "h_profiles s' a = h_profiles s a \<and>
      (\<forall>p \<in> set (h_profiles s a). profile_value s' p = profile_value s p \<and> profile_addrs s' p = profile_addrs s p)"
    if "lm_Items i = Some a" for a
  proof (intro conjI ballI)
    show "h_profiles s' a = h_profiles s a" using agree_fields(3) [OF assms] that by (simp add: list_addrs_def)
    fix p assume "p \<in> set (h_profiles s a)"
    with that have "profile_addrs s p \<subseteq> list_addrs s i" by (auto simp: list_addrs_def)
    from profile_agree [OF agree_mono [OF assms this]]
    show "profile_value s' p = profile_value s p" "profile_addrs s' p = profile_addrs s p" .
  qed
  moreover have "meta_value s' (lm_ListMeta i) = meta_value s (lm_ListMeta i)"
    "meta_addrs s' (lm_ListMeta i) = meta_addrs s (lm_ListMeta i)"
    using meta_agree [OF agree_mono [OF assms], of "lm_ListMeta i"] by (simp_all add: list_addrs_def)
  ultimately show "list_value s' i = list_value s i" "list_addrs s' i = list_addrs s i"
    by (cases "lm_Items i"; simp add: list_value_def list_addrs_def cong: map_cong)+
qed

section \<open>The copies of structs\<close>

text \<open>
  From the store \<open>s\<close> to \<open>s'\<close> a copy \<open>i'\<close> of \<open>i\<close> was made, in memory from \<open>n\<close> on.
\<close>

definition copied ::
  "(('m, 'l) store \<Rightarrow> 'a \<Rightarrow> 'v) \<Rightarrow> (('m, 'l) store \<Rightarrow> 'a \<Rightarrow> nat set) \<Rightarrow>
    'a \<Rightarrow> ('m, 'l) store \<Rightarrow> 'a \<Rightarrow> ('m, 'l) store \<Rightarrow> bool" where
  "copied val addrs i s i' s' \<longleftrightarrow> h_next s \<le> h_next s' \<and> agree {..<h_next s} s s' \<and>
     val s' i' = val s i \<and> addrs s' i' \<subseteq> {h_next s..<h_next s'}"

text \<open>The loop over the queues, after \<open>i\<close> iterations.\<close>

definition queues_copied :: "nat \<Rightarrow> nat \<Rightarrow> ('m, 'l) store \<Rightarrow> nat \<Rightarrow> ('m, 'l) store \<Rightarrow> bool" where
  "queues_copied a b s0 i s \<longleftrightarrow> b < h_next s \<and> agree {..<b} s0 s \<and>
     length (h_queues s b) = length (h_queues s0 a) \<and>
     (\<forall>j < length (h_queues s0 a). case h_queues s0 a ! j of
        None \<Rightarrow> h_queues s b ! j = None
      | Some p \<Rightarrow> if j < i then (case h_queues s b ! j of None \<Rightarrow> False | Some q \<Rightarrow> b < q \<and> q < h_next s \<and>
              h_MatchmakingQueue s q = h_MatchmakingQueue s0 p)
          else h_queues s b ! j = None)"

lemma copy_queue_step:
  assumes inv: "queues_copied a b s0 i s" and "a < b" and "i < length (h_queues s0 a)"
    and old: "\<forall>p. Some p \<in> set (h_queues s0 a) \<longrightarrow> p < b"
  shows "queues_copied a b s0 (Suc i) (copy_queue a b i s)"
proof -
  from inv assms(2) have same: "h_queues s a = h_queues s0 a"
    by (auto simp: queues_copied_def dest: agree_fields(2))
  show ?thesis
  proof (cases "h_queues s0 a ! i")
    case None
    with inv show ?thesis
      by (auto simp: queues_copied_def copy_queue_def same less_Suc_eq split: option.splits if_splits)
  next
    case (Some p)
    with old assms(3) have "p < b" by (metis nth_mem)
    with inv have p: "h_MatchmakingQueue s p = h_MatchmakingQueue s0 p" "p < h_next s"
      by (auto simp: queues_copied_def dest: agree_fields(1))
    let ?s' = "copy_queue a b i s" and ?q = "h_next s"
    have s': "h_next ?s' = ?q + 1" "h_queues ?s' = (h_queues s)(b := (h_queues s b)[i := Some ?q])"
      "h_MatchmakingQueue ?s' = (h_MatchmakingQueue s)(?q := h_MatchmakingQueue s p)"
      by (simp_all add: copy_queue_def same Some Let_def)
    have "agree {..<b} s ?s'" using inv
      by (auto simp: agree_def queues_copied_def copy_queue_def same Some Let_def)
    with inv have frame: "agree {..<b} s0 ?s'" unfolding queues_copied_def by (blast intro: agree_trans)
    have "case h_queues s0 a ! j of None \<Rightarrow> h_queues ?s' b ! j = None
        | Some p \<Rightarrow> if j < Suc i then (case h_queues ?s' b ! j of None \<Rightarrow> False | Some q \<Rightarrow> b < q \<and> q < h_next ?s' \<and>
              h_MatchmakingQueue ?s' q = h_MatchmakingQueue s0 p)
            else h_queues ?s' b ! j = None" if j: "j < length (h_queues s0 a)" for j
    proof (cases "j = i")
      case True
      with inv assms(3) Some p show ?thesis by (simp add: s' queues_copied_def)
    next
      case False
      from inv j have "case h_queues s0 a ! j of None \<Rightarrow> h_queues s b ! j = None
        | Some p \<Rightarrow> if j < i then (case h_queues s b ! j of None \<Rightarrow> False | Some q \<Rightarrow> b < q \<and> q < h_next s \<and>
              h_MatchmakingQueue s q = h_MatchmakingQueue s0 p)
            else h_queues s b ! j = None" unfolding queues_copied_def by blast
      with False show ?thesis by (auto simp: s' less_Suc_eq split: option.splits if_splits)
    qed
    with inv frame show ?thesis unfolding queues_copied_def by (simp add: s')
  qed
qed

lemma copy_queues:
  assumes "queues_copied a b s0 0 s" and "a < b" and "i \<le> length (h_queues s0 a)"
    and "\<forall>p. Some p \<in> set (h_queues s0 a) \<longrightarrow> p < b"
  shows "queues_copied a b s0 i (fold (copy_queue a b) [0..<i] s)"
  using assms(3)
proof (induction i)
  case (Suc i)
  then show ?case using copy_queue_step [OF Suc.IH assms(2) _ assms(4)] by simp
qed (use assms(1) in simp)

lemma spec_copied:
  assumes "ProfileSpec_DeepCopyInto i s = (i', s')" and old: "spec_addrs s i \<subseteq> {..<h_next s}"
  shows "copied spec_value spec_addrs i s i' s'"
proof (cases "sm_MatchmakingQueues i")
  case None
  with assms show ?thesis
    by (auto simp: copied_def ProfileSpec_DeepCopyInto_def spec_value_def spec_addrs_def)
next
  case (Some a)
  let ?b = "h_next s" and ?n = "length (h_queues s a)"
  let ?s1 = "s\<lparr>h_next := ?b + 1, h_queues := (h_queues s)(?b := replicate ?n None)\<rparr>"
  from old Some have a: "a < ?b" "\<forall>p. Some p \<in> set (h_queues s a) \<longrightarrow> p < ?b" by (auto simp: spec_addrs_def)
  have "queues_copied a ?b s 0 ?s1" by (auto simp: queues_copied_def agree_def split: option.split)
  from copy_queues [OF this a(1) order_refl a(2)] assms(1) Some
  have q: "queues_copied a ?b s ?n s'" and i': "i' = i\<lparr>sm_MatchmakingQueues := Some ?b\<rparr>"
    by (simp_all add: ProfileSpec_DeepCopyInto_def Let_def)
  have nth: "h_queues s a ! j = None \<and> h_queues s' ?b ! j = None \<or>
      (\<exists>p q. h_queues s a ! j = Some p \<and> h_queues s' ?b ! j = Some q \<and> ?b < q \<and> q < h_next s' \<and>
        h_MatchmakingQueue s' q = h_MatchmakingQueue s p)" if "j < ?n" for j
    using q that unfolding queues_copied_def
    by (cases "h_queues s a ! j"; cases "h_queues s' ?b ! j") (force split: option.splits)+
  have len: "length (h_queues s' ?b) = ?n" using q by (simp add: queues_copied_def)
  have "map (map_option (h_MatchmakingQueue s')) (h_queues s' ?b) = map (map_option (h_MatchmakingQueue s)) (h_queues s a)"
    by (rule nth_equalityI) (use len nth in fastforce)+
  then have val: "spec_value s' i' = spec_value s i" by (simp add: spec_value_def i' Some)
  have "?b < p \<and> p < h_next s'" if "Some p \<in> set (h_queues s' ?b)" for p
    using that nth len by (fastforce simp: in_set_conv_nth)
  with q have "spec_addrs s' i' \<subseteq> {?b..<h_next s'}"
    by (auto simp: spec_addrs_def i' queues_copied_def less_imp_le)
  with val q show ?thesis by (auto simp: copied_def queues_copied_def)
qed

text \<open>The documented behaviour of the library: a deep copy of metadata is a copy in new memory.\<close>

definition metadata_copied :: "('m, 'l) metadata \<Rightarrow> bool" where
  "metadata_copied lib \<longleftrightarrow>
    (\<forall>i s i' s'. ObjectMeta_DeepCopyInto lib i s = (i', s') \<longrightarrow> meta_addrs s i \<subseteq> {..<h_next s} \<longrightarrow>
       copied meta_value meta_addrs i s i' s') \<and>
    (\<forall>i s i' s'. ListMeta_DeepCopyInto lib i s = (i', s') \<longrightarrow> meta_addrs s i \<subseteq> {..<h_next s} \<longrightarrow>
       copied meta_value meta_addrs i s i' s')"

lemma profile_copied:
  assumes "metadata_copied lib" and "Profile_DeepCopyInto lib i s = (i', s')" and "profile_addrs s i \<subseteq> {..<h_next s}"
  shows "copied profile_value profile_addrs i s i' s'"
proof -
  from assms(3) have old: "meta_addrs s (pm_ObjectMeta i) \<subseteq> {..<h_next s}" "spec_addrs s (pm_Spec i) \<subseteq> {..<h_next s}"
    by (simp_all add: profile_addrs_def)
  obtain meta s1 where m: "ObjectMeta_DeepCopyInto lib (pm_ObjectMeta i) s = (meta, s1)" by (rule prod.exhaust)
  with assms(1) old(1) have "copied meta_value meta_addrs (pm_ObjectMeta i) s meta s1"
    unfolding metadata_copied_def by blast
  then have s1: "h_next s \<le> h_next s1" "agree {..<h_next s} s s1" "meta_value s1 meta = meta_value s (pm_ObjectMeta i)"
    "meta_addrs s1 meta \<subseteq> {h_next s..<h_next s1}" by (auto simp: copied_def)
  note spec = spec_agree [OF agree_mono [OF s1(2) old(2)]]
  obtain spec s2 where c: "ProfileSpec_DeepCopyInto (pm_Spec i) s1 = (spec, s2)" by force
  have "spec_addrs s1 (pm_Spec i) \<subseteq> {..<h_next s1}" using old(2) s1(1) unfolding spec by auto
  from spec_copied [OF c this] spec have s2: "h_next s1 \<le> h_next s2" "agree {..<h_next s1} s1 s2"
    "spec_value s2 spec = spec_value s (pm_Spec i)" "spec_addrs s2 spec \<subseteq> {h_next s1..<h_next s2}"
    by (auto simp: copied_def)
  have "meta_addrs s1 meta \<subseteq> {..<h_next s1}" using s1(4) by auto
  note meta = meta_agree [OF agree_mono [OF s2(2) this]]
  have "agree {..<h_next s} s s2"
    using agree_trans [OF s1(2) agree_mono [OF s2(2)]] s1(1) by simp
  moreover from assms(2) m c have r: "i' = i\<lparr>pm_ObjectMeta := meta, pm_Spec := spec, pm_Status := pm_Status i\<rparr>" "s' = s2"
    by (auto simp: Profile_DeepCopyInto_def Let_def)
  moreover have "profile_value s2 i' = profile_value s i" using meta(1) s1(3) s2(3) by (simp add: r profile_value_def)
  moreover have "profile_addrs s2 i' \<subseteq> {h_next s..<h_next s2}"
    using meta(2) s1(1,4) s2(1,4) by (fastforce simp: r profile_addrs_def)
  ultimately show ?thesis using s1(1) s2(1) by (simp add: copied_def)
qed

text \<open>The loop over the profiles.\<close>

definition profiles_copied :: "nat \<Rightarrow> nat \<Rightarrow> ('m, 'l) store \<Rightarrow> nat \<Rightarrow> ('m, 'l) store \<Rightarrow> bool" where
  "profiles_copied a b s0 i s \<longleftrightarrow> b < h_next s \<and> agree {..<b} s0 s \<and>
     length (h_profiles s b) = length (h_profiles s0 a) \<and>
     (\<forall>j < i. profile_value s (h_profiles s b ! j) = profile_value s0 (h_profiles s0 a ! j) \<and>
        profile_addrs s (h_profiles s b ! j) \<subseteq> {b..<h_next s})"

text \<open>The array of a list is not part of its profiles.\<close>

lemma profile_value_array [simp]:
  "profile_value (s\<lparr>h_profiles := h\<rparr>) p = profile_value s p"
  "profile_addrs (s\<lparr>h_profiles := h\<rparr>) p = profile_addrs s p"
  by (simp_all add: profile_value_def profile_addrs_def meta_value_def meta_addrs_def spec_value_def spec_addrs_def
      split: option.split)

lemma copy_profile_step:
  assumes inv: "profiles_copied a b s0 i s" and lib: "metadata_copied lib" and a: "a < b"
    and i: "i < length (h_profiles s0 a)"
    and old: "\<forall>p \<in> set (h_profiles s0 a). profile_addrs s0 p \<subseteq> {..<b}"
  shows "profiles_copied a b s0 (Suc i) (copy_profile lib a b i s)"
proof -
  let ?p = "h_profiles s0 a ! i"
  from inv a have same: "h_profiles s a = h_profiles s0 a"
    by (auto simp: profiles_copied_def dest: agree_fields(3))
  have b: "b < h_next s" and frame0: "agree {..<b} s0 s" using inv by (simp_all add: profiles_copied_def)
  have sub: "profile_addrs s0 ?p \<subseteq> {..<b}" using old i by simp
  note p = profile_agree [OF agree_mono [OF frame0 sub]]
  obtain p' s1 where c: "Profile_DeepCopyInto lib ?p s = (p', s1)" by force
  have "profile_addrs s ?p \<subseteq> {..<h_next s}" unfolding p using sub b by auto
  from profile_copied [OF lib c this] p have s1: "h_next s \<le> h_next s1" "agree {..<h_next s} s s1"
    "profile_value s1 p' = profile_value s0 ?p" "profile_addrs s1 p' \<subseteq> {h_next s..<h_next s1}"
    by (auto simp: copied_def)
  let ?s' = "s1\<lparr>h_profiles := (h_profiles s1)(b := (h_profiles s1 b)[i := p'])\<rparr>"
  have s': "copy_profile lib a b i s = ?s'" by (simp add: copy_profile_def same c)
  have arr: "h_profiles s1 b = h_profiles s b" using agree_fields(3) [OF s1(2)] b by simp
  have "agree {..<b} s ?s'" using agree_mono [OF s1(2), of "{..<b}"] b by (auto simp: agree_def)
  with frame0 have frame: "agree {..<b} s0 ?s'" by (rule agree_trans)
  have "profile_value s1 (h_profiles ?s' b ! j) = profile_value s0 (h_profiles s0 a ! j) \<and>
      profile_addrs s1 (h_profiles ?s' b ! j) \<subseteq> {b..<h_next s1}" if j: "j < Suc i" for j
  proof (cases "j = i")
    case True
    with s1(3,4) b inv i show ?thesis by (auto simp: arr profiles_copied_def)
  next
    case False
    with j inv have v: "profile_value s (h_profiles s b ! j) = profile_value s0 (h_profiles s0 a ! j)"
      "profile_addrs s (h_profiles s b ! j) \<subseteq> {b..<h_next s}" by (simp_all add: profiles_copied_def)
    then have "profile_addrs s (h_profiles s b ! j) \<subseteq> {..<h_next s}" by auto
    from profile_agree [OF agree_mono [OF s1(2) this]] v s1(1) False show ?thesis by (auto simp: arr)
  qed
  with inv frame b s1(1) show ?thesis unfolding s' profiles_copied_def by (simp add: arr)
qed

lemma copy_profiles:
  assumes "profiles_copied a b s0 0 s" and "metadata_copied lib" and "a < b" and "i \<le> length (h_profiles s0 a)"
    and "\<forall>p \<in> set (h_profiles s0 a). profile_addrs s0 p \<subseteq> {..<b}"
  shows "profiles_copied a b s0 i (fold (copy_profile lib a b) [0..<i] s)"
  using assms(4)
proof (induction i)
  case (Suc i)
  then show ?case using copy_profile_step [OF Suc.IH assms(2,3) _ assms(5)] by simp
qed (use assms(1) in simp)

lemma list_copied:
  assumes lib: "metadata_copied lib" and c: "ProfileList_DeepCopyInto lib i s = (i', s')"
    and old: "list_addrs s i \<subseteq> {..<h_next s}"
  shows "copied list_value list_addrs i s i' s'"
proof -
  obtain meta s0 where m: "ListMeta_DeepCopyInto lib (lm_ListMeta i) s = (meta, s0)" by (rule prod.exhaust)
  from old have oldm: "meta_addrs s (lm_ListMeta i) \<subseteq> {..<h_next s}" by (simp add: list_addrs_def)
  with lib m have "copied meta_value meta_addrs (lm_ListMeta i) s meta s0"
    unfolding metadata_copied_def by blast
  then have s0: "h_next s \<le> h_next s0" "agree {..<h_next s} s s0" "meta_value s0 meta = meta_value s (lm_ListMeta i)"
    "meta_addrs s0 meta \<subseteq> {h_next s..<h_next s0}" by (auto simp: copied_def)
  show ?thesis
  proof (cases "lm_Items i")
    case None
    with c m s0 show ?thesis
      by (auto simp: copied_def ProfileList_DeepCopyInto_def list_value_def list_addrs_def Let_def)
  next
    case (Some a)
    let ?b = "h_next s0" and ?n = "length (h_profiles s0 a)"
    let ?s1 = "s0\<lparr>h_next := ?b + 1, h_profiles := (h_profiles s0)(?b := replicate ?n (zero_Profile lib))\<rparr>"
    note list = list_agree [OF agree_mono [OF s0(2) old]]
    from old Some s0(1) have "list_addrs s0 i \<subseteq> {..<?b}" unfolding list by auto
    with Some have a: "a < ?b" "\<forall>p \<in> set (h_profiles s0 a). profile_addrs s0 p \<subseteq> {..<?b}"
      by (auto simp: list_addrs_def)
    have "profiles_copied a ?b s0 0 ?s1" by (auto simp: profiles_copied_def agree_def)
    from copy_profiles [OF this lib a(1) order_refl a(2)] c m Some
    have q: "profiles_copied a ?b s0 ?n s'" and i': "i' = i\<lparr>lm_ListMeta := meta, lm_Items := Some ?b\<rparr>"
      by (simp_all add: ProfileList_DeepCopyInto_def Let_def)
    have ext: "?b < h_next s'" "agree {..<?b} s0 s'" using q by (simp_all add: profiles_copied_def)
    have "meta_addrs s0 meta \<subseteq> {..<?b}" using s0(4) by auto
    note meta = meta_agree [OF agree_mono [OF ext(2) this]]
    have len: "length (h_profiles s' ?b) = ?n" using q by (simp add: profiles_copied_def)
    have "map (profile_value s') (h_profiles s' ?b) = map (profile_value s0) (h_profiles s0 a)"
      by (rule nth_equalityI) (use len q in \<open>simp_all add: profiles_copied_def\<close>)
    with list(1) meta(1) s0(3) have val: "list_value s' i' = list_value s i" by (simp add: list_value_def i' Some)
    have "profile_addrs s' p \<subseteq> {?b..<h_next s'}" if "p \<in> set (h_profiles s' ?b)" for p
      using that q len by (auto simp: in_set_conv_nth profiles_copied_def)
    then have "list_addrs s' i' \<subseteq> {h_next s..<h_next s'}"
      using ext(1) s0(1,4) meta(2) by (fastforce simp: list_addrs_def i')
    moreover have "agree {..<h_next s} s s'" using agree_trans [OF s0(2) agree_mono [OF ext(2)]] s0(1) by simp
    ultimately show ?thesis using val ext(1) s0(1) by (simp add: copied_def)
  qed
qed

section \<open>The copies of pointers\<close>

text \<open>
  The copy at \<open>c\<close> of what \<open>p\<close> points to: it is new, it reads as the original, and a store that differs in
  the memory of one of them only reads the other unchanged.
\<close>

definition independent_copy ::
  "(('m, 'l) store \<Rightarrow> nat \<Rightarrow> 'a) \<Rightarrow> (('m, 'l) store \<Rightarrow> 'a \<Rightarrow> 'v) \<Rightarrow> (('m, 'l) store \<Rightarrow> 'a \<Rightarrow> nat set) \<Rightarrow>
    nat \<Rightarrow> ('m, 'l) store \<Rightarrow> nat \<Rightarrow> ('m, 'l) store \<Rightarrow> bool" where
  "independent_copy get val addrs p s c s' \<longleftrightarrow>
    agree {..<h_next s} s s' \<and> val s' (get s' c) = val s (get s p) \<and>
    insert c (addrs s' (get s' c)) \<subseteq> {h_next s..<h_next s'} \<and>
    (\<forall>s2. agree (- insert c (addrs s' (get s' c))) s' s2 \<longrightarrow> val s2 (get s2 p) = val s (get s p)) \<and>
    (\<forall>s2. agree (- insert p (addrs s (get s p))) s' s2 \<longrightarrow> val s2 (get s2 c) = val s (get s p))"

text \<open>What \<open>deep_copy\<close> makes of the copy of a struct, for a heap with these laws.\<close>

locale typed_heap =
  fixes get :: "('m, 'l) store \<Rightarrow> nat \<Rightarrow> 'a"
    and put :: "((nat \<Rightarrow> 'a) \<Rightarrow> nat \<Rightarrow> 'a) \<Rightarrow> ('m, 'l) store \<Rightarrow> ('m, 'l) store"
    and val :: "('m, 'l) store \<Rightarrow> 'a \<Rightarrow> 'v" and addrs :: "('m, 'l) store \<Rightarrow> 'a \<Rightarrow> nat set"
    and into :: "'a \<Rightarrow> ('m, 'l) store \<Rightarrow> 'a \<times> ('m, 'l) store"
  assumes get_agree: "agree A s s' \<Longrightarrow> p \<in> A \<Longrightarrow> get s' p = get s p"
    and val_agree: "agree (addrs s i) s s' \<Longrightarrow> val s' i = val s i"
    and get_put: "get (put f s) = f (get s)"
    and put_agree: "c \<notin> A \<Longrightarrow> agree A s (put (\<lambda>h. h(c := x)) s)"
    and put_frame: "val (put f s) i = val s i" "addrs (put f s) i = addrs s i" "h_next (put f s) = h_next s"
    and next_frame: "val (s\<lparr>h_next := n\<rparr>) i = val s i" "addrs (s\<lparr>h_next := n\<rparr>) i = addrs s i"
      "get (s\<lparr>h_next := n\<rparr>) = get s"
    and into_copied: "into i s = (i', s') \<Longrightarrow> addrs s i \<subseteq> {..<h_next s} \<Longrightarrow> copied val addrs i s i' s'"
begin

lemma copy_independent:
  assumes "p < h_next s" and "addrs s (get s p) \<subseteq> {..<h_next s}"
  shows "\<exists>c s'. deep_copy get put into (Some p) s = (Some c, s') \<and> independent_copy get val addrs p s c s'"
proof -
  let ?c = "h_next s" and ?s0 = "s\<lparr>h_next := h_next s + 1\<rparr>"
  obtain x s1 where into: "into (get s p) ?s0 = (x, s1)" by force
  from assms(2) have "addrs ?s0 (get s p) \<subseteq> {..<h_next ?s0}" by (auto simp: next_frame less_Suc_eq)
  from into_copied [OF into this] have s1: "?c < h_next s1" "agree {..<Suc ?c} ?s0 s1"
    "val s1 x = val s (get s p)" "addrs s1 x \<subseteq> {Suc ?c..<h_next s1}"
    by (auto simp: copied_def next_frame)
  let ?s' = "put (\<lambda>h. h(?c := x)) s1"
  have run: "deep_copy get put into (Some p) s = (Some ?c, ?s')"
    using into by (simp add: deep_copy_def next_frame Let_def)
  have c: "get ?s' ?c = x" by (simp add: get_put)
  have "agree {..<?c} s s1" using agree_mono [OF s1(2), of "{..<?c}"] by (simp add: agree_def)
  from agree_trans [OF this put_agree] have frame: "agree {..<?c} s ?s'" by simp
  have vx: "val ?s' x = val s (get s p)" "addrs ?s' x \<subseteq> {Suc ?c..<h_next ?s'}"
    by (simp_all add: put_frame s1(3,4))
  have orig: "val s2 (get s2 p) = val s (get s p)" if "agree (- insert ?c (addrs ?s' x)) ?s' s2" for s2
  proof -
    have "{..<?c} \<subseteq> - insert ?c (addrs ?s' x)" using vx(2) by auto
    from agree_trans [OF frame agree_mono [OF that this]] have a: "agree {..<?c} s s2" .
    from get_agree [OF a, of p] val_agree [OF agree_mono [OF a assms(2)]] assms(1) show ?thesis by simp
  qed
  have copy: "val s2 (get s2 ?c) = val s (get s p)" if "agree (- insert p (addrs s (get s p))) ?s' s2" for s2
  proof -
    have sub: "insert ?c (addrs ?s' x) \<subseteq> - insert p (addrs s (get s p))" using vx(2) assms by fastforce
    from agree_mono [OF that this] have a: "agree (insert ?c (addrs ?s' x)) ?s' s2" .
    from get_agree [OF a, of ?c] val_agree [OF agree_insert [OF a]] show ?thesis by (simp add: c vx(1))
  qed
  have "insert ?c (addrs ?s' x) \<subseteq> {?c..<h_next ?s'}" using vx(2) s1(1) by (auto simp: put_frame)
  with run frame vx(1) orig copy show ?thesis
    unfolding independent_copy_def by (intro exI [of _ ?c] exI [of _ ?s']) (simp add: c)
qed

end

lemmas heap_defs = agree_def spec_value_def spec_addrs_def meta_value_def meta_addrs_def

interpretation queue_heap: typed_heap h_MatchmakingQueue h_MatchmakingQueue_update "\<lambda>s i. i" "\<lambda>s i. {}"
  MatchmakingQueue_DeepCopyInto
  by unfold_locales (simp_all add: agree_def, simp add: copied_def MatchmakingQueue_DeepCopyInto_def)

interpretation spec_heap: typed_heap h_ProfileSpec h_ProfileSpec_update spec_value spec_addrs ProfileSpec_DeepCopyInto
  by unfold_locales (simp_all add: agree_fields(4) spec_agree spec_copied,
      simp_all add: heap_defs split: option.split)

lemma profile_heap:
  assumes "metadata_copied lib"
  shows "typed_heap h_Profile h_Profile_update profile_value profile_addrs (Profile_DeepCopyInto lib)"
  by unfold_locales (simp_all add: agree_fields(5) profile_agree profile_copied [OF assms],
      simp_all add: heap_defs profile_value_def profile_addrs_def split: option.split)

lemma list_frame [simp]:
  "list_value (h_ProfileList_update f s) i = list_value s i" "list_addrs (h_ProfileList_update f s) i = list_addrs s i"
  "list_value (s\<lparr>h_next := n\<rparr>) i = list_value s i" "list_addrs (s\<lparr>h_next := n\<rparr>) i = list_addrs s i"
proof -
  have "profile_value (h_ProfileList_update f s) = profile_value s" "profile_addrs (h_ProfileList_update f s) = profile_addrs s"
    "profile_value (s\<lparr>h_next := n\<rparr>) = profile_value s" "profile_addrs (s\<lparr>h_next := n\<rparr>) = profile_addrs s"
    by (simp_all add: fun_eq_iff profile_value_def profile_addrs_def meta_value_def meta_addrs_def spec_value_def
        spec_addrs_def split: option.split)
  then show "list_value (h_ProfileList_update f s) i = list_value s i" "list_addrs (h_ProfileList_update f s) i = list_addrs s i"
    "list_value (s\<lparr>h_next := n\<rparr>) i = list_value s i" "list_addrs (s\<lparr>h_next := n\<rparr>) i = list_addrs s i"
    by (simp_all add: list_value_def list_addrs_def meta_value_def meta_addrs_def split: option.split)
qed

lemma list_heap:
  assumes "metadata_copied lib"
  shows "typed_heap h_ProfileList h_ProfileList_update list_value list_addrs (ProfileList_DeepCopyInto lib)"
  by unfold_locales (simp_all add: agree_fields(6) list_agree list_copied [OF assms], simp_all add: agree_def)

text \<open>The structs without pointers.\<close>

lemma plain_copies:
  "\<exists>c s'. AccumulatorService_DeepCopy (Some p) s = (Some c, s') \<and> h_AccumulatorService s' c = h_AccumulatorService s p"
  "\<exists>c s'. DispenserService_DeepCopy (Some p) s = (Some c, s') \<and> h_DispenserService s' c = h_DispenserService s p"
  "\<exists>c s'. FrontendService_DeepCopy (Some p) s = (Some c, s') \<and> h_FrontendService s' c = h_FrontendService s p"
  "\<exists>c s'. MatcherService_DeepCopy (Some p) s = (Some c, s') \<and> h_MatcherService s' c = h_MatcherService s p"
  "\<exists>c s'. ProfileStatus_DeepCopy (Some p) s = (Some c, s') \<and> h_ProfileStatus s' c = h_ProfileStatus s p"
  by (simp_all add: AccumulatorService_DeepCopy_def DispenserService_DeepCopy_def FrontendService_DeepCopy_def
      MatcherService_DeepCopy_def ProfileStatus_DeepCopy_def deep_copy_def AccumulatorService_DeepCopyInto_def
      DispenserService_DeepCopyInto_def FrontendService_DeepCopyInto_def MatcherService_DeepCopyInto_def
      ProfileStatus_DeepCopyInto_def Let_def)

section \<open>Properties\<close>

text \<open>C23: A deep copy is a copy and shares nothing. For a list of profiles, a profile, a specification and a
  queue that lie in allocated memory, \<open>DeepCopy\<close> returns a new pointer; all that was in memory is as
  before; the copy reads as the original, with \<open>nil\<close> slices and \<open>nil\<close> queues kept; it lies in new memory,
  so that whatever is written into the memory of one of the two, the maps and slices of their metadata
  included, the other reads as before. A \<open>nil\<close> pointer is copied to a \<open>nil\<close> object. That the library copies
  a metadata struct in this way is a hypothesis.\<close>

theorem deep_copy_independent:
  assumes "metadata_copied lib"
    and "p < h_next s" and "list_addrs s (h_ProfileList s p) \<subseteq> {..<h_next s}"
    and "q < h_next s" and "profile_addrs s (h_Profile s q) \<subseteq> {..<h_next s}"
    and "r < h_next s" and "spec_addrs s (h_ProfileSpec s r) \<subseteq> {..<h_next s}" and "t < h_next s"
  shows "(\<exists>c s'. ProfileList_DeepCopyObject lib (Some p) s = (Some (ProfileListObject c), s') \<and>
      independent_copy h_ProfileList list_value list_addrs p s c s') \<and>
    (\<exists>c s'. Profile_DeepCopyObject lib (Some q) s = (Some (ProfileObject c), s') \<and>
      independent_copy h_Profile profile_value profile_addrs q s c s') \<and>
    (\<exists>c s'. ProfileSpec_DeepCopy (Some r) s = (Some c, s') \<and>
      independent_copy h_ProfileSpec spec_value spec_addrs r s c s') \<and>
    (\<exists>c s'. MatchmakingQueue_DeepCopy (Some t) s = (Some c, s') \<and>
      independent_copy h_MatchmakingQueue (\<lambda>s i. i) (\<lambda>s i. {}) t s c s') \<and>
    ProfileList_DeepCopyObject lib None s = (None, s) \<and> Profile_DeepCopyObject lib None s = (None, s)"
proof -
  have "\<exists>c s'. ProfileList_DeepCopyObject lib (Some p) s = (Some (ProfileListObject c), s') \<and>
      independent_copy h_ProfileList list_value list_addrs p s c s'"
    using typed_heap.copy_independent [OF list_heap [OF assms(1)] assms(2,3)]
    by (auto simp: ProfileList_DeepCopyObject_def ProfileList_DeepCopy_def)
  moreover have "\<exists>c s'. Profile_DeepCopyObject lib (Some q) s = (Some (ProfileObject c), s') \<and>
      independent_copy h_Profile profile_value profile_addrs q s c s'"
    using typed_heap.copy_independent [OF profile_heap [OF assms(1)] assms(4,5)]
    by (auto simp: Profile_DeepCopyObject_def Profile_DeepCopy_def)
  moreover have "\<exists>c s'. ProfileSpec_DeepCopy (Some r) s = (Some c, s') \<and>
      independent_copy h_ProfileSpec spec_value spec_addrs r s c s'"
    unfolding ProfileSpec_DeepCopy_def by (rule spec_heap.copy_independent [OF assms(6,7)])
  moreover have "\<exists>c s'. MatchmakingQueue_DeepCopy (Some t) s = (Some c, s') \<and>
      independent_copy h_MatchmakingQueue (\<lambda>s i. i) (\<lambda>s i. {}) t s c s'"
    unfolding MatchmakingQueue_DeepCopy_def by (rule queue_heap.copy_independent [OF assms(8)]) simp
  ultimately show ?thesis
    by (simp add: ProfileList_DeepCopyObject_def ProfileList_DeepCopy_def Profile_DeepCopyObject_def
        Profile_DeepCopy_def deep_copy_def)
qed

text \<open>A list of one profile, with a queue and a \<open>nil\<close> queue.\<close>

definition sample_spec_mem :: ProfileSpec_mem where
  "sample_spec_mem =
    \<lparr>sm_NatsAddress = ''nats'', sm_RedisAddress = ''redis'', sm_FrontendService = \<lparr>fes_Image = ''f''\<rparr>,
     sm_AccumulatorService = \<lparr>acs_Image = ''a''\<rparr>, sm_MatcherService = \<lparr>mas_Image = ''m''\<rparr>,
     sm_DispenserService = \<lparr>dis_Image = ''d'', dis_AssignmentTarget = ''t''\<rparr>, sm_MatchmakingQueues = Some 1\<rparr>"

definition sample_store :: "(string, string) store" where
  "sample_store =
    (let p = \<lparr>pm_TypeMeta = (''Profile'', ''v1alpha1''), pm_ObjectMeta = (''p1'', [0]), pm_Spec = sample_spec_mem, pm_Status = ()\<rparr>
     in \<lparr>h_next = 3, h_FrontendService = (\<lambda>_. \<lparr>fes_Image = []\<rparr>), h_AccumulatorService = (\<lambda>_. \<lparr>acs_Image = []\<rparr>),
         h_MatcherService = (\<lambda>_. \<lparr>mas_Image = []\<rparr>),
         h_DispenserService = (\<lambda>_. \<lparr>dis_Image = [], dis_AssignmentTarget = []\<rparr>),
         h_MatchmakingQueue = (\<lambda>_. \<lparr>mq_Name = ''a'', mq_MatchmakerTarget = ''t'', mq_MaxTickets = 0, mq_MaxDelay = 0\<rparr>),
         h_ProfileStatus = (\<lambda>_. ()), h_ProfileSpec = (\<lambda>_. sample_spec_mem), h_Profile = (\<lambda>_. p),
         h_ProfileList = (\<lambda>_. \<lparr>lm_TypeMeta = (''ProfileList'', ''v1alpha1''), lm_ListMeta = ([], []), lm_Items = Some 2\<rparr>),
         h_queues = (\<lambda>_. [Some 0, None]), h_profiles = (\<lambda>_. [p]),
         h_meta = (\<lambda>_. [''app'', ''rivalry''])\<rparr>)"

text \<open>A library that copies every map and slice of a metadata struct to a new address.\<close>

definition copy_meta :: "'x meta \<Rightarrow> ('m, 'l) store \<Rightarrow> 'x meta \<times> ('m, 'l) store" where
  "copy_meta i s = (let n = h_next s; k = length (snd i) in
     ((fst i, [n..<n + k]), s\<lparr>h_next := n + k,
        h_meta := (\<lambda>a. if n \<le> a \<and> a < n + k then h_meta s (snd i ! (a - n)) else h_meta s a)\<rparr>))"

lemma copy_meta_copied: "copy_meta i s = (i', s') \<Longrightarrow> copied meta_value meta_addrs i s i' s'"
  by (auto simp: copy_meta_def Let_def copied_def agree_def meta_value_def meta_addrs_def intro!: nth_equalityI)

definition sample_metadata :: "(string, string) metadata" where
  "sample_metadata = \<lparr>ObjectMeta_DeepCopyInto = copy_meta, ListMeta_DeepCopyInto = copy_meta,
     zero_Profile = h_Profile sample_store 0\<rparr>"

theorem deep_copy_independent_witness:
  "\<exists>c s'. ProfileList_DeepCopyObject sample_metadata (Some 0) sample_store = (Some (ProfileListObject c), s') \<and>
    independent_copy h_ProfileList list_value list_addrs 0 sample_store c s'"
proof -
  have lib: "metadata_copied sample_metadata" by (simp add: metadata_copied_def sample_metadata_def copy_meta_copied)
  have n: "(0 :: nat) < h_next sample_store" by (simp add: sample_store_def Let_def)
  have a: "spec_addrs sample_store (h_ProfileSpec sample_store 0) \<subseteq> {..<h_next sample_store}"
    "profile_addrs sample_store (h_Profile sample_store 0) \<subseteq> {..<h_next sample_store}"
    "list_addrs sample_store (h_ProfileList sample_store 0) \<subseteq> {..<h_next sample_store}"
    by (auto simp: spec_addrs_def profile_addrs_def list_addrs_def meta_addrs_def sample_store_def sample_spec_mem_def Let_def)
  from deep_copy_independent [OF lib n a(3) n a(2) n a(1) n] show ?thesis by (elim conjE)
qed

end
