(* ===== verification/Mage.thy ===== *)
theory Mage
  imports Prelude
begin

text \<open>
  The build target that writes the directives for the mocks (\<open>Magefile.go\<close>, \<open>templates/generate.template\<close>).
  The external commands (find, grep, go) and the file system are parameters, the orders of a map and of
  a set are parameters too; the functions of the standard library on strings and paths are defined here.
\<close>

section \<open>Strings and paths\<close>

text \<open>\<open>strings.Split\<close> at a character, and joining with a separator.\<close>

fun split_at :: "char \<Rightarrow> string \<Rightarrow> string list" where
  "split_at c [] = [[]]"
| "split_at c (x # xs) =
    (if x = c then [] # split_at c xs
     else (case split_at c xs of [] \<Rightarrow> [[x]] | p # ps \<Rightarrow> (x # p) # ps))"

fun join_with :: "string \<Rightarrow> string list \<Rightarrow> string" where
  "join_with sep [] = []"
| "join_with sep [x] = x"
| "join_with sep (x # y # xs) = x @ sep @ join_with sep (y # xs)"

text \<open>\<open>path.Split\<close>: the directory with its final slash, and the file.\<close>

definition path_Split :: "string \<Rightarrow> string \<times> string" where
  "path_Split p =
    (let fx = rev (takeWhile (\<lambda>c. c \<noteq> CHR ''/'') (rev p)) in (take (length p - length fx) p, fx))"

text \<open>\<open>path.Clean\<close> on the elements of a path, and \<open>path.Join\<close> of two elements.\<close>

fun clean_parts :: "bool \<Rightarrow> string list \<Rightarrow> string list \<Rightarrow> string list" where
  "clean_parts rooted st [] = rev st"
| "clean_parts rooted st (p # ps) =
    (if p = [] \<or> p = ''.'' then clean_parts rooted st ps
     else if p = ''..'' then
       (case st of
          [] \<Rightarrow> clean_parts rooted (if rooted then [] else [''..'']) ps
        | t # ts \<Rightarrow> clean_parts rooted (if t = ''..'' then ''..'' # st else ts) ps)
     else clean_parts rooted (p # st) ps)"

definition path_Clean :: "string \<Rightarrow> string" where
  "path_Clean s =
    (let rooted = (s \<noteq> [] \<and> hd s = CHR ''/'');
       body = join_with ''/'' (clean_parts rooted [] (split_at (CHR ''/'') s))
     in if rooted then CHR ''/'' # body else if body = [] then ''.'' else body)"

definition path_Join :: "string \<Rightarrow> string \<Rightarrow> string" where
  "path_Join a b = (if a = [] \<and> b = [] then [] else if a = [] then path_Clean b
     else if b = [] then path_Clean a else path_Clean (a @ ''/'' @ b))"

text \<open>
  The regular expression \<open>^(.*):type (.*) interface \{$\<close> on a line: its two groups, the first as long as
  possible.
\<close>

definition ends_with :: "string \<Rightarrow> string \<Rightarrow> bool" where
  "ends_with suf s \<longleftrightarrow> length suf \<le> length s \<and> drop (length s - length suf) s = suf"

definition match_line :: "string \<Rightarrow> (string \<times> string) option" where
  "match_line s =
    (case filter (\<lambda>k. take 6 (drop k s) = '':type '' \<and> ends_with '' interface {'' (drop (k + 6) s))
            (rev [0..<length s]) of
       [] \<Rightarrow> None
     | k # _ \<Rightarrow> (let r = drop (k + 6) s in Some (take k s, take (length r - 12) r)))"

section \<open>Packages of mocks\<close>

record MockFiles =
  mf_File :: string
  mf_Interfaces :: string

record MockPackages =
  mp_Package :: string
  mp_Files :: "MockFiles list"

text \<open>The loop of \<open>AddInterface\<close>: the files after it and \<open>found\<close>.\<close>

fun add_to_file :: "string \<Rightarrow> string \<Rightarrow> MockFiles list \<Rightarrow> MockFiles list \<times> bool" where
  "add_to_file f i [] = ([], False)"
| "add_to_file f i (fi # fis) =
    (if mf_File fi = f then (fi\<lparr>mf_Interfaces := mf_Interfaces fi @ '','' @ i\<rparr> # fis, True)
     else (case add_to_file f i fis of (fis', found) \<Rightarrow> (fi # fis', found)))"

definition AddInterface :: "MockPackages \<Rightarrow> string \<Rightarrow> string \<Rightarrow> MockPackages" where
  "AddInterface m f i =
    (case add_to_file f i (mp_Files m) of
       (files, found) \<Rightarrow>
         if found then m\<lparr>mp_Files := files\<rparr>
         else m\<lparr>mp_Files := files @ [\<lparr>mf_File = f, mf_Interfaces = i\<rparr>]\<rparr>)"

text \<open>\<open>dParts[len(dParts)-2]\<close>\<close>

definition package_name :: "string \<Rightarrow> string option" where
  "package_name d = (let dParts = split_at (CHR ''/'') d
     in if length dParts < 2 then None else Some (dParts ! (length dParts - 2)))"

definition addInterface :: "MockPackages gomap \<Rightarrow> string \<Rightarrow> string \<Rightarrow> ('w, MockPackages gomap) proc" where
  "addInterface interfaceMap f i =
    (case path_Split f of (d, fx) \<Rightarrow>
       go_bind (case fmlookup interfaceMap d of
           Some p \<Rightarrow> go_return p
         | None \<Rightarrow> (case package_name d of
             None \<Rightarrow> go_panic IndexOutOfRange
           | Some n \<Rightarrow> go_return \<lparr>mp_Package = n, mp_Files = []\<rparr>))
         (\<lambda>p. go_return (fmupd d (AddInterface p fx i) interfaceMap)))"

text \<open>The loop over the lines; \<open>reOut[0]\<close> panics where the expression does not match.\<close>

fun add_lines :: "string list \<Rightarrow> MockPackages gomap \<Rightarrow> ('w, MockPackages gomap) proc" where
  "add_lines [] interfaceMap = go_return interfaceMap"
| "add_lines (res # result) interfaceMap =
    (case match_line res of
       None \<Rightarrow> go_panic IndexOutOfRange
     | Some (f, i) \<Rightarrow> go_bind (addInterface interfaceMap f i) (add_lines result))"

section \<open>The target\<close>

record 'w mage_host =
  mage_Output :: "string \<Rightarrow> string list \<Rightarrow> 'w \<Rightarrow> (error + string) \<times> 'w"
  mage_Run :: "string \<Rightarrow> string list \<Rightarrow> 'w \<Rightarrow> error option \<times> 'w"
  mage_Create :: "string \<Rightarrow> 'w \<Rightarrow> (error + nat) \<times> 'w"
  mage_Write :: "nat \<Rightarrow> bytes \<Rightarrow> 'w \<Rightarrow> error option \<times> 'w"
  mage_Close :: "nat \<Rightarrow> 'w \<Rightarrow> 'w"
  mage_order :: "string set \<Rightarrow> string list"

text \<open>The template, executed.\<close>

definition newline :: string where
  "newline = [CHR 0x0A]"

definition generateTemplate :: "MockPackages \<Rightarrow> bytes" where
  "generateTemplate m = ''package '' @ mp_Package m @ newline @
     concat (map (\<lambda>f. newline @ ''//go:generate mockgen -package mock_pb -destination mock/'' @ mf_File f @
       '' . '' @ mf_Interfaces f @ newline) (mp_Files m)) @ newline"

definition findIName :: "'w mage_host \<Rightarrow> string \<Rightarrow> ('w, string list) proc" where
  "findIName h pattern =
    go_bind (call (mage_Output h ''find'' [''.'', ''-iname'', pattern])) (\<lambda>res.
    case res of Inl err \<Rightarrow> go_return [] | Inr out \<Rightarrow> go_return (split_at (CHR 0x0A) out))"

definition grepFiles :: "'w mage_host \<Rightarrow> string \<Rightarrow> string list \<Rightarrow> ('w, error + string list) proc" where
  "grepFiles h pattern files =
    go_bind (call (mage_Output h ''grep'' (pattern # files))) (\<lambda>res.
    case res of Inl err \<Rightarrow> go_return (Inl err) | Inr out \<Rightarrow> go_return (Inr (split_at (CHR 0x0A) out)))"

definition writeToFile :: "'w mage_host \<Rightarrow> string \<Rightarrow> bytes \<Rightarrow> ('w, error option) proc" where
  "writeToFile h file data =
    go_bind (call (mage_Create h file)) (\<lambda>res.
    case res of
      Inl err \<Rightarrow> go_return (Some err)
    | Inr f \<Rightarrow>
        go_bind (call (mage_Write h f data)) (\<lambda>err.
        go_bind (call (\<lambda>w. ((), mage_Close h f w))) (\<lambda>_. go_return err)))"

text \<open>The two loops at the end: the files of the packages, and the runs on the set of files.\<close>

fun write_files ::
  "'w mage_host \<Rightarrow> (string \<times> MockPackages) list \<Rightarrow> string set \<Rightarrow> ('w, error + string set) proc" where
  "write_files h [] files = go_return (Inr files)"
| "write_files h ((d, mf) # rest) files =
    (let f = path_Join d ''generate.go'' in
     go_bind (writeToFile h f (generateTemplate mf)) (\<lambda>err.
     case err of Some e \<Rightarrow> go_return (Inl e) | None \<Rightarrow> write_files h rest (insert f files)))"

fun run_files :: "'w mage_host \<Rightarrow> string list \<Rightarrow> ('w, error option) proc" where
  "run_files h [] = go_return None"
| "run_files h (f # fs) =
    go_bind (call (mage_Run h ''go'' [''generate'', f])) (\<lambda>err.
    case err of Some e \<Rightarrow> go_return (Some e) | None \<Rightarrow> run_files h fs)"

definition generateMocks :: "'w mage_host \<Rightarrow> ('w, error option) proc" where
  "generateMocks h =
    go_bind (findIName h ''*_grpc.pb.go'') (\<lambda>proto.
    go_bind (grepFiles h ''type .* interface {'' proto) (\<lambda>res.
    case res of
      Inl err \<Rightarrow> go_return (Some err)
    | Inr result \<Rightarrow>
        go_bind (add_lines result fmempty) (\<lambda>interfaceMap.
        go_bind (write_files h (range_map (mage_order h) interfaceMap) {}) (\<lambda>r.
        case r of Inl err \<Rightarrow> go_return (Some err) | Inr files \<Rightarrow> run_files h (mage_order h files)))))"

definition Generate :: "'w mage_host \<Rightarrow> ('w, error option) proc" where
  "Generate h = go_bind (generateMocks h) (\<lambda>err.
     case err of Some e \<Rightarrow> go_return (Some e) | None \<Rightarrow> go_return None)"

end
