(* ===== verification/Mage_Laws.thy ===== *)
theory Mage_Laws
  imports Mage Platform
begin

text \<open>
  What the build target writes: the interfaces that grep found, grouped by directory and file, in the
  order in which they were found.
\<close>

section \<open>The reference grouping\<close>

text \<open>The files of one directory with their interfaces; the entries of a directory.\<close>

definition mocks_of :: "(string \<times> string) list \<Rightarrow> MockFiles list" where
  "mocks_of es = map (\<lambda>fx. \<lparr>mf_File = fx, mf_Interfaces = join_with '','' (map snd (filter (\<lambda>e. fst e = fx) es))\<rparr>)
     (first_by id (map fst es))"

definition dir_of :: "string \<times> string \<Rightarrow> string" where
  "dir_of fi = fst (path_Split (fst fi))"

definition in_dir :: "string \<Rightarrow> (string \<times> string) list \<Rightarrow> (string \<times> string) list" where
  "in_dir d fis = map (\<lambda>fi. (snd (path_Split (fst fi)), snd fi)) (filter (\<lambda>fi. dir_of fi = d) fis)"

definition grouped :: "(string \<times> string) list \<Rightarrow> string \<Rightarrow> MockPackages option" where
  "grouped fis d = (if d \<in> dir_of ` set fis
     then Some \<lparr>mp_Package = the (package_name d), mp_Files = mocks_of (in_dir d fis)\<rparr> else None)"

lemma join_with_snoc: "join_with sep (xs @ [x]) = (if xs = [] then x else join_with sep xs @ sep @ x)"
  by (induction sep xs rule: join_with.induct) auto

lemma add_to_file_eq:
  assumes "distinct fs"
  shows "add_to_file f i (map (\<lambda>fx. \<lparr>mf_File = fx, mf_Interfaces = g fx\<rparr>) fs) =
    (map (\<lambda>fx. \<lparr>mf_File = fx, mf_Interfaces = if fx = f then g fx @ '','' @ i else g fx\<rparr>) fs, f \<in> set fs)"
  using assms by (induction fs) auto

lemma AddInterface_mocks:
  assumes "mp_Files m = mocks_of es"
  shows "AddInterface m f i = m\<lparr>mp_Files := mocks_of (es @ [(f, i)])\<rparr>"
proof -
  let ?fs = "first_by id (map fst es)" and ?of = "\<lambda>es fx. map snd (filter (\<lambda>e. fst e = fx) es)"
  have dist: "distinct ?fs" using first_by_distinct [of id "map fst es"] by simp
  have set: "set ?fs = fst ` set es" using first_by_keys [of id "map fst es"] by simp
  have ne: "fx \<in> fst ` set es \<Longrightarrow> ?of es fx \<noteq> []" for fx by (auto simp: filter_empty_conv)
  show ?thesis
  proof (cases "f \<in> fst ` set es")
    case True
    with ne [OF True] have "mocks_of (es @ [(f, i)]) =
        map (\<lambda>fx. \<lparr>mf_File = fx, mf_Interfaces = if fx = f then join_with '','' (?of es fx) @ '','' @ i
          else join_with '','' (?of es fx)\<rparr>) ?fs"
      by (auto simp: mocks_of_def first_by_snoc join_with_snoc)
    with True set show ?thesis
      unfolding AddInterface_def assms mocks_of_def [of es] add_to_file_eq [OF dist] by simp
  next
    case False
    then have "filter (\<lambda>e. fst e = f) es = []" by (force simp: filter_empty_conv)
    with False set have "mocks_of (es @ [(f, i)]) = mocks_of es @ [\<lparr>mf_File = f, mf_Interfaces = i\<rparr>]"
      by (auto simp: mocks_of_def first_by_snoc)
    moreover have "map (\<lambda>fx. \<lparr>mf_File = fx, mf_Interfaces = if fx = f then join_with '','' (?of es fx) @ '','' @ i
        else join_with '','' (?of es fx)\<rparr>) ?fs = mocks_of es"
      using False set by (auto simp: mocks_of_def)
    ultimately show ?thesis using False set
      unfolding AddInterface_def assms mocks_of_def [of es] add_to_file_eq [OF dist] by (simp add: mocks_of_def [of es])
  qed
qed

lemma addInterface_grouped:
  assumes "fmlookup m = grouped fis" and "package_name (dir_of (f, i)) \<noteq> None"
  shows "\<exists>m'. addInterface m f i w = (Ret m', w) \<and> fmlookup m' = grouped (fis @ [(f, i)])"
proof -
  let ?d = "dir_of (f, i)"
  obtain d fx where s: "path_Split f = (d, fx)" by force
  then have d: "d = ?d" by (simp add: dir_of_def)
  let ?p = "\<lparr>mp_Package = the (package_name d), mp_Files = mocks_of (in_dir d fis)\<rparr>"
  have "d \<notin> dir_of ` set fis \<Longrightarrow> in_dir d fis = []" by (force simp: in_dir_def filter_empty_conv)
  then have start: "d \<notin> dir_of ` set fis \<Longrightarrow> \<lparr>mp_Package = the (package_name d), mp_Files = []\<rparr> = ?p"
    by (simp add: mocks_of_def)
  have "addInterface m f i w = (Ret (fmupd d (AddInterface ?p fx i) m), w)"
    using assms start d by (auto simp: addInterface_def s grouped_def)
  moreover have "AddInterface ?p fx i = \<lparr>mp_Package = the (package_name d), mp_Files = mocks_of (in_dir d (fis @ [(f, i)]))\<rparr>"
    using AddInterface_mocks [of ?p "in_dir d fis" fx i] d by (simp add: in_dir_def s)
  moreover have "in_dir d' (fis @ [(f, i)]) = in_dir d' fis" if "d' \<noteq> d" for d' using that d by (simp add: in_dir_def)
  ultimately show ?thesis using assms(1) d
    by (intro exI [of _ "fmupd d (AddInterface ?p fx i) m"]) (auto simp: fun_eq_iff grouped_def)
qed

text \<open>A line that names an interface in a file of a directory.\<close>

definition interface_line :: "string \<Rightarrow> bool" where
  "interface_line l \<longleftrightarrow> (case match_line l of None \<Rightarrow> False | Some fi \<Rightarrow> package_name (dir_of fi) \<noteq> None)"

lemma add_lines_grouped:
  assumes "list_all interface_line ls" and "fmlookup m = grouped fis"
  shows "\<exists>m'. add_lines ls m w = (Ret m', w) \<and> fmlookup m' = grouped (fis @ map (the \<circ> match_line) ls)"
  using assms
proof (induction ls arbitrary: m fis)
  case (Cons l ls)
  from Cons.prems(1) obtain f i where l: "match_line l = Some (f, i)" "package_name (dir_of (f, i)) \<noteq> None"
    by (auto simp: interface_line_def split: option.splits)
  from addInterface_grouped [OF Cons.prems(2) l(2), of w] obtain m1 where
    m1: "addInterface m f i w = (Ret m1, w)" "fmlookup m1 = grouped (fis @ [(f, i)])"
    by (elim exE conjE) (rule that, assumption+)
  from Cons.prems(1) have "list_all interface_line ls" by simp
  from Cons.IH [OF this m1(2)] obtain m2 where
    m2: "add_lines ls m1 w = (Ret m2, w)" "fmlookup m2 = grouped ((fis @ [(f, i)]) @ map (the \<circ> match_line) ls)"
    by (elim exE conjE) (rule that, assumption+)
  have "add_lines (l # ls) m w = (Ret m2, w)" by (simp add: l(1) go_bind_def m1(1) m2(1))
  with m2(2) show ?case by (intro exI [of _ m2]) (simp add: l(1) comp_def)
qed simp

text \<open>A line that is no declaration at its beginning, or comes without the name of its file, ends the program.\<close>

lemma add_lines_panic:
  assumes "list_all interface_line ls" and "match_line l = None" and "fmlookup m = grouped fis"
  shows "add_lines (ls @ l # rest) m w = (Panic IndexOutOfRange, w)"
  using assms
proof (induction ls arbitrary: m fis)
  case (Cons k ls)
  from Cons.prems(1) obtain f i where k: "match_line k = Some (f, i)" "package_name (dir_of (f, i)) \<noteq> None"
    by (auto simp: interface_line_def split: option.splits)
  from addInterface_grouped [OF Cons.prems(3) k(2), of w] obtain m1 where
    m1: "addInterface m f i w = (Ret m1, w)" "fmlookup m1 = grouped (fis @ [(f, i)])"
    by (elim exE conjE) (rule that, assumption+)
  from Cons.prems(1) have "list_all interface_line ls" by simp
  from Cons.IH [OF this Cons.prems(2) m1(2)] have "add_lines (ls @ l # rest) m1 w = (Panic IndexOutOfRange, w)" .
  then show ?case by (simp add: k(1) go_bind_def m1(1))
qed simp

section \<open>A disk that works\<close>

text \<open>
  What is relied on of the file system and of \<open>go generate\<close> when nothing fails: \<open>files\<close> are the contents,
  \<open>target\<close> is the path of a descriptor, \<open>executed\<close> the commands that were run, which do not write the files with
  the directives.
\<close>

abbreviation directives :: "string \<Rightarrow> string" where
  "directives d \<equiv> path_Join d ''generate.go''"

locale working_disk =
  fixes h :: "'w mage_host" and files :: "'w \<Rightarrow> string \<Rightarrow> bytes option"
    and target :: "'w \<Rightarrow> nat \<Rightarrow> string" and executed :: "'w \<Rightarrow> string list list"
  assumes creates: "\<exists>fd w'. mage_Create h f w = (Inr fd, w') \<and> files w' = (files w)(f \<mapsto> []) \<and>
      target w' fd = f \<and> executed w' = executed w"
    and writes: "\<exists>w'. mage_Write h fd data w = (None, w') \<and>
      files w' = (files w)(target w fd \<mapsto> the (files w (target w fd)) @ data) \<and> executed w' = executed w"
    and closes: "files (mage_Close h fd w) = files w" "executed (mage_Close h fd w) = executed w"
    and runs: "\<exists>w'. mage_Run h c args w = (None, w') \<and> executed w' = executed w @ [c # args] \<and>
      (\<forall>d. files w' (directives d) = files w (directives d))"
    and order: "enumerates (mage_order h)"
begin

lemma writeToFile_works:
  "\<exists>w'. writeToFile h f data w = (Ret None, w') \<and> files w' = (files w)(f \<mapsto> data) \<and> executed w' = executed w"
proof -
  obtain fd w1 where w1: "mage_Create h f w = (Inr fd, w1)" "files w1 = (files w)(f \<mapsto> [])" "target w1 fd = f"
    "executed w1 = executed w" using creates by blast
  obtain w2 where w2: "mage_Write h fd data w1 = (None, w2)"
    "files w2 = (files w1)(target w1 fd \<mapsto> the (files w1 (target w1 fd)) @ data)" "executed w2 = executed w1" using writes by blast
  with w1 show ?thesis by (simp add: writeToFile_def go_bind_call closes)
qed

lemma write_files_works:
  assumes "distinct (map (directives \<circ> fst) ps)"
  shows "\<exists>w'. write_files h ps fs w = (Ret (Inr (fs \<union> (directives \<circ> fst) ` set ps)), w') \<and>
    (\<forall>(d, p) \<in> set ps. files w' (directives d) = Some (generateTemplate p)) \<and>
    (\<forall>f. f \<notin> (directives \<circ> fst) ` set ps \<longrightarrow> files w' f = files w f) \<and> executed w' = executed w"
  using assms
proof (induction ps arbitrary: fs w)
  case (Cons dp ps)
  obtain d p where dp: "dp = (d, p)" by force
  let ?f = "directives d"
  from writeToFile_works obtain w1 where w1: "writeToFile h ?f (generateTemplate p) w = (Ret None, w1)"
    "files w1 = (files w)(?f \<mapsto> generateTemplate p)" "executed w1 = executed w" by blast
  from Cons.prems have new: "?f \<notin> (directives \<circ> fst) ` set ps" "distinct (map (directives \<circ> fst) ps)"
    by (simp_all add: dp comp_def)
  from Cons.IH [OF new(2), of "insert ?f fs" w1] obtain w2 where
    w2: "write_files h ps (insert ?f fs) w1 = (Ret (Inr (insert ?f fs \<union> (directives \<circ> fst) ` set ps)), w2)"
      "\<forall>(d, p) \<in> set ps. files w2 (directives d) = Some (generateTemplate p)"
      "\<forall>f. f \<notin> (directives \<circ> fst) ` set ps \<longrightarrow> files w2 f = files w1 f" "executed w2 = executed w1" by blast
  from w1(1) w2(1) have "write_files h (dp # ps) fs w = (Ret (Inr (fs \<union> (directives \<circ> fst) ` set (dp # ps))), w2)"
    by (simp add: dp Let_def go_bind_def)
  moreover have "files w2 ?f = Some (generateTemplate p)" using w2(3) new(1) w1(2) by simp
  ultimately show ?case using w1 w2(2,3,4) by (intro exI [of _ w2]) (auto simp: dp)
qed simp

lemma run_files_works:
  "\<exists>w'. run_files h fs w = (Ret None, w') \<and> executed w' = executed w @ map (\<lambda>f. [''go'', ''generate'', f]) fs \<and>
    (\<forall>d. files w' (directives d) = files w (directives d))"
proof (induction fs arbitrary: w)
  case (Cons f fs)
  from runs obtain w1 where w1: "mage_Run h ''go'' [''generate'', f] w = (None, w1)"
    "executed w1 = executed w @ [[''go'', ''generate'', f]]" "\<forall>d. files w1 (directives d) = files w (directives d)" by blast
  with Cons.IH [of w1] show ?case by (auto simp: go_bind_call)
qed simp

lemma generate_works:
  assumes found: "mage_Output h ''find'' [''.'', ''-iname'', ''*_grpc.pb.go''] w = (Inr out, w1)"
    and grep: "mage_Output h ''grep'' (''type .* interface {'' # split_at (CHR 0x0A) out) w1 = (Inr out2, w2)"
    and lines: "list_all interface_line (split_at (CHR 0x0A) out2)"
    and fis: "fis = map (the \<circ> match_line) (split_at (CHR 0x0A) out2)"
    and inj: "inj_on directives (dir_of ` set fis)"
  shows "\<exists>w' fs. Generate h w = (Ret None, w') \<and>
    (\<forall>d \<in> dir_of ` set fis. files w' (directives d) = Some (generateTemplate (the (grouped fis d)))) \<and>
    distinct fs \<and> set fs = directives ` dir_of ` set fis \<and>
    executed w' = executed w2 @ map (\<lambda>f. [''go'', ''generate'', f]) fs"
proof -
  have "fmlookup fmempty = grouped []" by (simp add: grouped_def fun_eq_iff)
  from add_lines_grouped [OF lines this, of w2] obtain m where
    m: "add_lines (split_at (CHR 0x0A) out2) fmempty w2 = (Ret m, w2)" "fmlookup m = grouped fis"
    by (auto simp: fis)
  have dom: "fmdom' m = dir_of ` set fis" using m(2) by (auto simp: fmlookup_dom'_iff grouped_def split: if_splits)
  let ?ps = "range_map (mage_order h) m"
  have keys: "map fst ?ps = mage_order h (fmdom' m)" by simp
  have dist: "distinct (map fst ?ps)" using order by simp
  have "set (map fst ?ps) = dir_of ` set fis" unfolding keys using order by (simp add: dom [symmetric])
  then have set: "fst ` set ?ps = dir_of ` set fis" by (simp only: set_map)
  have "distinct (map (directives \<circ> fst) ?ps)"
    unfolding map_map [symmetric] by (subst distinct_map) (use dist inj set in \<open>simp only: set_map simp_thms\<close>)
  note write_files_works [OF this, of "{}" w2]
  moreover have "{} \<union> (directives \<circ> fst) ` set ?ps = directives ` dir_of ` set fis"
    unfolding image_comp [symmetric] set by simp
  ultimately obtain w3 where
    w3: "write_files h ?ps {} w2 = (Ret (Inr (directives ` dir_of ` set fis)), w3)"
      "\<forall>(d, p) \<in> set ?ps. files w3 (directives d) = Some (generateTemplate p)" "executed w3 = executed w2"
    by auto
  let ?fs = "mage_order h (directives ` dir_of ` set fis)"
  from run_files_works [of ?fs w3] obtain w4 where
    w4: "run_files h ?fs w3 = (Ret None, w4)" "executed w4 = executed w3 @ map (\<lambda>f. [''go'', ''generate'', f]) ?fs"
      "\<forall>d. files w4 (directives d) = files w3 (directives d)" by blast
  have "Generate h w = (Ret None, w4)"
    using found grep m(1) w3(1) w4(1)
    by (simp add: Generate_def generateMocks_def findIName_def grepFiles_def go_bind_def call_def)
  moreover have "files w4 (directives d) = Some (generateTemplate (the (grouped fis d)))" if "d \<in> dir_of ` set fis" for d
  proof -
    from that have "fmlookup m d = Some (the (grouped fis d))" by (simp add: m(2) grouped_def)
    with order have "(d, the (grouped fis d)) \<in> set ?ps" by (simp add: set_range_map)
    with w3(2) w4(3) show ?thesis by auto
  qed
  ultimately show ?thesis using order w3(3) w4(2) by (intro exI [of _ w4] exI [of _ ?fs]) simp
qed

end

section \<open>Properties\<close>

text \<open>A disk in memory, with the answers of find and grep.\<close>

record mem_disk =
  md_files :: "string \<Rightarrow> bytes option"
  md_fds :: "string list"
  md_ran :: "string list list"

definition sorted_keys :: "string set \<Rightarrow> string list" where
  "sorted_keys = rt_order mem_runtime world0"

definition mem_mage :: "string \<Rightarrow> string \<Rightarrow> mem_disk mage_host" where
  "mem_mage found lines =
    \<lparr>mage_Output = (\<lambda>c args w. (Inr (if c = ''find'' then found else lines), w)),
     mage_Run = (\<lambda>c args w. (None, w\<lparr>md_ran := md_ran w @ [c # args]\<rparr>)),
     mage_Create = (\<lambda>f w. (Inr (length (md_fds w)), w\<lparr>md_files := (md_files w)(f \<mapsto> []), md_fds := md_fds w @ [f]\<rparr>)),
     mage_Write = (\<lambda>fd data w. (None, w\<lparr>md_files := (md_files w)(md_fds w ! fd \<mapsto> the (md_files w (md_fds w ! fd)) @ data)\<rparr>)),
     mage_Close = (\<lambda>fd w. w), mage_order = sorted_keys\<rparr>"

interpretation mem_mage: working_disk "mem_mage found lines" md_files "\<lambda>w fd. md_fds w ! fd" md_ran
proof -
  have "enumerates sorted_keys" unfolding sorted_keys_def by (rule mem_runtime.order)
  then show "working_disk (mem_mage found lines) md_files (\<lambda>w fd. md_fds w ! fd) md_ran"
    by unfold_locales (simp_all add: mem_mage_def)
qed

text \<open>C24: The build target groups the interfaces. On a disk that works, when every line that grep finds is a
  declaration with the name of its file, and different directories give different names of the file to write
  (as the paths that find prints do), the target ends without error; for every directory it has
  written one file with the directives, which is the template over the reference grouping: the
  files of the directory in the order in which they were found, each with its interfaces in their
  order; and it has run go generate exactly once on each of these files.\<close>

theorem generate_groups:
  assumes "working_disk h files target executed"
    and "mage_Output h ''find'' [''.'', ''-iname'', ''*_grpc.pb.go''] w = (Inr out, w1)"
    and "mage_Output h ''grep'' (''type .* interface {'' # split_at (CHR 0x0A) out) w1 = (Inr out2, w2)"
    and "list_all interface_line (split_at (CHR 0x0A) out2)"
    and "fis = map (the \<circ> match_line) (split_at (CHR 0x0A) out2)"
    and "inj_on (\<lambda>d. path_Join d ''generate.go'') (dir_of ` set fis)"
  shows "\<exists>w' fs. Generate h w = (Ret None, w') \<and>
    (\<forall>d \<in> dir_of ` set fis. files w' (path_Join d ''generate.go'') =
      Some (generateTemplate \<lparr>mp_Package = the (package_name d), mp_Files = mocks_of (in_dir d fis)\<rparr>)) \<and>
    distinct fs \<and> set fs = (\<lambda>d. path_Join d ''generate.go'') ` dir_of ` set fis \<and>
    executed w' = executed w2 @ map (\<lambda>f. [''go'', ''generate'', f]) fs"
proof -
  have "Some (generateTemplate (the (grouped fis d))) =
      Some (generateTemplate \<lparr>mp_Package = the (package_name d), mp_Files = mocks_of (in_dir d fis)\<rparr>)"
    if "d \<in> dir_of ` set fis" for d using that by (simp add: grouped_def)
  with working_disk.generate_works [OF assms] show ?thesis by (simp cong: ball_cong)
qed

text \<open>Two interfaces of one file and one of another.\<close>

definition sample_lines :: string where
  "sample_lines = join_with newline
    [''./pb/v1/match_grpc.pb.go:type MakerClient interface {'', ''./pb/v1/match_grpc.pb.go:type MakerServer interface {'',
     ''./pb/v1/ext_grpc.pb.go:type Rivalry interface {'']"

definition sample_fis :: "(string \<times> string) list" where
  "sample_fis = [(''./pb/v1/match_grpc.pb.go'', ''MakerClient''), (''./pb/v1/match_grpc.pb.go'', ''MakerServer''),
    (''./pb/v1/ext_grpc.pb.go'', ''Rivalry'')]"

lemma sample_lines_match: "map match_line (split_at (CHR 0x0A) sample_lines) = map Some sample_fis"
  by code_simp

theorem generate_groups_witness:
  "\<exists>w'. Generate (mem_mage [] sample_lines) \<lparr>md_files = (\<lambda>_. None), md_fds = [], md_ran = []\<rparr> = (Ret None, w') \<and>
    md_files w' ''pb/v1/generate.go'' = Some (''package v1'' @ newline @ newline @
      ''//go:generate mockgen -package mock_pb -destination mock/match_grpc.pb.go . MakerClient,MakerServer'' @ newline @ newline @
      ''//go:generate mockgen -package mock_pb -destination mock/ext_grpc.pb.go . Rivalry'' @ newline @ newline)"
proof -
  let ?h = "mem_mage [] sample_lines" and ?w = "\<lparr>md_files = (\<lambda>_. None), md_fds = [], md_ran = []\<rparr>"
  let ?ls = "split_at (CHR 0x0A) sample_lines"
  have out: "mage_Output ?h c args w = (Inr (if c = ''find'' then [] else sample_lines), w)" for c args w
    by (simp add: mem_mage_def)
  have "map the (map match_line ?ls) = sample_fis" unfolding sample_lines_match by simp
  then have fis: "sample_fis = map (the \<circ> match_line) ?ls" by simp
  have dirs: "dir_of ` set sample_fis = {''./pb/v1/''}" by code_simp
  have "list_all (\<lambda>r. case r of None \<Rightarrow> False | Some fi \<Rightarrow> package_name (dir_of fi) \<noteq> None) (map Some sample_fis)"
    by code_simp
  then have lines: "list_all interface_line ?ls"
    unfolding sample_lines_match [symmetric] by (simp add: list_all_iff interface_line_def)
  have inj: "inj_on (\<lambda>d. path_Join d ''generate.go'') (dir_of ` set sample_fis)" unfolding dirs by simp
  have content: "path_Join ''./pb/v1/'' ''generate.go'' = ''pb/v1/generate.go''"
    "generateTemplate \<lparr>mp_Package = the (package_name ''./pb/v1/''), mp_Files = mocks_of (in_dir ''./pb/v1/'' sample_fis)\<rparr> =
      ''package v1'' @ newline @ newline @
      ''//go:generate mockgen -package mock_pb -destination mock/match_grpc.pb.go . MakerClient,MakerServer'' @ newline @ newline @
      ''//go:generate mockgen -package mock_pb -destination mock/ext_grpc.pb.go . Rivalry'' @ newline @ newline"
    by code_simp+
  have o1: "mage_Output ?h ''find'' [''.'', ''-iname'', ''*_grpc.pb.go''] ?w = (Inr [], ?w)" by (simp add: out)
  have o2: "mage_Output ?h ''grep'' (''type .* interface {'' # split_at (CHR 0x0A) []) ?w = (Inr sample_lines, ?w)"
    by (simp add: out)
  from generate_groups [OF mem_mage.working_disk_axioms o1 o2 lines fis inj] show ?thesis
    unfolding dirs content(2) [symmetric] content(1) [symmetric] by blast
qed

end
