(* ===== verification/Spec2Isabelle.thy ===== *)
theory Spec2Isabelle
  imports Ticket_Properties Backend_Properties Frontend_Properties Client_Properties Remote
    Operator_Properties System EndToEnd Dlm Launch Suite Mains OperatorMain DeepCopy_Laws Mage_Laws
begin

text \<open>
  A verification development of Rivalry, a matchmaker for online games written in Go.

  \<^bold>\<open>The program.\<close> A player's client calls \<open>Match\<close> on the frontend with a request (a ticket). The
  frontend stores the ticket and announces it on the stream of its matchmaking queue. The accumulator
  of the queue collects announcements into batches, and publishes a batch when it is full or when its
  ticker fires. The matcher of the queue reads a batch, asks the custom matchmaker of the operator for
  matches, creates them, and announces again the tickets that were left. Creating a match links its
  tickets to it atomically, stores it and announces it. The dispenser reads the announcement, asks the
  custom assignment service for a game server, and writes the server into the tickets, whose
  subscribers are told. The frontend, which waits for that, sends the server to the client.

  \<^bold>\<open>How it is modelled.\<close> A Go function is a definition of type \<open>('w, 'a) proc\<close>: it takes a world and
  returns a result and the world after it. The result is \<open>Ret\<close>, \<open>Panic\<close> or \<open>Blocked\<close>; errors are values
  of the type \<open>error\<close>; a pointer is an option that \<open>deref\<close> opens; a struct is a record; a 64 bit integer
  is a word. What is not in the repository (the commands of Redis, the NATS connection, the retry loop, the
  iteration order of maps, the scheduling of goroutines, ids, the clock, contexts, the protobuf codec, gRPC,
  the client of Kubernetes, controller-runtime, redsync, cobra, k6) is a parameter, and the locales \<open>go_runtime\<close>,
  \<open>retry_library\<close>, \<open>redis_client\<close>, \<open>nats_connection\<close>, \<open>kube_api\<close>, \<open>redsync_library\<close>, \<open>flag_library\<close>,
  \<open>grpc_stream_server\<close> and \<open>grpc_unary_server\<close> state its documented behaviour, failed commands and lost replies included. What other processes do while a process waits is an
  argument: events and steps on the world.

  \<^bold>\<open>The theories, in the order of the layers.\<close>
  \<^item> \<open>Prelude\<close>: results, binding, loops, maps and the error type, with the simplification rules.
  \<^item> \<open>Messages\<close> (\<open>pkg/pb\<close>), \<open>Backoff\<close> (\<open>internal/backoff\<close>), \<open>Runtime\<close>: the message structs, retries, and the
    record of the runtime with its contract.
  \<^item> \<open>KV\<close>, \<open>KV_Laws\<close> (\<open>internal/db/kv\<close>): the store interface, its Redis implementation, the contract
    \<open>kv_store\<close> over tables, and the proof that the implementation meets it.
  \<^item> \<open>Streams\<close> (\<open>internal/db/stream\<close>, \<open>internal/db/pubsub\<close>): the messaging interfaces, their
    implementations, the contracts over the log of published messages, and the same proof.
  \<^item> \<open>Tickets\<close> with \<open>Tickets_Laws\<close>, \<open>Tickets_Methods\<close>, \<open>Tickets_Requeue\<close>, \<open>Tickets_States\<close>
    (\<open>internal/managers/tickets\<close>): every method of the ticket manager; what each does to the tables and
    the log on every branch; the invariants of the stored tickets and of the links.
  \<^item> \<open>Matches\<close>, \<open>Matches_Laws\<close> (\<open>internal/managers/matches\<close>): the match manager with the deferred
    rollbacks of \<open>CreateMatch\<close>.
  \<^item> \<open>CustomLogic\<close> (\<open>internal/managers/customlogic\<close>), \<open>Accumulator\<close>, \<open>Matcher\<close>, \<open>Dispenser\<close> with their laws
    (\<open>internal/app/backend\<close>), \<open>Frontend\<close>, \<open>Frontend_Laws\<close> (\<open>internal/app/frontend\<close>): the services over
    the managers. The accumulator is a state with steps (a delivery, a tick, a forwarding goroutine).
  \<^item> \<open>Deployment\<close>: the composition that the commands build, proved to be an environment of the
    managers from the contracts of the libraries alone.
  \<^item> \<open>Operator\<close>, \<open>Operator_Laws\<close> (\<open>cmd/operator\<close>): the reconciler of profiles; \<open>OperatorMain\<close>: its registration
    and start; \<open>DeepCopy\<close>, \<open>DeepCopy_Laws\<close>: the copies of its types, over a store with addresses.
  \<^item> \<open>Pairs\<close>, \<open>Pairs_Laws\<close> (\<open>examples\<close>): the example matchmaker and assignment service, the matcher over the
    example matchmaker, and the way from a match to its server.
  \<^item> \<open>Pipeline\<close>: the stages put together: the announcement of a request and the accumulator, the batch
    of an accumulator and the matcher.
  \<^item> \<open>System\<close>: the whole program as a state machine over the store and the messages: a step is a service
    that handles something, or a single call of a manager; the invariant that a ticket is in at most one
    announced match is kept by every step.
  \<^item> \<open>EndToEnd\<close>: one run of the whole path, from the requests of two players to their game server, and the
    same run seen by a player who waits in a call of the frontend.
  \<^item> \<open>Dlm\<close> (\<open>internal/dlm\<close>): the lock manager.
  \<^item> \<open>Commands\<close>, \<open>Commands_Properties\<close> (\<open>cmd/*/cmd/root.go\<close>): how the processes are put together, and \<open>Stop\<close>.
  \<^item> \<open>Flags\<close>: arguments and the flags they set. \<open>Launch\<close>: the arguments that the operator writes, read by the
    flags that the commands declare: from a profile to the waiting processes.
  \<^item> \<open>Examples\<close> (\<open>examples/*/cmd\<close>): the commands of the example services. \<open>Clients\<close> (\<open>cmd/frontend-cli\<close>,
    \<open>xk6\<close>): the two clients of the frontend. \<open>Mains\<close>: the commands as \<open>NewRootCmd\<close> makes them, \<open>Execute\<close> and
    the \<open>main\<close> functions. \<open>SystemTests\<close> (\<open>systemtests/setup.go\<close>): how the tests start and stop the program, and
    their players. \<open>Suite\<close> (\<open>systemtests/simple_endtoend_test.go\<close>): the set up and the two tests.
  \<^item> \<open>Stubs\<close>, \<open>Stubs_Laws\<close> (\<open>pkg/pb/api/v1/*_grpc.pb.go\<close>): the client methods, handlers and descriptions of the
    three gRPC services, the contract of a connection that delivers, and what a client receives on it.
  \<^item> \<open>Remote\<close>: the way of a player at the command line, over gRPC, through the whole program.
  \<^item> \<open>Mage\<close>, \<open>Mage_Laws\<close> (\<open>Magefile.go\<close>): the build target that writes the directives for the mocks.
  \<^item> \<open>Codec\<close>, \<open>Platform\<close>: a platform in memory that meets all the contracts, with a choice of the commands
    that fail. It models nothing of the repository; the concrete runs take place on it.
  \<^item> \<open>Ticket_Properties\<close>, \<open>Backend_Properties\<close>, \<open>Frontend_Properties\<close>, \<open>Client_Properties\<close>,
    \<open>Operator_Properties\<close> and this theory: the properties, each with a run on which it applies.

  \<^bold>\<open>What is shown.\<close> The program: in every run of its services, whatever fails, two announced matches share
  no ticket, provided that the custom matchmakers propose new ids. Storage and messages: the Redis store refines the abstract tables, the NATS clients
  extend the log exactly when they report no error. Tickets: what a creation, an assignment and a
  requeue do, whatever fails; a stored ticket stays well formed; a ticket is linked to at most one
  match until it is released. Matches: a creation takes all its tickets or none, and rolls back.
  Accumulator: batches partition what was delivered, without duplicates and within the limit, and a tick
  flushes. Matcher: with a store and a stream that do not fail no ticket of a batch is lost (when they fail, tickets
  of the batch may be dropped), it returns on sane proposals and panics on overlapping ones, and over the example
  matchmaker it always returns; the round trip times of its matches stay within the reported ones. Stage by
  stage, on clients that answer: a created request reaches a batch, a published batch reaches the matcher, a created
  match reaches its server. Dispenser: on clients that answer, the server of a match reaches all its tickets, and a
  match without a server is requeued. Frontend: on clients that answer a call is answered, but an
  assignment between the check and the subscription is missed. Operator: it only adds objects, reaches the
  profile on a cluster that answers, and never updates; the arguments it writes are the flags of the
  commands, and the processes it launches wait on the topics of their queues; a deep copy shares no memory
  with its original. Commands: each process waits on its topic through the composition of \<open>Deployment\<close>;
  \<open>Stop\<close> returns once \<open>RunE\<close> has. From end to end, on clients that answer: two players whose requests are stored meet in one
  match and both get its server, and the call of a player who waits is answered with it; so is a player
  who asks from the command line over gRPC. The hypothesis that a client answers is in each statement by its name
  (\<open>store_reliable\<close>, \<open>reads_reliable\<close>, \<open>stream_reliable\<close>, \<open>pubsub_reliable\<close>). Stubs: over a connection that delivers, the generated clients of
  the example services behave as the services themselves. Clients: the command line prints every response and always ends with
  an error; the load test client returns the first answer. System tests: their arguments put the
  program together; a test that passes has seen both players on one server; their tear-down leaves the
  matcher running. Build: the interfaces that grep finds are
  grouped as the reference groups them.

  \<^bold>\<open>Bounds.\<close> No fuel is used: every loop of the code is structural on its data. The retry loop is a parameter
  with the relation \<open>retry_run\<close>, which bounds nothing: the properties hold for any number of attempts.
  A wait that its events do not end is \<open>Blocked\<close>.

  \<^bold>\<open>Granularity.\<close> A call of a manager or of a service is one step: inside of it no other process acts, except at the
  points where the code waits and where the model has an argument for what happens there (the gap of a
  subscription, the events of a wait). In \<open>System\<close> processes interleave between calls, not inside of them.
  In \<open>Suite\<close> a goroutine of a player runs as a whole; \<open>players_interleave\<close> shows that no interleaving of its steps with
  those of the other player gives another result. In \<open>DeepCopy\<close> the metadata of a Kubernetes object refers to maps and
  slices in a heap of their own; that the copy function of the library copies them to new memory is a hypothesis.

  \<^bold>\<open>Not modelled.\<close> Logging; timing (expiry of keys and locks, the moment of a tick, the lengths of sleeps). Of the
  generated code: the mocks, which only the unit tests use, and for the messages the bookkeeping fields,
  descriptors, reflection and the accessors, which nothing in the program calls; call options of gRPC. The
  unit tests and the integration tests of the operator, which drive parts that are modelled. \<open>tools.go\<close>, which
  has imports only. Of the code that is left in the implementation files, what the definitions do not
  cover is comments, imports, texts of help messages and blank lines.
\<close>

section \<open>The example matchmaker\<close>

interpretation mem_pairs: pairs_runtime mem_runtime "\<lambda>w. (mem_tables w, w_log w, w_out w)"
  by (rule matches_env.pairs_runtime_here [OF mem_matches_env])

text \<open>C31: The example matchmaker proposes pairs: for submissions that each have a player, it sends one
  match for the first and second, one for the third and fourth and so on, with their tickets and
  first players in order, then the end of the stream; an odd last submission is left out.\<close>

theorem pairs_proposals:
  assumes "pairs_runtime rt view" and "\<forall>sub \<in> set (mmreq_Submissions req). sub_Members sub \<noteq> []"
  shows "\<exists>w' ms. pairs_client rt ctx req w = (Inr (eof_stream ms), w') \<and> view w' = view w \<and>
    proposes (mmreq_Submissions req) ms"
  by (rule pairs_runtime.pairs_client_spec [OF assms])

definition sample_submission :: "string \<Rightarrow> api_Submission" where
  "sample_submission i = SubmissionFromDBRequest (stored_request i)"

theorem pairs_proposals_witness:
  "\<exists>w' ms. pairs_client mem_runtime 0 \<lparr>mmreq_Submissions = map sample_submission [''t1'', ''t2'', ''t3'']\<rparr> world0 =
      (Inr (eof_stream ms), w') \<and> map match_MatchRequestIds ms = [[''t1'', ''t2'']]"
proof -
  let ?subs = "map sample_submission [''t1'', ''t2'', ''t3'']"
  have "\<forall>sub \<in> set ?subs. sub_Members sub \<noteq> []" "map sub_Id ?subs = [''t1'', ''t2'', ''t3'']"
    by code_simp+
  with pairs_proposals [OF mem_pairs.pairs_runtime_axioms, of "\<lparr>mmreq_Submissions = ?subs\<rparr>" 0 world0]
  obtain w' ms where "pairs_client mem_runtime 0 \<lparr>mmreq_Submissions = ?subs\<rparr> world0 = (Inr (eof_stream ms), w')"
    "proposes ?subs ms" by auto
  note run = this
  from run(2) \<open>map sub_Id ?subs = [''t1'', ''t2'', ''t3'']\<close>
  have "map match_MatchRequestIds ms = [[''t1'', ''t2'']]" by (simp add: proposes_def)
  with run(1) show ?thesis by (intro exI conjI)
qed

text \<open>C32: The round trip times of a proposed match stay within the ones that the players reported: when all
  reports of a batch lie between two bounds from 0 to below \<open>2 ^ 62\<close>, so does every averaged time of every
  match that the example matchmaker proposes, in 64 bit arithmetic. The upper limit is needed: two
  reports of \<open>2 ^ 62\<close> are averaged to a negative time.\<close>

theorem proposed_rtts_bounds:
  assumes "\<forall>w. enumerates (rt_order rt w)" and "0 \<le> lo" and "hi < 2 ^ 62"
    and "\<forall>sub \<in> set (mmreq_Submissions req). \<forall>r \<in> set (sub_Rtts sub).
      lo \<le> sint (rtt_Milliseconds r) \<and> sint (rtt_Milliseconds r) \<le> hi"
    and "pairs_client rt ctx req w = (Inr rs, w')"
  shows "(\<forall>resp mt r. RecvResponse resp \<in> set rs \<longrightarrow> mmresp_Match resp = Some mt \<longrightarrow> r \<in> set (match_Rtts mt) \<longrightarrow>
      lo \<le> sint (rtt_Milliseconds r) \<and> sint (rtt_Milliseconds r) \<le> hi) \<and>
    (\<exists>v. fmlookup (fold add_rtt [\<lparr>rtt_Host = ''h'', rtt_Milliseconds = 2 ^ 62\<rparr>, \<lparr>rtt_Host = ''h'', rtt_Milliseconds = 2 ^ 62\<rparr>]
      fmempty) ''h'' = Some v \<and> sint v = - (2 ^ 62))"
  using pairs_client_in [OF assms(2,3,1) _ assms(5)] assms(4) average_overflows
  by (simp add: proposed_in_def rtt_in_def add_rtt_def)

theorem proposed_rtts_bounds_witness:
  "\<exists>w' ms. pairs_client mem_runtime 0 \<lparr>mmreq_Submissions = [
        (sample_submission ''t1'')\<lparr>sub_Rtts := [\<lparr>rtt_Host = ''h'', rtt_Milliseconds = 30\<rparr>]\<rparr>,
        (sample_submission ''t2'')\<lparr>sub_Rtts := [\<lparr>rtt_Host = ''h'', rtt_Milliseconds = 51\<rparr>]\<rparr>]\<rparr> world0 =
      (Inr (eof_stream ms), w') \<and> (\<forall>mt \<in> set ms. \<forall>r \<in> set (match_Rtts mt). 30 \<le> sint (rtt_Milliseconds r))"
proof -
  let ?subs = "[(sample_submission ''t1'')\<lparr>sub_Rtts := [\<lparr>rtt_Host = ''h'', rtt_Milliseconds = 30\<rparr>]\<rparr>,
    (sample_submission ''t2'')\<lparr>sub_Rtts := [\<lparr>rtt_Host = ''h'', rtt_Milliseconds = 51\<rparr>]\<rparr>]"
  have members: "\<forall>sub \<in> set (mmreq_Submissions \<lparr>mmreq_Submissions = ?subs\<rparr>). sub_Members sub \<noteq> []" by code_simp
  have reports: "\<forall>sub \<in> set (mmreq_Submissions \<lparr>mmreq_Submissions = ?subs\<rparr>). \<forall>r \<in> set (sub_Rtts sub).
      30 \<le> sint (rtt_Milliseconds r) \<and> sint (rtt_Milliseconds r) \<le> 51" by simp
  have order: "\<forall>w. enumerates (rt_order mem_runtime w)" using mem_runtime.order by blast
  from pairs_runtime.pairs_client_spec [OF mem_pairs.pairs_runtime_axioms members, of 0 world0] obtain w' ms where
    run: "pairs_client mem_runtime 0 \<lparr>mmreq_Submissions = ?subs\<rparr> world0 = (Inr (eof_stream ms), w')" by blast
  note bounds = proposed_rtts_bounds [OF order _ _ reports run]
  have "\<forall>mt \<in> set ms. \<forall>r \<in> set (match_Rtts mt). 30 \<le> sint (rtt_Milliseconds r)"
  proof (intro ballI)
    fix mt r assume "mt \<in> set ms" and "r \<in> set (match_Rtts mt)"
    then have "RecvResponse \<lparr>mmresp_Match = Some mt\<rparr> \<in> set (eof_stream ms)" by (simp add: eof_stream_def)
    with bounds \<open>r \<in> set (match_Rtts mt)\<close> show "30 \<le> sint (rtt_Milliseconds r)" by simp
  qed
  with run show ?thesis by blast
qed

text \<open>C6: The matcher over the example matchmaker. On a store and a stream that do not fail, with matches that
  can be marshalled and stored tickets that are well formed: for every batch of the stream, with whatever
  repeated, unknown or linked tickets it names, the handling returns without a panic, and every stored
  ticket of the batch is linked to a match or has been announced again.\<close>

theorem matcher_with_pairs:
  assumes "matcher_env rt m tab log rest plain mat" and "mat_customLogic mat = pairs_client rt"
    and "store_reliable (tm_kvStore m)" and "stream_reliable rt (tm_streamClient m)"
    and "\<forall>mt. \<exists>b. rt_marshal_Match rt mt = Inr b" and "tickets_wf rt (tab w)"
  shows "\<exists>w'. on_batch rt mat ctx sts w = (Ret (), w') \<and>
    (\<forall>st \<in> set sts. \<forall>q. ticket_at rt (tab w) (st_MatchRequestId st) = Some q \<longrightarrow>
       looked_after rt (tab w') (log w) (log w') q)"
  by (rule matcher_env.on_batch_pairs [OF assms])

definition mem_pairs_matcher :: "faults \<Rightarrow> faults \<Rightarrow> world matcher" where
  "mem_pairs_matcher rf nf = NewMatcher 0 ''q'' (tickets_of mem_runtime (mem_tickets rf nf))
     (matches_of mem_runtime (mem_tickets rf nf)) (pairs_client mem_runtime)"

interpretation mem_pairs_matcher: matcher_env mem_runtime "mem_tickets rf nf" mem_tables w_log w_out
  plain_name "mem_pairs_matcher rf nf"
  unfolding matcher_env_def matcher_env_axioms_def
  using mem_pairs.pairs_client_frame by (auto simp: mem_matches_env mem_pairs_matcher_def NewMatcher_def)

theorem matcher_with_pairs_witness:
  "\<exists>w' q. on_batch mem_runtime (mem_pairs_matcher all_works all_works) 0
      [sample_ticket ''t2'', sample_ticket ''t1'', sample_ticket ''t2''] world2 = (Ret (), w') \<and>
    looked_after mem_runtime (mem_tables w') (w_log world2) (w_log w') q \<and> dbreq_Id q = ''t1''"
proof -
  have l: "mat_customLogic (mem_pairs_matcher all_works all_works) = pairs_client mem_runtime"
    by (simp add: mem_pairs_matcher_def NewMatcher_def)
  have "map_option dbreq_Id (ticket_at mem_runtime (mem_tables world2) ''t1'') = Some ''t1''" by code_simp
  then obtain q where "ticket_at mem_runtime (mem_tables world2) ''t1'' = Some q" "dbreq_Id q = ''t1''" by auto
  moreover have "st_MatchRequestId (sample_ticket ''t1'') = ''t1''" by (simp add: sample_ticket_def)
  ultimately show ?thesis
    using matcher_with_pairs [OF mem_pairs_matcher.matcher_env_axioms l mem_store_reliable
        mem_stream_reliable mem_marshal(2) world2_wf, of 0 "[sample_ticket ''t2'', sample_ticket ''t1'', sample_ticket ''t2'']"]
    by (metis list.set_intros)
qed

section \<open>From a request to a match\<close>

text \<open>C13: From the request to the batch: when \<open>CreateMatchRequest\<close> reports success it has announced the
  ticket on the topic of its queue, and an accumulator in any consistent state that receives the
  announcement has the ticket in a batch afterwards: the one it is collecting, or one that waits to be
  forwarded.\<close>

theorem request_to_batch:
  assumes "accumulator_env rt m tab log rest plain acc"
    and "CreateMatchRequest rt m ctx req w = (Ret None, w1)"
  shows "\<exists>b. log w1 = log w @ [(GetMatchRequestTopic (req_MatchmakingQueue req), b)] \<and>
    (\<forall>a v. acc_inv (acc_config acc) a \<longrightarrow>
      (\<exists>a'. acc_step rt acc (Delivery b) a v = (Ret a', v) \<and> acc_inv (acc_config acc) a' \<and>
        (\<exists>sts \<in> set (acc_slice a' # acc_forwards a'). req_Id req \<in> st_MatchRequestId ` set sts)))"
  by (rule accumulator_env.created_request_waits [OF assms])

theorem request_to_batch_witness:
  "\<exists>b a'. w_log (snd (CreateMatchRequest mem_runtime (mem_tickets all_works all_works) 0 (sample_request ''t1'') world0)) =
      [(GetMatchRequestTopic ''q'', b)] \<and>
    acc_step mem_runtime (mem_accumulator all_works all_works) (Delivery b) fresh_acc world0 = (Ret a', world0) \<and>
    (\<exists>sts \<in> set (acc_slice a' # acc_forwards a'). ''t1'' \<in> st_MatchRequestId ` set sts)"
proof -
  let ?run = "CreateMatchRequest mem_runtime (mem_tickets all_works all_works) 0 (sample_request ''t1'') world0"
  have f: "fst ?run = Ret None" by code_simp
  have q: "req_MatchmakingQueue (sample_request ''t1'') = ''q''" "req_Id (sample_request ''t1'') = ''t1''"
    "w_log world0 = []"
    by (simp_all add: sample_request_def world0_def)
  have "acc_inv (acc_config (mem_accumulator all_works all_works)) fresh_acc"
    by (simp add: acc_inv_def fresh_acc_def batch_limit_def)
  with request_to_batch [OF mem_accumulator.accumulator_env_axioms prod.collapse [symmetric, of ?run, unfolded f]]
  show ?thesis unfolding q by (metis append_Nil)
qed

text \<open>C14: From the batch to the matches, on a store and a stream that do not fail and with matches that can be
  marshalled: when an accumulator has published a batch, the message it has published makes the matcher of
  the queue, over the example matchmaker, look after every stored ticket of the batch, in whatever state of
  the store with well formed tickets it arrives: the ticket is linked to a match or announced again.\<close>

theorem batch_to_matches:
  assumes "matcher_env rt m tab log rest plain mat" and "mat_customLogic mat = pairs_client rt"
    and "store_reliable (tm_kvStore m)" and "stream_reliable rt (tm_streamClient m)"
    and "\<forall>mt. \<exists>b. rt_marshal_Match rt mt = Inr b"
    and "PublishAccumulatedMatchRequests rt m ctx queue sts w = (Ret None, w1)"
  shows "\<exists>data. log w1 = log w @ [(GetAccumulatedMatchRequestTopic queue, data)] \<and>
    (\<forall>v. tickets_wf rt (tab v) \<longrightarrow> (\<exists>v'. Matcher_delivery rt mat data v = (Ret (), v') \<and>
      (\<forall>st \<in> set sts. \<forall>q. ticket_at rt (tab v) (st_MatchRequestId st) = Some q \<longrightarrow>
         looked_after rt (tab v') (log v) (log v') q)))"
  by (rule matcher_env.published_batch_handled [OF assms])

theorem batch_to_matches_witness:
  "\<exists>data v' q. w_log (snd (PublishAccumulatedMatchRequests mem_runtime (mem_tickets all_works all_works) 0 ''q''
        [sample_ticket ''t1''] world2)) = w_log world2 @ [(GetAccumulatedMatchRequestTopic ''q'', data)] \<and>
    Matcher_delivery mem_runtime (mem_pairs_matcher all_works all_works) data world2 = (Ret (), v') \<and>
    looked_after mem_runtime (mem_tables v') (w_log world2) (w_log v') q \<and> dbreq_Id q = ''t1''"
proof -
  let ?run = "PublishAccumulatedMatchRequests mem_runtime (mem_tickets all_works all_works) 0 ''q''
        [sample_ticket ''t1''] world2"
  have l: "mat_customLogic (mem_pairs_matcher all_works all_works) = pairs_client mem_runtime"
    by (simp add: mem_pairs_matcher_def NewMatcher_def)
  have f: "fst ?run = Ret None" by code_simp
  have "map_option dbreq_Id (ticket_at mem_runtime (mem_tables world2) ''t1'') = Some ''t1''" by code_simp
  then obtain q where "ticket_at mem_runtime (mem_tables world2) ''t1'' = Some q" "dbreq_Id q = ''t1''" by auto
  moreover have "st_MatchRequestId (sample_ticket ''t1'') = ''t1''" by (simp add: sample_ticket_def)
  ultimately show ?thesis
    using batch_to_matches [OF mem_pairs_matcher.matcher_env_axioms l mem_store_reliable mem_stream_reliable
        mem_marshal(2) prod.collapse [symmetric, of ?run, unfolded f]] world2_wf
    by (metis list.set_intros(1))
qed

section \<open>From a match to its game server\<close>

text \<open>C15: From the match to the server. Suppose that the store, its reads and the publish and subscribe client do
  not fail, that every request can be marshalled, that the stored tickets are well formed, and that the
  assignment service answers every request for a game server with the same one. When \<open>CreateMatch\<close> has
  announced a match of which at least one ticket is stored, and the store is as it left it, the dispenser
  that receives the announcement puts this server into every stored ticket of the match, nothing else of
  which changes, and every ticket of the match is announced as assigned.\<close>

theorem match_to_servers:
  assumes "dispenser_env rt m tab log rest plain dis"
    and "tickets_wf rt (tab w)" and "store_reliable (tm_kvStore m)"
    and "reads_reliable (tm_kvStore m) tab" and "pubsub_reliable (tm_pubsubClient m)"
    and "\<forall>q. \<exists>b. rt_marshal_MatchRequest rt q = Inr b"
    and "CreateMatch rt (matches_manager_of rt m) (Some mt0) w = (Ret (Inr True), w1)"
    and "set (match_MatchRequestIds mt0) \<inter> dom (tab w collectionTickets) \<noteq> {}"
    and "tab w2 = tab w1"
    and "\<forall>mt v. \<exists>v'. dis_customLogic dis ctx \<lparr>mareq_Match = Some mt\<rparr> v =
      (Inr \<lparr>maresp_GameServer = Some gsv\<rparr>, v')"
  shows "\<exists>data w'. log w1 = log w @ [(GetUnassignedMatchesTopic, data)] \<and>
    Dispenser_delivery rt dis ctx data w2 = (Ret (), w') \<and>
    (\<forall>k \<in> set (match_MatchRequestIds mt0) \<inter> dom (tab w collectionTickets).
       \<exists>q. ticket_at rt (tab w) k = Some q \<and>
         ticket_at rt (tab w') k = Some (q\<lparr>dbreq_GameServer := Some (db_GameServer_of gsv)\<rparr>)) \<and>
    (\<exists>ks. mset ks = mset (match_MatchRequestIds mt0) \<and> log w' = log w2 @ map assigned_msg ks)"
  by (rule dispenser_env.created_match_served [OF assms])

theorem match_to_servers_witness:
  "\<exists>data w'. w_log world4 = w_log world2 @ [(GetUnassignedMatchesTopic, data)] \<and>
    Dispenser_delivery mem_runtime (mem_dispenser all_works all_works
      (Inr \<lparr>maresp_GameServer = Some sample_server\<rparr>)) 0 data world4 = (Ret (), w') \<and>
    (\<exists>q. ticket_at mem_runtime (mem_tables w') ''t1'' = Some q \<and>
      dbreq_GameServer q = Some (db_GameServer_of sample_server))"
proof -
  let ?dis = "mem_dispenser all_works all_works (Inr \<lparr>maresp_GameServer = Some sample_server\<rparr>)"
  let ?create = "CreateMatch mem_runtime (mem_matches all_works all_works) (Some (sample_match ''M'' [''t1'', ''t2'']))"
  have "fst (?create world2) = Ret (Inr True)" by code_simp
  then have created: "?create world2 = (Ret (Inr True), world4)" by (simp add: world4_def prod_eq_iff)
  have dom: "mem_tables world2 collectionTickets ''t1'' \<noteq> None" by code_simp
  have serve: "\<forall>mt v. \<exists>v'. dis_customLogic ?dis 0 \<lparr>mareq_Match = Some mt\<rparr> v =
      (Inr \<lparr>maresp_GameServer = Some sample_server\<rparr>, v')"
    by (simp add: mem_dispenser_def NewDispenser_def)
  have ids: "match_MatchRequestIds (sample_match ''M'' [''t1'', ''t2'']) = [''t1'', ''t2'']"
    by (simp add: sample_match_def)
  from match_to_servers [OF mem_dispenser.dispenser_env_axioms world2_wf mem_store_reliable
      mem_reads_reliable mem_pubsub_reliable mem_marshal(1) created _ refl serve] dom
  show ?thesis unfolding ids by fastforce
qed

section \<open>From two requests to their game server\<close>

text \<open>C2: Two players meet. On clients that answer, with an accumulator that collects two tickets and is
  idle, the example matchmaker and an assignment service that has a server: the requests of two
  new tickets are stored and announced; the accumulator that receives the two announcements and whose
  goroutine gets its turn publishes a batch; the matcher that receives the batch announces a match; the
  dispenser that receives the match puts the server into both tickets, and tells the subscribers of
  each of the two exactly once. Nothing else is announced on the way.\<close>

theorem players_meet:
  assumes "program_env rt m tab log rest plain acc mat dis"
    and "mat_customLogic mat = pairs_client rt"
    and "store_reliable (tm_kvStore m)" and "reads_reliable (tm_kvStore m) tab"
    and "stream_reliable rt (tm_streamClient m)" and "pubsub_reliable (tm_pubsubClient m)"
    and "\<forall>q. \<exists>b. rt_marshal_MatchRequest rt q = Inr b" and "\<forall>mt. \<exists>b. rt_marshal_Match rt mt = Inr b"
    and "\<forall>ast. \<exists>b. rt_marshal_Accumulated rt ast = Inr b"
    and "batch_limit (acc_config acc) = 2" and "acc_inv (acc_config acc) a"
    and "acc_slice a = []" and "acc_forwards a = []"
    and "\<forall>mt v. \<exists>v'. dis_customLogic dis ctx \<lparr>mareq_Match = Some mt\<rparr> v =
      (Inr \<lparr>maresp_GameServer = Some gsv\<rparr>, v')"
    and "tickets_wf rt (tab w)"
    and "\<forall>k \<in> {req_Id req1, req_Id req2}. k \<noteq> [] \<and> tab w collectionTickets k = None \<and>
      tab w collectionTicketAssignments k = None"
    and "req_Id req1 \<noteq> req_Id req2" and "req_MatchmakingQueue req1 = req_MatchmakingQueue req2"
  shows "\<exists>w1 w2 b1 b2 a' w3 batch w4 mid w5.
    CreateMatchRequest rt m ctx1 req1 w = (Ret None, w1) \<and>
    CreateMatchRequest rt m ctx2 req2 w1 = (Ret None, w2) \<and>
    log w2 = log w @ map (Pair (GetMatchRequestTopic (req_MatchmakingQueue req1))) [b1, b2] \<and>
    acc_run rt acc [Delivery b1, Delivery b2, Forwarding 0] a w2 = (Ret a', w3) \<and>
    log w3 = log w2 @ [(GetAccumulatedMatchRequestTopic (acc_matchmakingQueue acc), batch)] \<and>
    Matcher_delivery rt mat batch w3 = (Ret (), w4) \<and>
    log w4 = log w3 @ [(GetUnassignedMatchesTopic, mid)] \<and>
    Dispenser_delivery rt dis ctx mid w4 = (Ret (), w5) \<and>
    (\<forall>k \<in> {req_Id req1, req_Id req2}. \<exists>q. ticket_at rt (tab w5) k = Some q \<and>
       dbreq_GameServer q = Some (db_GameServer_of gsv)) \<and>
    (\<exists>ks. mset ks = {#req_Id req1, req_Id req2#} \<and> log w5 = log w4 @ map assigned_msg ks)"
  by (rule working_program.two_players_meet [OF working_program.intro [OF assms(1)
        working_program_axioms.intro [OF assms(2-10,14)]] assms(11-13,15-18)])

interpretation mem_program: program_env mem_runtime "mem_tickets all_works all_works" mem_tables w_log w_out
  plain_name "mem_accumulator all_works all_works" "mem_pairs_matcher all_works all_works"
  "mem_dispenser all_works all_works (Inr \<lparr>maresp_GameServer = Some sample_server\<rparr>)"
  by (intro program_env.intro mem_accumulator.accumulator_env_axioms mem_pairs_matcher.matcher_env_axioms
      mem_dispenser.dispenser_env_axioms)

lemma sample_pairs: "mat_customLogic (mem_pairs_matcher rf nf) = pairs_client mem_runtime"
  by (simp add: mem_pairs_matcher_def NewMatcher_def)

lemma sample_idle:
  "batch_limit (acc_config (mem_accumulator rf nf)) = 2" "acc_inv (acc_config (mem_accumulator rf nf)) fresh_acc"
  "acc_slice fresh_acc = []" "acc_forwards fresh_acc = []"
  by (simp_all add: acc_inv_def fresh_acc_def batch_limit_def mem_accumulator_def accumulator_config_def)

lemma sample_serve: "\<forall>mt v. \<exists>v'. dis_customLogic (mem_dispenser rf nf (Inr \<lparr>maresp_GameServer = Some sample_server\<rparr>)) ctx
    \<lparr>mareq_Match = Some mt\<rparr> v = (Inr \<lparr>maresp_GameServer = Some sample_server\<rparr>, v')"
  by (simp add: mem_dispenser_def NewDispenser_def)

lemma world0_wf: "tickets_wf mem_runtime (mem_tables world0)"
  by (simp add: tickets_wf_def deployed_tables_def redis_table_def world_db_def world0_def)

theorem players_meet_witness:
  "\<exists>w5. (\<forall>k \<in> {''t1'', ''t2''}. \<exists>q. ticket_at mem_runtime (mem_tables w5) k = Some q \<and>
      dbreq_GameServer q = Some (db_GameServer_of sample_server)) \<and>
    length (w_log w5) = 6"
proof -
  have req: "req_Id (sample_request k) = k" "req_MatchmakingQueue (sample_request k) = ''q''" for k
    by (simp_all add: sample_request_def)
  have new: "\<forall>k \<in> {req_Id (sample_request ''t1''), req_Id (sample_request ''t2'')}. k \<noteq> [] \<and>
      mem_tables world0 collectionTickets k = None \<and> mem_tables world0 collectionTicketAssignments k = None"
    unfolding req by (simp add: deployed_tables_def redis_table_def world_db_def world0_def)
  have log0: "w_log world0 = []" by (simp add: world0_def)
  have two: "req_Id (sample_request ''t1'') \<noteq> req_Id (sample_request ''t2'')" unfolding req by simp
  have queue: "req_MatchmakingQueue (sample_request ''t1'') = req_MatchmakingQueue (sample_request ''t2'')"
    unfolding req ..
  note live = players_meet [OF mem_program.program_env_axioms sample_pairs mem_store_reliable mem_reads_reliable
      mem_stream_reliable mem_pubsub_reliable mem_marshal(1) mem_marshal(2) mem_marshal(3)]
  note run = live [OF sample_idle sample_serve [where ctx = 0] world0_wf new two queue, of 0 0]
  obtain w2 w3 w4 w5 :: world and b1 b2 A B T batch mid ks where
    l: "w_log w2 = w_log world0 @ map (Pair T) [b1, b2]" "w_log w3 = w_log w2 @ [(A, batch)]"
      "w_log w4 = w_log w3 @ [(B, mid)]"
    and t: "\<forall>k \<in> {req_Id (sample_request ''t1''), req_Id (sample_request ''t2'')}.
      \<exists>q. ticket_at mem_runtime (mem_tables w5) k = Some q \<and> dbreq_GameServer q = Some (db_GameServer_of sample_server)"
    and ks: "mset ks = {#req_Id (sample_request ''t1''), req_Id (sample_request ''t2'')#}"
      "w_log w5 = w_log w4 @ map assigned_msg ks"
    using run by (elim exE conjE) (rule that, assumption+)
  from ks(1) have "size (mset ks) = 2" by simp
  with l ks(2) have "length (w_log w5) = 6" by (simp add: log0)
  with t show ?thesis unfolding req by blast
qed

text \<open>C3: A waiting player is answered, while the libraries answer. Suppose that the store, its reads, the
  stream and the publish and subscribe client do not fail, that every message can be marshalled, and that
  each Subscribe and each Send to a client succeeds. A player calls \<open>Match\<close> with a new request for a queue
  that is served and waits; meanwhile the new request of a second player is stored, the announcements of both
  are delivered to an idle accumulator that collects two, its batch to a matcher over the example
  matchmaker, and the match to a dispenser whose assignment service always answers with one server. Then,
  when any message on the subject of the ticket arrives, the call of the first player sends exactly one
  response, with that server, and ends without an error.\<close>

theorem player_answered:
  assumes "frontend_env rt R db nc log rest pfx grp subs set_subs svc svr outbox"
    and "program_env rt (deployed_tickets_manager rt R nc pfx grp subs set_subs) (deployed_tables db pfx) log rest plain
      acc mat dis"
    and "m = deployed_tickets_manager rt R nc pfx grp subs set_subs" and "tab = deployed_tables db pfx"
    and "mat_customLogic mat = pairs_client rt"
    and "store_reliable (tm_kvStore m)" and "reads_reliable (tm_kvStore m) tab"
    and "stream_reliable rt (tm_streamClient m)" and "pubsub_reliable (tm_pubsubClient m)"
    and "\<forall>q. \<exists>b. rt_marshal_MatchRequest rt q = Inr b" and "\<forall>mt. \<exists>b. rt_marshal_Match rt mt = Inr b"
    and "\<forall>ast. \<exists>b. rt_marshal_Accumulated rt ast = Inr b"
    and "\<forall>t w. \<exists>n w'. nc_Subscribe nc t w = (Inr n, w')" and "\<forall>r w. \<exists>w'. svr_Send svr r w = (None, w')"
    and "batch_limit (acc_config acc) = 2" and "acc_inv (acc_config acc) a"
    and "acc_slice a = []" and "acc_forwards a = []"
    and "\<forall>mt v. \<exists>v'. dis_customLogic dis ctx \<lparr>mareq_Match = Some mt\<rparr> v =
      (Inr \<lparr>maresp_GameServer = Some gsv\<rparr>, v')"
    and "tickets_wf rt (tab w)"
    and "\<forall>k \<in> {req_Id req1, req_Id req2}. k \<noteq> [] \<and> tab w collectionTickets k = None \<and>
      tab w collectionTicketAssignments k = None"
    and "req_Id req1 \<noteq> req_Id req2" and "req_MatchmakingQueue req1 \<in> svc_queues svc"
  shows "\<exists>w'. Service_Match rt svc req1 svr (\<lambda>v. v)
      [SubStep (rest_of_program rt m log acc a mat dis ctx ctx2 req2), SubMsg b, SubDone] w = (Ret None, w') \<and>
    outbox (rest w') = outbox (rest w) @ [\<lparr>mresp_GameServer = Some gsv\<rparr>]"
  using live_program.waiting_player_answered [OF live_program.intro [OF assms(1) working_program.intro [OF assms(2)
        working_program_axioms.intro [OF assms(5-12,15,19) [unfolded assms(3,4)]]]
      live_program_axioms.intro [OF assms(13,14)]] assms(16-18) assms(20,21) [unfolded assms(4)] assms(22,23)]
  unfolding assms(3) .

interpretation mem_working: working_program mem_runtime "mem_tickets all_works all_works" mem_tables w_log w_out
  plain_name "mem_accumulator all_works all_works" "mem_pairs_matcher all_works all_works"
  "mem_dispenser all_works all_works (Inr \<lparr>maresp_GameServer = Some sample_server\<rparr>)" 0 sample_server
  by (intro working_program.intro mem_program.program_env_axioms working_program_axioms.intro sample_pairs
      mem_store_reliable mem_reads_reliable mem_stream_reliable mem_pubsub_reliable mem_marshal sample_idle(1) sample_serve)

lemma mem_caller_sends: "\<forall>r w. \<exists>w'. svr_Send mem_caller r w = (None, w')"
  by (simp add: mem_caller_def)

interpretation mem_live: live_program mem_runtime "mem_redis all_works" world_db "mem_nats all_works" w_log
  w_out "''rivalry''" "''group''" w_subs set_w_subs "mem_service all_works all_works" mem_caller "\<lambda>out. out" plain_name
  "mem_accumulator all_works all_works" "mem_pairs_matcher all_works all_works"
  "mem_dispenser all_works all_works (Inr \<lparr>maresp_GameServer = Some sample_server\<rparr>)" 0 sample_server
  by (intro live_program.intro mem_frontend.frontend_env_axioms live_program_axioms.intro mem_nats_subscribes
      mem_caller_sends mem_working.working_program_axioms [unfolded mem_tickets_def])

theorem player_answered_witness:
  "\<exists>g w'. Service_Match mem_runtime (mem_service all_works all_works) (sample_request ''t1'') mem_caller (\<lambda>v. v)
      [SubStep g, SubMsg ''assigned'', SubDone] world0 = (Ret None, w') \<and>
    w_out w' = [\<lparr>mresp_GameServer = Some sample_server\<rparr>]"
proof -
  let ?acc = "mem_accumulator all_works all_works" and ?mat = "mem_pairs_matcher all_works all_works"
  let ?dis = "mem_dispenser all_works all_works (Inr \<lparr>maresp_GameServer = Some sample_server\<rparr>)"
  let ?k = "\<lambda>i. req_Id (sample_request i)"
  have req: "?k i = i" "req_MatchmakingQueue (sample_request i) = ''q''" for i
    by (simp_all add: sample_request_def)
  have new: "\<forall>k \<in> {?k ''t1'', ?k ''t2''}. k \<noteq> [] \<and>
      mem_tables world0 collectionTickets k = None \<and> mem_tables world0 collectionTicketAssignments k = None"
    unfolding req by (simp add: deployed_tables_def redis_table_def world_db_def world0_def)
  have two: "?k ''t1'' \<noteq> ?k ''t2''" unfolding req by simp
  have queue: "req_MatchmakingQueue (sample_request ''t1'') \<in> svc_queues (mem_service all_works all_works)"
    by (simp add: req mem_service_def NewService_def)
  have out0: "w_out world0 = []" by (simp add: world0_def)
  note answered = player_answered [OF mem_frontend.frontend_env_axioms mem_program.program_env_axioms [unfolded mem_tickets_def]
      mem_tickets_def refl sample_pairs
      mem_store_reliable mem_reads_reliable mem_stream_reliable mem_pubsub_reliable mem_marshal(1) mem_marshal(2)
      mem_marshal(3) mem_nats_subscribes mem_caller_sends]
  from answered [OF sample_idle sample_serve [where ctx = 0] world0_wf new two queue, of 0 "''assigned''"]
  show ?thesis unfolding out0 append_Nil by blast
qed

section \<open>A player at the command line\<close>

text \<open>C4: The player at the command line is answered, while the libraries answer. The client is started with
  the address of the frontend and a player; the frontend can be dialled, the connection is a gRPC connection
  that delivers to it, and the JSON reader of the client reads \<open>{}\<close> as the empty map. The program is deployed as
  in the theorem above: store, reads, stream, publish and subscribe client, Subscribe and Send do not fail,
  every message can be marshalled, the accumulator is idle and collects two, and the assignment service
  always answers with one server. The frontend serves the default queue and draws an id that is not
  empty and new, the ticket of the second player is new too, and the stored tickets are well formed. While the client waits, the second player asks for
  the queue and the accumulator, the matcher over the pairs matchmaker and the dispenser do their work.
  Then the client prints the game server that the assignment service chose, once, and ends with the end of
  the stream as its error.\<close>

theorem cli_player_served:
  assumes "flag_library Parse" and "cli_Dial h t w = (Inr conn, w0)"
    and "cli_json_Doubles h ''{}'' = Inr fmempty" and "cli_json_Strings h ''{}'' = Inr fmempty"
    and "cli_RivalryServiceClient h conn = NewRivalryServiceClient cc"
    and "grpc_stream_server cc
      (RivalryService_ServiceDesc (\<lambda>req svr. Service_Match rt svc req svr (\<lambda>v. v)
        [SubStep (rest_of_program rt m log acc a mat dis ctx ctx2 req2), SubMsg b, SubDone]))
      (in_world stream (\<lambda>v. outbox (rest v)) status)"
    and "svr = rivalryServiceMatchServer
      (stream (cli_Background h) (cli_request fmempty fmempty [''1v1''] p ''default''))"
    and "live_program rt R db nc log rest pfx grp subs set_subs svc svr outbox plain acc mat dis ctx gsv"
    and "m = deployed_tickets_manager rt R nc pfx grp subs set_subs" and "tab = deployed_tables db pfx"
    and "acc_inv (acc_config acc) a" and "acc_slice a = []" and "acc_forwards a = []"
    and "tickets_wf rt (tab w0)" and "draws_fresh rt tab (req_Id req2) w0"
    and "req_Id req2 \<noteq> []" and "tab w0 collectionTickets (req_Id req2) = None"
    and "tab w0 collectionTicketAssignments (req_Id req2) = None" and "''default'' \<in> svc_queues svc"
  shows "\<exists>fl w'. Parse match_request_flagset (flag_args [(''target'', Some t), (''player_id'', Some p)]) = Inr fl \<and>
    match_request_RunE h fl w = (Ret (Some ErrEOF), cli_Println h \<lparr>mresp_GameServer = Some gsv\<rparr> w') \<and>
    outbox (rest w') = outbox (rest w0) @ [\<lparr>mresp_GameServer = Some gsv\<rparr>]"
proof -
  let ?req = "cli_request fmempty fmempty [''1v1''] p ''default''"
  let ?fl = "parsed match_request_flagset [(''target'', Some t), (''player_id'', Some p)]"
  have id: "req_Id ?req = []" and queue: "req_MatchmakingQueue ?req \<in> svc_queues svc"
    using assms(19) by (simp_all add: cli_request_def)
  from live_program.new_player_answered [OF assms(8) assms(11-13) assms(14) [unfolded assms(10)] id
      assms(15) [unfolded assms(10)] assms(16) assms(17,18) [unfolded assms(10)] queue, of ctx2 b]
  obtain w' where w': "Service_Match rt svc ?req svr (\<lambda>v. v)
      [SubStep (rest_of_program rt m log acc a mat dis ctx ctx2 req2), SubMsg b, SubDone] w0 = (Ret None, w')"
    "outbox (rest w') = outbox (rest w0) @ [\<lparr>mresp_GameServer = Some gsv\<rparr>]"
    unfolding assms(9) by blast
  from Match_sees [OF assms(6) w'(1) [unfolded assms(7)] w'(2)]
  have "cli_RivalryServiceClient h conn (cli_Background h) ?req w0 =
      (Inr (map Inr [\<lparr>mresp_GameServer = Some gsv\<rparr>] @ Inl ErrEOF # []), w')" unfolding assms(5) NewRivalryServiceClient_def .
  from match_request_prints [OF refl assms(2-4) this] match_request_args [OF assms(1)] w'(2)
  show ?thesis by (intro exI [of _ ?fl] exI [of _ w']) simp
qed

text \<open>The client of a player on the platform; its terminal is the log of the world.\<close>

definition mem_stream :: "ctx \<Rightarrow> api_MatchRequest \<Rightarrow> (world, api_MatchRequest, api_MatchResponse) ServerStream" where
  "mem_stream c req =
    \<lparr>ss_Context = svr_Context mem_caller, ss_RecvMsg = (\<lambda>w. (Inr req, w)), ss_SendMsg = svr_Send mem_caller\<rparr>"

interpretation mem_frontend_server: grpc_stream_server
  "mem_conn MatchCall get_Match (RivalryService_ServiceDesc srv) (in_world mem_stream w_out status)"
  "RivalryService_ServiceDesc srv" "in_world mem_stream w_out status"
  by (rule mem_conn_serves) (simp_all add: get_Match_def in_world_def mem_stream_def)

definition mem_cli_host :: "world RivalryServiceClient \<Rightarrow> world cli_host" where
  "mem_cli_host client =
    \<lparr>cli_Dial = (\<lambda>t w. (Inr 0, w)), cli_RivalryServiceClient = (\<lambda>conn. client),
     cli_json_Doubles = (\<lambda>b. Inr fmempty), cli_json_Strings = (\<lambda>b. Inr fmempty),
     cli_Println = (\<lambda>resp w. w\<lparr>w_log := w_log w @ [(''stdout'',
       case mresp_GameServer resp of None \<Rightarrow> [] | Some gs \<Rightarrow> gs_GameServerIp gs)]\<rparr>),
     cli_Background = 0\<rparr>"

theorem cli_player_served_witness:
  "\<exists>client fl w'. match_request_RunE (mem_cli_host client) fl world0 = (Ret (Some ErrEOF), w') \<and>
    last (w_log w') = (''stdout'', gs_GameServerIp sample_server) \<and> w_out w' = [\<lparr>mresp_GameServer = Some sample_server\<rparr>]"
proof -
  let ?m = "deployed_tickets_manager mem_runtime (mem_redis all_works) (mem_nats all_works) ''rivalry'' ''group'' w_subs set_w_subs"
  let ?evs = "[SubStep (rest_of_program mem_runtime ?m w_log (mem_accumulator all_works all_works) fresh_acc
    (mem_pairs_matcher all_works all_works)
    (mem_dispenser all_works all_works (Inr \<lparr>maresp_GameServer = Some sample_server\<rparr>)) 0 0 (sample_request ''t2'')),
    SubMsg ''assigned'', SubDone]"
  let ?cc = "mem_conn MatchCall get_Match (RivalryService_ServiceDesc (\<lambda>req svr.
    Service_Match mem_runtime (mem_service all_works all_works) req svr (\<lambda>v. v) ?evs))
    (in_world mem_stream w_out (\<lambda>err. err))"
  let ?h = "mem_cli_host (NewRivalryServiceClient ?cc)"
  have h: "cli_Dial ?h t w = (Inr 0, w)" "cli_json_Doubles ?h b = Inr fmempty" "cli_json_Strings ?h b = Inr fmempty"
    "cli_RivalryServiceClient ?h 0 = NewRivalryServiceClient ?cc" for t w b
    by (simp_all add: mem_cli_host_def)
  have svr: "mem_caller = rivalryServiceMatchServer (mem_stream c req)" for c req
    by (simp add: rivalryServiceMatchServer_def mem_stream_def)
  have world0_tables: "mem_tables world0 c k = None" for c k
    by (simp add: deployed_tables_def redis_table_def world_db_def world0_def)
  have draw: "draws_fresh mem_runtime mem_tables (req_Id (sample_request ''t2'')) world0"
    by (simp add: draws_fresh_def world0_tables mem_runtime_def sample_request_def)
  have second: "req_Id (sample_request ''t2'') \<noteq> []" and queue: "''default'' \<in> svc_queues (mem_service all_works all_works)"
    by (simp_all add: sample_request_def mem_service_def NewService_def)
  note served = cli_player_served [OF mem_flags.flag_library_axioms h mem_frontend_server.grpc_stream_server_axioms svr
      mem_live.live_program_axioms refl refl sample_idle(2-4) world0_wf draw second world0_tables world0_tables queue]
  obtain fl w' where run: "match_request_RunE ?h fl world0 =
      (Ret (Some ErrEOF), cli_Println ?h \<lparr>mresp_GameServer = Some sample_server\<rparr> w')"
    "w_out w' = w_out world0 @ [\<lparr>mresp_GameServer = Some sample_server\<rparr>]"
    using served [of "'':50051''" "''p1''"] by blast
  show ?thesis
    by (rule exI [of _ "NewRivalryServiceClient ?cc"], rule exI [of _ fl], rule exI [of _ "cli_Println ?h
        \<lparr>mresp_GameServer = Some sample_server\<rparr> w'"]) (use run in \<open>simp add: mem_cli_host_def world0_def\<close>)
qed

section \<open>The whole program\<close>

text \<open>C1: No ticket is in two matches. Take any run of the frontend, the accumulators, the matchers and the
  dispenser, in any order and with any failure of the store or the streams, in which custom
  matchmakers propose new match ids and the dispenser is given announced matches. Whatever the run,
  every announced match that is stored is stored under its own id and its tickets are linked to
  it, and so two announced matches have no ticket in common.\<close>

theorem no_double_match:
  assumes "matches_env rt m tab log rest plain"
    and "service_steps rt m tab log rest plain w w'"
    and "tickets_wf rt (tab w)" and "matches_wf rt (tab w) (log w)"
    and "announced (log w') k" and "announced (log w') k'" and "k \<noteq> k'"
    and "match_at rt (tab w') k = Some mt" and "match_at rt (tab w') k' = Some mt'"
  shows "match_MatchId mt = k \<and>
    (\<forall>i \<in> set (match_MatchRequestIds mt). tab w' collectionTicketAssignments i = Some k) \<and>
    set (match_MatchRequestIds mt) \<inter> set (match_MatchRequestIds mt') = {}"
  by (rule matches_env.service_steps_disjoint [OF assms])

definition batch_message :: bytes where
  "batch_message = fst Accumulated_codec
     \<lparr>ast_StreamTickets = [sample_ticket ''t1'', sample_ticket ''t2'']\<rparr>"

text \<open>A matcher that proposes two matches, and the world after it handled a batch of two tickets.\<close>

definition two_matches :: "world matcher" where
  "two_matches = mem_matcher all_works all_works [sample_match ''M'' [''t1''], sample_match ''N'' [''t2'']]"

definition world5 :: world where
  "world5 = snd (Matcher_delivery mem_runtime two_matches batch_message world2)"

interpretation two_matches: matcher_env mem_runtime "mem_tickets all_works all_works" mem_tables w_log w_out
  plain_name two_matches
  unfolding two_matches_def by (rule mem_matcher.matcher_env_axioms)

lemma world2_announced: "\<not> announced (w_log world2) k"
proof -
  have "map fst (w_log world2) = [GetMatchRequestTopic ''q'', GetMatchRequestTopic ''q'']" by code_simp
  then have "GetUnassignedMatchesTopic \<notin> set (map fst (w_log world2))" by simp
  then show ?thesis by (force simp: announced_def)
qed

lemma two_matches_fresh:
  "proposes_fresh mem_runtime (mem_tickets all_works all_works) w_log (mat_customLogic two_matches) world2"
  unfolding proposes_fresh_def
proof (intro allI impI)
  fix v ctx req rs v'
  assume "(ticket_call mem_runtime (mem_tickets all_works all_works) {})\<^sup>*\<^sup>* world2 v"
    and "mat_customLogic two_matches ctx req v = (Inr rs, v')"
  then show "fresh_proposals (announced (w_log v)) rs"
    using matches_env.ticket_calls_announced [OF mem_matches_env _ world2_wf] world2_announced
    by (auto simp: two_matches_def mem_matcher_def NewMatcher_def eof_stream_def sample_match_def)
qed

theorem no_double_match_witness:
  "\<exists>mt mt'. match_at mem_runtime (mem_tables world5) ''M'' = Some mt \<and>
    match_at mem_runtime (mem_tables world5) ''N'' = Some mt' \<and>
    set (match_MatchRequestIds mt) \<inter> set (match_MatchRequestIds mt') = {}"
proof -
  have "service_step mem_runtime (mem_tickets all_works all_works) mem_tables w_log w_out plain_name world2 world5"
    unfolding world5_def
    by (rule service_step.match_batch [OF two_matches.matcher_env_axioms two_matches_fresh prod.collapse [symmetric]])
  then have run: "service_steps mem_runtime (mem_tickets all_works all_works) mem_tables w_log w_out plain_name
      world2 world5" by blast
  have wf: "matches_wf mem_runtime (mem_tables world2) (w_log world2)"
    by (simp add: matches_wf_def world2_announced)
  have "announced (w_log world5) ''M''" "announced (w_log world5) ''N''" by code_simp+
  moreover have "match_at mem_runtime (mem_tables world5) ''M'' \<noteq> None"
    "match_at mem_runtime (mem_tables world5) ''N'' \<noteq> None" by code_simp+
  then obtain mt mt' where "match_at mem_runtime (mem_tables world5) ''M'' = Some mt"
    "match_at mem_runtime (mem_tables world5) ''N'' = Some mt'" by blast
  moreover have "''M'' \<noteq> ''N''" by simp
  ultimately show ?thesis
    using no_double_match [OF mem_matches_env run world2_wf wf] by blast
qed

end
